(* ===== verification/Prelude.thy ===== *)
theory Prelude
  imports Main "HOL-Library.List_Lexorder" "HOL-Library.Product_Lexorder" "HOL-Library.Char_ord"
begin

text \<open>
  The shared base of the development: the collections of rewrite rules the component theories
  fill, the types that name the program's own data (text, instants, days), and the generic
  lemmas on lists, stable sorting and options that several components use.
\<close>

section \<open>Collections\<close>

text \<open>
  The collection \<open>frame\<close> gathers the facts that say which part of the state an operation
  leaves alone, and \<open>outcome\<close> the facts that say what an operation returns on each branch.
\<close>

named_theorems frame
named_theorems outcome

section \<open>Types of the model\<close>

text \<open>
  An instant is the number of microseconds since 1970-01-01T00:00:00 UTC, a day the number of
  days since that date, and text is a list of characters (UTF-8 code units where the program
  writes characters outside ASCII).
\<close>

type_synonym text_value = string
type_synonym datetime = int
type_synonym day = int

abbreviation microseconds_per_day :: int where
  "microseconds_per_day \<equiv> 86400000000"

section \<open>Lists\<close>

text \<open>The sum of a list of integers, as Python's \<open>sum\<close> over a generator.\<close>

lemma sum_list_map_le:
  fixes f g :: "'a \<Rightarrow> int"
  assumes "\<And>x. x \<in> set xs \<Longrightarrow> f x \<le> g x"
  shows "sum_list (map f xs) \<le> sum_list (map g xs)"
  using assms by (induction xs) (auto intro!: add_mono)

lemma foldl_add_sum_list:
  fixes f :: "'a \<Rightarrow> int"
  shows "foldl (\<lambda>acc x. acc + f x) a xs = a + sum_list (map f xs)"
  by (induction xs arbitrary: a) simp_all

text \<open>Stable sorting keeps the elements and is the identity on the set of elements.\<close>

lemma set_sort_key [simp]: "set (sort_key f xs) = set xs"
  by (rule set_sort)

lemma distinct_map_filter: "distinct (map f xs) \<Longrightarrow> distinct (map f (filter P xs))"
  by (induction xs) auto

lemma distinct_map_take: "distinct (map f xs) \<Longrightarrow> distinct (map f (take n xs))"
  using distinct_take [of "map f xs" n] by (simp add: take_map)

lemma distinct_map_sort_key: "distinct (map f xs) \<Longrightarrow> distinct (map f (sort_key g xs))"
proof -
  assume "distinct (map f xs)"
  then have "distinct xs" and "inj_on f (set xs)" by (simp_all add: distinct_map)
  then show ?thesis by (simp add: distinct_map)
qed

lemma find_Some_mem: "find P xs = Some x \<Longrightarrow> x \<in> set xs \<and> P x"
  by (induction xs) (auto split: if_splits)

lemma find_None_iff_none: "find P xs = None \<longleftrightarrow> (\<forall>x \<in> set xs. \<not> P x)"
  by (induction xs) auto

lemma find_append: "find P (xs @ ys) = (case find P xs of None \<Rightarrow> find P ys | Some x \<Rightarrow> Some x)"
  by (induction xs) auto

text \<open>Python's \<open>xs[-n:]\<close> for a positive \<open>n\<close>: the last \<open>n\<close> elements, all of them if fewer.\<close>

definition last_n :: "nat \<Rightarrow> 'a list \<Rightarrow> 'a list" where
  "last_n n xs = drop (length xs - n) xs"

lemma length_last_n [simp]: "length (last_n n xs) = min n (length xs)"
  by (simp add: last_n_def)

lemma set_last_n: "set (last_n n xs) \<subseteq> set xs"
  by (simp add: last_n_def set_drop_subset)

text \<open>Python's \<open>", ".join(xs)\<close>.\<close>

fun join :: "string \<Rightarrow> string list \<Rightarrow> string" where
  "join sep [] = []"
| "join sep [x] = x"
| "join sep (x # y # xs) = x @ sep @ join sep (y # xs)"

section \<open>Decimal numerals\<close>

text \<open>
  The digits of a natural number in base ten, as Python's \<open>str(n)\<close> writes them, and the
  inverse reading.
\<close>

definition digit_char :: "nat \<Rightarrow> char" where
  "digit_char d = char_of (48 + d)"

definition is_digit :: "char \<Rightarrow> bool" where
  "is_digit c = (48 \<le> (of_char c :: nat) \<and> (of_char c :: nat) \<le> 57)"

definition digit_value :: "char \<Rightarrow> nat" where
  "digit_value c = (of_char c :: nat) - 48"

fun show_nat :: "nat \<Rightarrow> string" where
  "show_nat n = (if n < 10 then [digit_char n] else show_nat (n div 10) @ [digit_char (n mod 10)])"

declare show_nat.simps [simp del]

definition show_int :: "int \<Rightarrow> string" where
  "show_int i = (if i < 0 then ''-'' @ show_nat (nat (- i)) else show_nat (nat i))"

definition read_nat :: "string \<Rightarrow> nat" where
  "read_nat cs = foldl (\<lambda>acc c. 10 * acc + digit_value c) 0 cs"

lemma of_char_digit_char [simp]: "d < 10 \<Longrightarrow> (of_char (digit_char d) :: nat) = 48 + d"
  by (simp add: digit_char_def)

lemma is_digit_digit_char [simp]: "d < 10 \<Longrightarrow> is_digit (digit_char d)"
  by (simp add: is_digit_def)

lemma digit_value_digit_char [simp]: "d < 10 \<Longrightarrow> digit_value (digit_char d) = d"
  by (simp add: digit_value_def)

lemma show_nat_nonempty [simp]: "show_nat n \<noteq> []"
  by (subst show_nat.simps) simp

lemma show_nat_digits: "c \<in> set (show_nat n) \<Longrightarrow> is_digit c"
proof (induction n rule: show_nat.induct)
  case (1 n)
  then show ?case
    by (subst (asm) show_nat.simps) (auto split: if_splits)
qed

lemma read_nat_append:
  "read_nat (xs @ ys) = foldl (\<lambda>acc c. 10 * acc + digit_value c) (read_nat xs) ys"
  by (simp add: read_nat_def)

lemma read_show_nat [simp]: "read_nat (show_nat n) = n"
proof (induction n rule: show_nat.induct)
  case (1 n)
  show ?case
  proof (cases "n < 10")
    case True
    then show ?thesis by (subst show_nat.simps) (simp add: read_nat_def)
  next
    case False
    with 1 have "read_nat (show_nat (n div 10)) = n div 10" by simp
    with False show ?thesis by (subst show_nat.simps) (simp add: read_nat_append)
  qed
qed

text \<open>Leading zeros do not change what is read, and trailing zeros multiply by ten.\<close>

lemma read_nat_zeros [simp]: "read_nat (replicate k (digit_char 0) @ xs) = read_nat xs"
proof (induction k)
  case (Suc k)
  then show ?case by (simp add: read_nat_def)
qed simp

lemma foldl_read_scale:
  "foldl (\<lambda>acc c. 10 * acc + digit_value c) a xs
     = a * 10 ^ length xs + foldl (\<lambda>acc c. 10 * acc + digit_value c) 0 xs"
proof (induction xs arbitrary: a)
  case (Cons x xs)
  show ?case
    using Cons.IH [of "10 * a + digit_value x"] Cons.IH [of "digit_value x"]
    by (simp add: algebra_simps)
qed simp

lemma read_nat_append_scale: "read_nat (xs @ ys) = read_nat xs * 10 ^ length ys + read_nat ys"
  by (simp add: read_nat_append foldl_read_scale [of "read_nat xs" ys])
    (simp add: read_nat_def)

lemma read_nat_replicate_zero [simp]: "read_nat (replicate k (digit_char 0)) = 0"
  using read_nat_zeros [of k "[]"] by (simp add: read_nat_def)

end
