(* ===== verification/Decimal_Model.thy ===== *)
theory Decimal_Model
  imports Complex_Main Prelude
begin

text \<open>
  Python's \<open>decimal.Decimal\<close> in its default context, as far as the program uses it: finite
  numbers made of a sign, a coefficient and an exponent; addition, subtraction, multiplication
  and division that round to 28 significant digits with ROUND_HALF_EVEN; \<open>quantize\<close>;
  exact comparison; rounding down to an integer. The exponent limits of the context
  (plus or minus 999999) are not modelled.
\<close>

section \<open>Rounding half to even\<close>

text \<open>The specification over the rationals: the nearest integer, the even one on a tie.\<close>

definition rhe :: "rat \<Rightarrow> int" where
  "rhe x = (let q = \<lfloor>x\<rfloor>; f = x - of_int q in
     if 1 / 2 < f \<or> (f = 1 / 2 \<and> odd q) then q + 1 else q)"

lemma rhe_of_int [simp]: "rhe (of_int k) = k"
  by (simp add: rhe_def)

lemma rhe_zero [simp]: "rhe 0 = 0"
  using rhe_of_int [of 0] by simp

lemma rhe_error: "\<bar>x - of_int (rhe x)\<bar> \<le> 1 / 2"
proof -
  have "of_int \<lfloor>x\<rfloor> \<le> x" "x < of_int \<lfloor>x\<rfloor> + 1" by linarith+
  then show ?thesis by (auto simp: rhe_def Let_def abs_le_iff)
qed

lemma rhe_floor_or: "rhe x = \<lfloor>x\<rfloor> \<or> rhe x = \<lfloor>x\<rfloor> + 1"
  by (simp add: rhe_def Let_def)

lemma rhe_mono:
  assumes "x \<le> y" shows "rhe x \<le> rhe y"
proof (cases "\<lfloor>x\<rfloor> = \<lfloor>y\<rfloor>")
  case True
  with assms show ?thesis by (auto simp: rhe_def Let_def)
next
  case False
  have "\<lfloor>x\<rfloor> \<le> \<lfloor>y\<rfloor>" using assms by (rule floor_mono)
  with False have "\<lfloor>x\<rfloor> + 1 \<le> \<lfloor>y\<rfloor>" by simp
  then show ?thesis using rhe_floor_or [of x] rhe_floor_or [of y] by auto
qed

lemma rhe_minus: "rhe (- x) = - rhe x"
proof (cases "x = of_int \<lfloor>x\<rfloor>")
  case True
  then obtain k where "x = of_int k" by blast
  then show ?thesis using rhe_of_int [of "- k"] by simp
next
  case False
  have "\<lfloor>- x\<rfloor> = - \<lfloor>x\<rfloor> - 1"
  proof (rule floor_unique)
    show "of_int (- \<lfloor>x\<rfloor> - 1) \<le> - x" by simp linarith
    have "of_int \<lfloor>x\<rfloor> < x" using False of_int_floor_le [of x] by linarith
    then show "- x < of_int (- \<lfloor>x\<rfloor> - 1) + 1" by simp
  qed
  then show ?thesis by (auto simp: rhe_def Let_def)
qed

lemma rhe_between: "of_int l \<le> x \<Longrightarrow> x \<le> of_int u \<Longrightarrow> l \<le> rhe x \<and> rhe x \<le> u"
  using rhe_mono [of "of_int l" x] rhe_mono [of x "of_int u"] by simp

text \<open>The same rounding on a quotient of natural numbers, as the code's digits carry it.\<close>

definition rdiv_he :: "nat \<Rightarrow> nat \<Rightarrow> nat" where
  "rdiv_he n d = (let q = n div d; r = n mod d in
     if d < 2 * r \<or> (2 * r = d \<and> odd q) then Suc q else q)"

lemma rdiv_he_rhe:
  assumes "0 < d"
  shows "int (rdiv_he n d) = rhe (of_nat n / of_nat d)"
proof -
  have fl: "\<lfloor>of_nat n / of_nat d :: rat\<rfloor> = int (n div d)"
    using floor_divide_of_nat_eq [of n d] by simp
  have fr: "of_nat n / of_nat d - of_int (int (n div d)) = (of_nat (n mod d) / of_nat d :: rat)"
  proof -
    have "(of_nat n :: rat) = of_nat (n div d) * of_nat d + of_nat (n mod d)"
      by (metis div_mult_mod_eq of_nat_add of_nat_mult)
    with assms show ?thesis by (simp add: field_simps)
  qed
  have d: "(0 :: rat) < of_nat d" using assms by simp
  have "(1 / 2 < (of_nat (n mod d) / of_nat d :: rat)) = ((of_nat d :: rat) < of_nat (2 * (n mod d)))"
    using d by (simp add: pos_less_divide_eq mult.commute)
  also have "\<dots> = (d < 2 * (n mod d))" by (rule of_nat_less_iff)
  finally have lt: "(1 / 2 < (of_nat (n mod d) / of_nat d :: rat)) = (d < 2 * (n mod d))" .
  have "((of_nat (n mod d) / of_nat d :: rat) = 1 / 2) = ((of_nat (2 * (n mod d)) :: rat) = of_nat d)"
    using d by (auto simp add: divide_eq_eq eq_divide_eq)
  also have "\<dots> = (2 * (n mod d) = d)" by (rule of_nat_eq_iff)
  finally have eq: "((of_nat (n mod d) / of_nat d :: rat) = 1 / 2) = (2 * (n mod d) = d)" .
  show ?thesis
    unfolding rdiv_he_def rhe_def Let_def fl fr lt eq by simp
qed

section \<open>Finite decimals\<close>

datatype decimal = Dec (dneg: bool) (dcoef: nat) (dexp: int)

definition dec_of_int :: "int \<Rightarrow> decimal" where
  "dec_of_int i = Dec (i < 0) (nat \<bar>i\<bar>) 0"

text \<open>The signed coefficient, and the rational number a decimal stands for.\<close>

definition dsint :: "decimal \<Rightarrow> int" where
  "dsint d = (if dneg d then - int (dcoef d) else int (dcoef d))"

definition dval :: "decimal \<Rightarrow> rat" where
  "dval d = of_int (dsint d) * 10 powi dexp d"

text \<open>The signed coefficient of \<open>d\<close> over the exponent \<open>t\<close>, for \<open>t\<close> at most its own exponent.\<close>

definition dscale :: "int \<Rightarrow> decimal \<Rightarrow> int" where
  "dscale t d = dsint d * 10 ^ nat (dexp d - t)"

lemma powi_split: "t \<le> e \<Longrightarrow> (10 :: rat) powi e = 10 ^ nat (e - t) * 10 powi t"
proof -
  assume "t \<le> e"
  then have "(10 :: rat) powi (e - t) = 10 ^ nat (e - t)"
    by (simp add: power_int_def)
  moreover have "(10 :: rat) powi e = 10 powi (e - t) * 10 powi t"
    by (subst power_int_add [symmetric]) simp_all
  ultimately show ?thesis by simp
qed

lemma dval_dscale: "t \<le> dexp d \<Longrightarrow> dval d = of_int (dscale t d) * 10 powi t"
  by (simp add: dval_def dscale_def powi_split [of t "dexp d"])

lemma powi10_pos [simp]: "(0 :: rat) < 10 powi t"
  by (simp add: zero_less_power_int)

lemma powi10_not_le [simp]: "\<not> (10 :: rat) powi t \<le> 0" "\<not> (10 :: rat) powi t < 0"
  using powi10_pos [of t] by linarith+

lemma dval_Dec_pos: "dval (Dec False c e) = of_nat c * 10 powi e"
  by (simp add: dval_def dsint_def)

lemma dval_of_int [simp]: "dval (dec_of_int i) = of_int i"
  by (simp add: dval_def dsint_def dec_of_int_def)

lemma dval_zero_coef: "dval d = 0 \<longleftrightarrow> dcoef d = 0"
  by (auto simp: dval_def dsint_def)

section \<open>Exact comparison\<close>

definition dle :: "decimal \<Rightarrow> decimal \<Rightarrow> bool" where
  "dle a b = (let t = min (dexp a) (dexp b) in dscale t a \<le> dscale t b)"

definition dlt :: "decimal \<Rightarrow> decimal \<Rightarrow> bool" where
  "dlt a b = (let t = min (dexp a) (dexp b) in dscale t a < dscale t b)"

definition deq :: "decimal \<Rightarrow> decimal \<Rightarrow> bool" where
  "deq a b = (let t = min (dexp a) (dexp b) in dscale t a = dscale t b)"

lemma dle_dval: "dle a b \<longleftrightarrow> dval a \<le> dval b"
proof -
  let ?t = "min (dexp a) (dexp b)"
  have "dval a = of_int (dscale ?t a) * 10 powi ?t" "dval b = of_int (dscale ?t b) * 10 powi ?t"
    by (rule dval_dscale, simp)+
  then show ?thesis by (simp add: dle_def Let_def)
qed

lemma dlt_dval: "dlt a b \<longleftrightarrow> dval a < dval b"
proof -
  let ?t = "min (dexp a) (dexp b)"
  have "dval a = of_int (dscale ?t a) * 10 powi ?t" "dval b = of_int (dscale ?t b) * 10 powi ?t"
    by (rule dval_dscale, simp)+
  then show ?thesis by (simp add: dlt_def Let_def)
qed

lemma deq_dval: "deq a b \<longleftrightarrow> dval a = dval b"
proof -
  let ?t = "min (dexp a) (dexp b)"
  have "dval a = of_int (dscale ?t a) * 10 powi ?t" "dval b = of_int (dscale ?t b) * 10 powi ?t"
    by (rule dval_dscale, simp)+
  then show ?thesis by (simp add: deq_def Let_def)
qed

text \<open>Python's \<open>min\<close> and \<open>max\<close> keep the first argument on a tie.\<close>

definition dmin :: "decimal \<Rightarrow> decimal \<Rightarrow> decimal" where
  "dmin a b = (if dlt b a then b else a)"

definition dmax :: "decimal \<Rightarrow> decimal \<Rightarrow> decimal" where
  "dmax a b = (if dlt a b then b else a)"

lemma dval_dmin [simp]: "dval (dmin a b) = min (dval a) (dval b)"
  by (auto simp: dmin_def dlt_dval)

lemma dval_dmax [simp]: "dval (dmax a b) = max (dval a) (dval b)"
  by (auto simp: dmax_def dlt_dval)

section \<open>The context: 28 significant digits\<close>

fun ndigits :: "nat \<Rightarrow> nat" where
  "ndigits n = (if n < 10 then 1 else Suc (ndigits (n div 10)))"

declare ndigits.simps [simp del]

lemma ndigits_pos [simp]: "0 < ndigits n"
  by (subst ndigits.simps) simp

lemma ndigits_upper: "n < 10 ^ ndigits n"
proof (induction n rule: ndigits.induct)
  case (1 n)
  show ?case
  proof (cases "n < 10")
    case True
    then show ?thesis by (subst ndigits.simps) simp
  next
    case False
    with 1 have "n div 10 < 10 ^ ndigits (n div 10)" by simp
    then have "n < 10 * 10 ^ ndigits (n div 10)" by linarith
    with False show ?thesis by (subst ndigits.simps) simp
  qed
qed

lemma ndigits_lower: "0 < n \<Longrightarrow> 10 ^ (ndigits n - 1) \<le> n"
proof (induction n rule: ndigits.induct)
  case (1 n)
  show ?case
  proof (cases "n < 10")
    case True
    with 1 show ?thesis by (subst ndigits.simps) simp
  next
    case False
    with 1 have "10 ^ (ndigits (n div 10) - 1) \<le> n div 10" by simp
    then have "10 * 10 ^ (ndigits (n div 10) - 1) \<le> n" by linarith
    moreover have "10 * 10 ^ (ndigits (n div 10) - 1) = (10 :: nat) ^ ndigits (n div 10)"
      using ndigits_pos [of "n div 10"] by (cases "ndigits (n div 10)") simp_all
    ultimately have "10 ^ ndigits (n div 10) \<le> n" by linarith
    with False show ?thesis by (subst ndigits.simps) simp
  qed
qed

lemma ndigits_le: "n < 10 ^ k \<Longrightarrow> 0 < k \<Longrightarrow> ndigits n \<le> k"
proof (cases "n = 0")
  case True
  then show "0 < k \<Longrightarrow> ndigits n \<le> k" by (subst ndigits.simps) simp
next
  case False
  assume "n < 10 ^ k" "0 < k"
  with False have "(10 :: nat) ^ (ndigits n - 1) < 10 ^ k"
    using ndigits_lower [of n] by linarith
  then have "ndigits n - 1 < k" by simp
  then show ?thesis by simp
qed

text \<open>The context rounds a result to 28 digits; a carry into a 29th digit drops the last zero.\<close>

definition dfix :: "decimal \<Rightarrow> decimal" where
  "dfix d = (if ndigits (dcoef d) \<le> 28 then d else
     let k = ndigits (dcoef d) - 28; c = rdiv_he (dcoef d) (10 ^ k) in
     if 28 < ndigits c then Dec (dneg d) (c div 10) (dexp d + int k + 1)
     else Dec (dneg d) c (dexp d + int k))"

lemma dfix_small [simp]: "dcoef d < 10 ^ 28 \<Longrightarrow> dfix d = d"
  using ndigits_le [of "dcoef d" 28] by (simp add: dfix_def)

section \<open>Arithmetic\<close>

definition dadd :: "decimal \<Rightarrow> decimal \<Rightarrow> decimal" where
  "dadd a b = (let t = min (dexp a) (dexp b); s = dscale t a + dscale t b in
     dfix (Dec (if s = 0 then dneg a \<and> dneg b else s < 0) (nat \<bar>s\<bar>) t))"

definition dcopy_negate :: "decimal \<Rightarrow> decimal" where
  "dcopy_negate d = Dec (\<not> dneg d) (dcoef d) (dexp d)"

definition dsub :: "decimal \<Rightarrow> decimal \<Rightarrow> decimal" where
  "dsub a b = dadd a (dcopy_negate b)"

text \<open>Unary minus: a zero comes out positive.\<close>

definition dminus :: "decimal \<Rightarrow> decimal" where
  "dminus d = dfix (Dec (dcoef d \<noteq> 0 \<and> \<not> dneg d) (dcoef d) (dexp d))"

definition dmul :: "decimal \<Rightarrow> decimal \<Rightarrow> decimal" where
  "dmul a b = dfix (Dec (dneg a \<noteq> dneg b) (dcoef a * dcoef b) (dexp a + dexp b))"

text \<open>
  Division scales the dividend until the integer quotient has more than 28 digits, makes the
  last digit sticky when a remainder is left, or strips the zeros beyond the ideal exponent
  when none is, and rounds. A zero divisor raises, which is \<open>None\<close> here.
\<close>

fun strip_zeros :: "nat \<Rightarrow> nat \<Rightarrow> int \<Rightarrow> nat \<times> int" where
  "strip_zeros 0 c e = (c, e)"
| "strip_zeros (Suc k) c e = (if c mod 10 = 0 then strip_zeros k (c div 10) (e + 1) else (c, e))"

lemma strip_zeros_numeral:
  "strip_zeros (numeral k) c e =
     (if c mod 10 = 0 then strip_zeros (pred_numeral k) (c div 10) (e + 1) else (c, e))"
  by (simp only: numeral_eq_Suc [of k] strip_zeros.simps)

definition dquot :: "decimal \<Rightarrow> decimal \<Rightarrow> decimal" where
  "dquot a b = (let s = (dneg a \<noteq> dneg b); ideal = dexp a - dexp b in
     if dcoef a = 0 then Dec s 0 ideal else
     let shift = int (ndigits (dcoef b)) - int (ndigits (dcoef a)) + 29;
         num = (if 0 \<le> shift then dcoef a * 10 ^ nat shift else dcoef a);
         den = (if 0 \<le> shift then dcoef b else dcoef b * 10 ^ nat (- shift));
         q = num div den; e = ideal - shift in
     if num mod den \<noteq> 0 then dfix (Dec s (if q mod 5 = 0 then Suc q else q) e)
     else (case strip_zeros (nat shift) q e of (c, e') \<Rightarrow> dfix (Dec s c e')))"

definition ddiv :: "decimal \<Rightarrow> decimal \<Rightarrow> decimal option" where
  "ddiv a b = (if dcoef b = 0 then None else Some (dquot a b))"

text \<open>\<open>int(x.to_integral_value(rounding=ROUND_FLOOR))\<close>.\<close>

definition dfloor :: "decimal \<Rightarrow> int" where
  "dfloor d = (if 0 \<le> dexp d then dsint d * 10 ^ nat (dexp d)
     else dsint d div 10 ^ nat (- dexp d))"

text \<open>\<open>int(a // b)\<close>: the integer quotient truncated towards zero.\<close>

definition dfloordiv :: "decimal \<Rightarrow> decimal \<Rightarrow> int" where
  "dfloordiv a b = (let t = min (dexp a) (dexp b);
       q = int (nat \<bar>dscale t a\<bar> div nat \<bar>dscale t b\<bar>) in
     if dneg a \<noteq> dneg b then - q else q)"

text \<open>The signed coefficient of \<open>d.quantize(Decimal((0, (1,), t)), ROUND_HALF_EVEN)\<close>.\<close>

definition dquantize_coef :: "int \<Rightarrow> decimal \<Rightarrow> nat" where
  "dquantize_coef t d = (if t \<le> dexp d then dcoef d * 10 ^ nat (dexp d - t)
     else rdiv_he (dcoef d) (10 ^ nat (t - dexp d)))"

definition dquantize :: "int \<Rightarrow> decimal \<Rightarrow> decimal" where
  "dquantize t d = Dec (dneg d) (dquantize_coef t d) t"

text \<open>\<open>quantize\<close> raises InvalidOperation when its result needs more than 28 digits.\<close>

definition dquantize_raises :: "int \<Rightarrow> decimal \<Rightarrow> bool" where
  "dquantize_raises t d = (28 < ndigits (dquantize_coef t d))"

end
