(* ===== verification/Decimal_Laws.thy ===== *)
theory Decimal_Laws
  imports Decimal_Model
begin

text \<open>
  What the decimal operations compute, stated over the rational value of a decimal: exactness
  within 28 digits, the error of a rounding, monotonicity, and the bounds of a quotient.
\<close>

section \<open>Values\<close>

lemma dval_neg_flip: "dval (Dec True c e) = - dval (Dec False c e)"
  by (simp add: dval_def dsint_def)

lemma dval_abs: "\<bar>dval (Dec s c e)\<bar> = of_nat c * 10 powi e"
  by (simp add: dval_def dsint_def abs_mult)

lemma dval_nonneg_iff: "0 \<le> dval d \<longleftrightarrow> \<not> dneg d \<or> dcoef d = 0"
  by (cases d) (auto simp: dval_def dsint_def mult_le_0_iff zero_le_mult_iff not_le)

lemma dval_pos_iff: "0 < dval d \<longleftrightarrow> \<not> dneg d \<and> 0 < dcoef d"
  by (cases d) (auto simp: dval_def dsint_def zero_less_mult_iff mult_less_0_iff)

lemma powi10_add: "(10 :: rat) powi (a + b) = 10 powi a * 10 powi b"
  by (rule power_int_add) simp

lemma powi10_diff: "(10 :: rat) powi (a - b) = 10 powi a / 10 powi b"
  by (rule power_int_diff) simp

lemma powi10_nat: "(10 :: rat) powi int n = 10 ^ n"
  by simp

section \<open>Quantizing\<close>

lemma dquantize_coef_rhe:
  "int (dquantize_coef t d) = rhe (of_nat (dcoef d) * 10 powi dexp d / 10 powi t)"
proof (cases "t \<le> dexp d")
  case True
  then have "(of_nat (dcoef d) * 10 powi dexp d / 10 powi t :: rat)
      = of_int (int (dcoef d * 10 ^ nat (dexp d - t)))"
    by (simp add: powi_split [of t "dexp d"])
  then show ?thesis using True by (simp only: rhe_of_int) (simp add: dquantize_coef_def)
next
  case False
  then have "(10 :: rat) powi t = 10 ^ nat (t - dexp d) * 10 powi dexp d"
    by (simp add: powi_split [of "dexp d" t])
  then have "(of_nat (dcoef d) * 10 powi dexp d / 10 powi t :: rat)
      = of_nat (dcoef d) / of_nat (10 ^ nat (t - dexp d))"
    by simp
  then show ?thesis using False by (simp add: dquantize_coef_def rdiv_he_rhe)
qed

lemma dsint_dquantize: "dsint (dquantize t d) = rhe (dval d / 10 powi t)"
proof (cases "dneg d")
  case True
  then have "dval d / 10 powi t = - (of_nat (dcoef d) * 10 powi dexp d / 10 powi t)"
    by (simp add: dval_def dsint_def)
  then show ?thesis using True
    by (simp add: dsint_def dquantize_def dquantize_coef_rhe rhe_minus)
next
  case False
  then show ?thesis
    by (simp add: dsint_def dval_def dquantize_def dquantize_coef_rhe)
qed

lemma dval_dquantize: "dval (dquantize t d) = of_int (rhe (dval d / 10 powi t)) * 10 powi t"
proof -
  have "dval (dquantize t d) = of_int (dsint (dquantize t d)) * 10 powi t"
    by (simp add: dval_def dquantize_def)
  then show ?thesis by (simp add: dsint_dquantize)
qed

lemma dquantize_error: "\<bar>dval (dquantize t d) - dval d\<bar> \<le> 10 powi t / 2"
proof -
  have p: "(0 :: rat) < 10 powi t" by simp
  have "\<bar>dval d / 10 powi t - of_int (rhe (dval d / 10 powi t))\<bar> * 10 powi t \<le> 1 / 2 * 10 powi t"
    using rhe_error by (rule mult_right_mono) simp
  moreover have "\<bar>dval d / 10 powi t - of_int (rhe (dval d / 10 powi t))\<bar> * 10 powi t
      = \<bar>dval d - of_int (rhe (dval d / 10 powi t)) * 10 powi t\<bar>"
  proof -
    have "(dval d / 10 powi t - of_int (rhe (dval d / 10 powi t))) * 10 powi t
        = dval d - of_int (rhe (dval d / 10 powi t)) * 10 powi t"
      using p by (simp add: left_diff_distrib)
    then show ?thesis using p by (metis abs_mult abs_of_pos)
  qed
  ultimately show ?thesis by (simp add: dval_dquantize abs_minus_commute)
qed

section \<open>The context's rounding\<close>

text \<open>The exponent of the last digit kept by the context.\<close>

definition dfix_exp :: "decimal \<Rightarrow> int" where
  "dfix_exp d = dexp d + int (ndigits (dcoef d) - 28)"

lemma dval_dfix: "dval (dfix d) = of_int (rhe (dval d / 10 powi dfix_exp d)) * 10 powi dfix_exp d"
proof (cases "ndigits (dcoef d) \<le> 28")
  case True
  then have "dfix_exp d = dexp d" "dfix d = d" by (simp_all add: dfix_exp_def dfix_def)
  moreover have "dval d / 10 powi dexp d = of_int (dsint d)" by (simp add: dval_def)
  ultimately show ?thesis by (simp only: rhe_of_int) (simp add: dval_def)
next
  case False
  let ?k = "ndigits (dcoef d) - 28"
  let ?c = "rdiv_he (dcoef d) (10 ^ ?k)"
  have e: "dfix_exp d = dexp d + int ?k" by (simp add: dfix_exp_def)
  have "nat (dfix_exp d - dexp d) = ?k" "\<not> dfix_exp d \<le> dexp d"
    using False by (simp_all add: dfix_exp_def)
  then have q: "dquantize_coef (dfix_exp d) d = ?c"
    by (simp only: dquantize_coef_def if_False)
  have carry: "?c mod 10 = 0" if "28 < ndigits ?c"
  proof -
    have "dcoef d < 10 ^ (?k + 28)" using ndigits_upper [of "dcoef d"] False by simp
    then have "of_nat (dcoef d) / of_nat (10 ^ ?k) \<le> (of_int (10 ^ 28) :: rat)"
      by (simp add: pos_divide_le_eq power_add mult.commute)
        (metis (mono_tags) less_imp_le of_nat_less_iff of_nat_mult of_nat_numeral of_nat_power)
    then have "rhe (of_nat (dcoef d) / of_nat (10 ^ ?k)) \<le> rhe (of_int (10 ^ 28))"
      by (rule rhe_mono)
    then have "rhe (of_nat (dcoef d) / of_nat (10 ^ ?k)) \<le> 10 ^ 28"
      by (simp only: rhe_of_int)
    then have "int ?c \<le> 10 ^ 28" by (simp add: rdiv_he_rhe)
    then have "?c \<le> 10 ^ 28" by simp
    moreover have "\<not> ?c < 10 ^ 28" using that ndigits_le [of ?c 28] by auto
    ultimately have "?c = 10 ^ 28" by (simp only: not_less le_antisym)
    then show ?thesis by simp
  qed
  have "dval (dfix d) = dval (Dec (dneg d) ?c (dfix_exp d))"
  proof (cases "28 < ndigits ?c")
    case True
    then have "?c = ?c div 10 * 10" using carry by auto
    then have "(of_nat ?c :: rat) = of_nat (?c div 10) * 10"
      by (metis of_nat_mult of_nat_numeral)
    then have "dval (Dec (dneg d) ?c (dfix_exp d))
        = dval (Dec (dneg d) (?c div 10) (dfix_exp d + 1))"
      by (simp add: dval_def dsint_def powi10_add)
    then show ?thesis using False True by (simp add: dfix_def Let_def e)
  next
    case small: False
    then show ?thesis using False by (simp add: dfix_def Let_def e)
  qed
  also have "\<dots> = dval (dquantize (dfix_exp d) d)" by (simp add: dquantize_def q)
  finally show ?thesis by (simp add: dval_dquantize)
qed

lemma dval_dfix_exact: "dcoef d < 10 ^ 28 \<Longrightarrow> dval (dfix d) = dval d"
  by simp

section \<open>Exact arithmetic within 28 digits\<close>

lemma dval_dadd:
  assumes "\<bar>dscale (min (dexp a) (dexp b)) a + dscale (min (dexp a) (dexp b)) b\<bar> < 10 ^ 28"
  shows "dval (dadd a b) = dval a + dval b"
proof -
  let ?t = "min (dexp a) (dexp b)"
  let ?s = "dscale ?t a + dscale ?t b"
  let ?r = "Dec (if ?s = 0 then dneg a \<and> dneg b else ?s < 0) (nat \<bar>?s\<bar>) ?t"
  have "dadd a b = dfix ?r" by (simp add: dadd_def Let_def)
  moreover have "dcoef ?r < 10 ^ 28" using assms by (simp add: nat_less_iff)
  ultimately have "dval (dadd a b) = dval ?r" by simp
  also have "\<dots> = of_int ?s * 10 powi ?t" by (auto simp: dval_def dsint_def)
  also have "\<dots> = dval a + dval b"
    by (simp add: dval_dscale [of ?t a] dval_dscale [of ?t b] distrib_right)
  finally show ?thesis .
qed

lemma dval_dcopy_negate [simp]: "dval (dcopy_negate d) = - dval d"
  by (simp add: dval_def dsint_def dcopy_negate_def)

lemma dscale_dcopy_negate [simp]: "dscale t (dcopy_negate d) = - dscale t d"
  by (simp add: dscale_def dsint_def dcopy_negate_def)

lemma dexp_dcopy_negate [simp]: "dexp (dcopy_negate d) = dexp d"
  by (simp add: dcopy_negate_def)

lemma dval_dsub:
  assumes "\<bar>dscale (min (dexp a) (dexp b)) a - dscale (min (dexp a) (dexp b)) b\<bar> < 10 ^ 28"
  shows "dval (dsub a b) = dval a - dval b"
  using assms dval_dadd [of a "dcopy_negate b"] by (simp add: dsub_def)

lemma dval_raw_product:
  "dval (Dec (dneg a \<noteq> dneg b) (dcoef a * dcoef b) (dexp a + dexp b)) = dval a * dval b"
  by (auto simp: dval_def dsint_def powi10_add)

lemma dval_dmul_dfix:
  "dval (dmul a b) = dval (dfix (Dec (dneg a \<noteq> dneg b) (dcoef a * dcoef b) (dexp a + dexp b)))"
  by (simp add: dmul_def)

lemma dval_dmul:
  assumes "dcoef a * dcoef b < 10 ^ 28"
  shows "dval (dmul a b) = dval a * dval b"
  using assms by (simp add: dmul_def) (simp add: dval_def dsint_def powi10_add)

lemma dval_dminus [simp]: "dcoef d < 10 ^ 28 \<Longrightarrow> dval (dminus d) = - dval d"
  by (cases "dcoef d = 0") (simp_all add: dminus_def dval_def dsint_def)

section \<open>Rounding to integers\<close>

lemma dfloor_floor: "dfloor d = \<lfloor>dval d\<rfloor>"
proof (cases "0 \<le> dexp d")
  case True
  then have "dval d = of_int (dsint d * 10 ^ nat (dexp d))"
    by (simp add: dval_def power_int_def)
  then show ?thesis using True by (simp only: floor_of_int) (simp add: dfloor_def)
next
  case False
  then have "(10 :: rat) powi dexp d = inverse 10 ^ nat (- dexp d)"
    by (simp only: power_int_def if_False)
  then have "dval d = of_int (dsint d) / of_int (10 ^ nat (- dexp d))"
    by (simp only: dval_def power_inverse divide_inverse of_int_power of_int_numeral)
  then show ?thesis using False floor_divide_of_int_eq [where ?'a = rat, of "dsint d" "10 ^ nat (- dexp d)"]
    by (simp add: dfloor_def)
qed

lemma dfloordiv_floor:
  assumes "0 \<le> dval a" "0 < dval b"
  shows "dfloordiv a b = \<lfloor>dval a / dval b\<rfloor>"
proof -
  let ?t = "min (dexp a) (dexp b)"
  have va: "dval a = of_int (dscale ?t a) * 10 powi ?t"
    and vb: "dval b = of_int (dscale ?t b) * 10 powi ?t" by (rule dval_dscale, simp)+
  have na: "0 \<le> dscale ?t a" using assms(1) va by (simp add: zero_le_mult_iff not_le)
  have nb: "0 < dscale ?t b" using assms(2) vb by (simp add: zero_less_mult_iff)
  have "\<lfloor>dval a / dval b\<rfloor> = \<lfloor>of_int (dscale ?t a) / of_int (dscale ?t b) :: rat\<rfloor>"
    unfolding va vb by simp
  also have "\<dots> = dscale ?t a div dscale ?t b" by (rule floor_divide_of_int_eq)
  finally have fl: "\<lfloor>dval a / dval b\<rfloor> = dscale ?t a div dscale ?t b" .
  have q: "int (nat \<bar>dscale ?t a\<bar> div nat \<bar>dscale ?t b\<bar>) = dscale ?t a div dscale ?t b"
    using na nb by (simp add: zdiv_int)
  show ?thesis
  proof (cases "dneg a = dneg b")
    case True
    then show ?thesis using fl q by (simp add: dfloordiv_def Let_def)
  next
    case False
    then have "dcoef a = 0" using assms dval_nonneg_iff [of a] dval_pos_iff [of b] by auto
    then have "dscale ?t a = 0" by (simp add: dscale_def dsint_def)
    then show ?thesis using fl by (simp add: dfloordiv_def Let_def)
  qed
qed

section \<open>Bounds of a rounded result\<close>

lemma dfix_large:
  assumes "28 < ndigits (dcoef d)" "\<not> dneg d"
  shows "10 ^ 27 * 10 powi dfix_exp d \<le> dval d"
proof -
  have pos: "0 < dcoef d"
    using assms(1) by (cases "dcoef d = 0") (auto simp: ndigits.simps [of 0])
  have "(10 :: nat) ^ (ndigits (dcoef d) - 1) \<le> dcoef d"
    using pos by (rule ndigits_lower)
  then have "(of_nat (10 ^ (ndigits (dcoef d) - 1)) :: rat) \<le> of_nat (dcoef d)"
    by (simp only: of_nat_le_iff)
  moreover have "ndigits (dcoef d) - 1 = 27 + (ndigits (dcoef d) - 28)"
    using assms(1) by simp
  ultimately have "(10 :: rat) ^ 27 * 10 ^ (ndigits (dcoef d) - 28) \<le> of_nat (dcoef d)"
    by (simp only: power_add of_nat_power of_nat_mult of_nat_numeral)
  then have "10 ^ 27 * 10 ^ (ndigits (dcoef d) - 28) * 10 powi dexp d
      \<le> of_nat (dcoef d) * (10 :: rat) powi dexp d"
    by (rule mult_right_mono) simp
  moreover have "of_nat (dcoef d) * (10 :: rat) powi dexp d = dval d"
    using assms(2) by (simp add: dval_def dsint_def)
  moreover have "(10 :: rat) powi dfix_exp d = 10 ^ (ndigits (dcoef d) - 28) * 10 powi dexp d"
    by (simp only: dfix_exp_def powi10_add powi10_nat mult.commute)
  ultimately show ?thesis by (simp only: mult.assoc)
qed

lemma dfix_error:
  assumes "\<not> dneg d"
  shows "\<bar>dval (dfix d) - dval d\<bar> \<le> dval d / (2 * 10 ^ 27)"
proof (cases "ndigits (dcoef d) \<le> 28")
  case True
  then show ?thesis using assms dval_nonneg_iff [of d] by (simp add: dfix_def)
next
  case False
  let ?u = "(10 :: rat) powi dfix_exp d"
  have "\<bar>dval (dfix d) - dval d\<bar> \<le> ?u / 2"
    using dquantize_error [of "dfix_exp d" d] by (simp add: dval_dquantize dval_dfix)
  also have "\<dots> = 10 ^ 27 * ?u / (2 * 10 ^ 27)" by simp
  also have "\<dots> \<le> dval d / (2 * 10 ^ 27)"
    using dfix_large [of d] False assms by (intro divide_right_mono) auto
  finally show ?thesis .
qed

text \<open>An integer of at most 28 digits below a value stays below its rounding.\<close>

lemma dfix_ge_int:
  assumes "of_int n \<le> dval d" "n \<le> 10 ^ 27" "\<not> dneg d"
  shows "of_int n \<le> dval (dfix d)"
proof (cases "ndigits (dcoef d) \<le> 28")
  case True
  then show ?thesis using assms by (simp add: dfix_def)
next
  case False
  let ?u = "dfix_exp d"
  show ?thesis
  proof (cases "?u \<le> 0")
    case True
    then have n: "of_int n = of_int (n * 10 ^ nat (- ?u)) * (10 :: rat) powi ?u"
      using powi_split [of ?u 0] by simp
    then have "of_int (n * 10 ^ nat (- ?u)) \<le> dval d / 10 powi ?u"
      using assms(1) by (simp only: pos_le_divide_eq powi10_pos)
    then have "n * 10 ^ nat (- ?u) \<le> rhe (dval d / 10 powi ?u)"
      by (metis rhe_mono rhe_of_int)
    then have "(of_int (n * 10 ^ nat (- ?u)) :: rat) \<le> of_int (rhe (dval d / 10 powi ?u))"
      by (simp only: of_int_le_iff)
    then have "of_int (n * 10 ^ nat (- ?u)) * (10 :: rat) powi ?u
        \<le> of_int (rhe (dval d / 10 powi ?u)) * 10 powi ?u"
      by (rule mult_right_mono) simp
    then show ?thesis by (simp only: n dval_dfix)
  next
    case up: False
    have "10 ^ 27 * 10 powi ?u \<le> dval d" using dfix_large [of d] False assms(3) by simp
    then have "of_int (10 ^ 27) \<le> dval d / 10 powi ?u"
      by (simp add: pos_le_divide_eq)
    then have "10 ^ 27 \<le> rhe (dval d / 10 powi ?u)" by (metis rhe_mono rhe_of_int)
    then have "(10 ^ 27 :: rat) \<le> of_int (rhe (dval d / 10 powi ?u))"
      by (metis of_int_le_iff of_int_numeral of_int_power)
    moreover have "(1 :: rat) \<le> 10 powi ?u" using up by (simp add: power_int_def one_le_power)
    ultimately have "(10 ^ 27 :: rat) * 1 \<le> of_int (rhe (dval d / 10 powi ?u)) * 10 powi ?u"
      by (intro mult_mono) auto
    moreover have "(of_int n :: rat) \<le> 10 ^ 27"
      using assms(2) by (metis of_int_le_iff of_int_numeral of_int_power)
    ultimately show ?thesis by (simp only: dval_dfix mult_1_right order_trans)
  qed
qed

lemma strip_zeros_value:
  "strip_zeros k c e = (c', e') \<Longrightarrow> dval (Dec s c' e') = dval (Dec s c e)"
proof (induction k c e arbitrary: c' e' rule: strip_zeros.induct)
  case (2 k c e)
  show ?case
  proof (cases "c mod 10 = 0")
    case True
    with 2 have "dval (Dec s c' e') = dval (Dec s (c div 10) (e + 1))" by simp
    moreover from True have "c = c div 10 * 10" by auto
    then have "(of_nat c :: rat) = of_nat (c div 10) * 10"
      by (metis of_nat_mult of_nat_numeral)
    ultimately show ?thesis by (simp add: dval_def dsint_def powi10_add)
  next
    case False
    with 2 show ?thesis by simp
  qed
qed simp

section \<open>Quotients\<close>

text \<open>
  The integer quotient the division rounds: it has at least 29 digits, and it is the exact
  scaled quotient rounded down, except that a sticky digit may add one.
\<close>

definition quot_num :: "decimal \<Rightarrow> decimal \<Rightarrow> nat" where
  "quot_num a b = (let shift = int (ndigits (dcoef b)) - int (ndigits (dcoef a)) + 29 in
     if 0 \<le> shift then dcoef a * 10 ^ nat shift else dcoef a)"

definition quot_den :: "decimal \<Rightarrow> decimal \<Rightarrow> nat" where
  "quot_den a b = (let shift = int (ndigits (dcoef b)) - int (ndigits (dcoef a)) + 29 in
     if 0 \<le> shift then dcoef b else dcoef b * 10 ^ nat (- shift))"

definition quot_exp :: "decimal \<Rightarrow> decimal \<Rightarrow> int" where
  "quot_exp a b = dexp a - dexp b
     - (int (ndigits (dcoef b)) - int (ndigits (dcoef a)) + 29)"

definition quot_shift :: "decimal \<Rightarrow> decimal \<Rightarrow> nat" where
  "quot_shift a b = nat (int (ndigits (dcoef b)) - int (ndigits (dcoef a)) + 29)"

lemma dquot_parts:
  assumes "dcoef a \<noteq> 0"
  shows "dquot a b =
    (if quot_num a b mod quot_den a b \<noteq> 0
     then dfix (Dec (dneg a \<noteq> dneg b)
            (if quot_num a b div quot_den a b mod 5 = 0 then Suc (quot_num a b div quot_den a b)
             else quot_num a b div quot_den a b) (quot_exp a b))
     else (case strip_zeros (quot_shift a b) (quot_num a b div quot_den a b) (quot_exp a b) of
       (c, e') \<Rightarrow> dfix (Dec (dneg a \<noteq> dneg b) c e')))"
  using assms
  by (simp only: dquot_def quot_num_def quot_den_def quot_exp_def quot_shift_def Let_def if_False)

lemma quot_ratio:
  assumes "0 < dval a" "0 < dval b"
  shows "dval a / dval b = of_nat (quot_num a b) / of_nat (quot_den a b) * 10 powi quot_exp a b"
proof -
  let ?s = "int (ndigits (dcoef b)) - int (ndigits (dcoef a)) + 29"
  have ab: "dval a = of_nat (dcoef a) * 10 powi dexp a"
    "dval b = of_nat (dcoef b) * 10 powi dexp b"
    using assms dval_pos_iff [of a] dval_pos_iff [of b] by (simp_all add: dval_def dsint_def)
  have e: "(10 :: rat) powi quot_exp a b = 10 powi dexp a / 10 powi dexp b / 10 powi ?s"
    by (simp only: quot_exp_def powi10_diff)
  show ?thesis
  proof (cases "0 \<le> ?s")
    case True
    then have "(10 :: rat) powi ?s = 10 ^ nat ?s" by (simp only: power_int_def if_True)
    then have "of_nat (quot_num a b) / of_nat (quot_den a b)
        = of_nat (dcoef a) / of_nat (dcoef b) * (10 :: rat) powi ?s"
      using True by (simp add: quot_num_def quot_den_def)
    then show ?thesis unfolding ab e by simp
  next
    case False
    then have "(10 :: rat) powi ?s = inverse 10 ^ nat (- ?s)" by (simp only: power_int_def if_False)
    then have s: "(10 :: rat) powi ?s = 1 / 10 ^ nat (- ?s)"
      by (simp only: inverse_eq_divide power_one_over)
    have "quot_num a b = dcoef a" "quot_den a b = dcoef b * 10 ^ nat (- ?s)"
      using False by (simp_all only: quot_num_def quot_den_def Let_def if_False)
    then have "of_nat (quot_num a b) / of_nat (quot_den a b)
        = of_nat (dcoef a) / of_nat (dcoef b) * (10 :: rat) powi ?s"
      by (simp only: s of_nat_mult of_nat_power of_nat_numeral times_divide_eq_right
          mult_1_right divide_divide_eq_left)
    then show ?thesis unfolding ab e by simp
  qed
qed

lemma quot_den_pos: "0 < dcoef b \<Longrightarrow> 0 < quot_den a b"
  by (simp add: quot_den_def Let_def)

lemma quot_large:
  assumes "0 < dcoef a" "0 < dcoef b"
  shows "10 ^ 28 \<le> quot_num a b div quot_den a b"
proof -
  let ?la = "ndigits (dcoef a)" and ?lb = "ndigits (dcoef b)"
  let ?s = "int ?lb - int ?la + 29"
  have a: "10 ^ (?la - 1) \<le> dcoef a" using assms(1) by (rule ndigits_lower)
  have b: "dcoef b \<le> 10 ^ ?lb" using ndigits_upper [of "dcoef b"] by simp
  have "10 ^ 28 * quot_den a b \<le> quot_num a b"
  proof (cases "0 \<le> ?s")
    case True
    have "?la - 1 + nat ?s = 28 + ?lb" using True ndigits_pos [of "dcoef a"] by linarith
    then have eq: "(10 :: nat) ^ 28 * 10 ^ ?lb = 10 ^ (?la - 1) * 10 ^ nat ?s"
      by (simp only: power_add [symmetric])
    have "10 ^ 28 * dcoef b \<le> 10 ^ 28 * 10 ^ ?lb" using b by (rule mult_le_mono2)
    also have "\<dots> \<le> dcoef a * 10 ^ nat ?s" unfolding eq using a by (rule mult_le_mono1)
    finally show ?thesis using True by (simp add: quot_num_def quot_den_def)
  next
    case False
    have "?la - 1 = 28 + (?lb + nat (- ?s))" using False ndigits_pos [of "dcoef a"] by linarith
    then have eq: "(10 :: nat) ^ (?la - 1) = 10 ^ 28 * (10 ^ ?lb * 10 ^ nat (- ?s))"
      by (simp only: power_add)
    have "10 ^ 28 * (dcoef b * 10 ^ nat (- ?s)) \<le> 10 ^ 28 * (10 ^ ?lb * 10 ^ nat (- ?s))"
      using b by (intro mult_le_mono2 mult_le_mono1)
    also have "\<dots> \<le> dcoef a" using a by (simp only: eq)
    finally show ?thesis using False by (simp add: quot_num_def quot_den_def)
  qed
  then show ?thesis using quot_den_pos [OF assms(2), of a]
    by (simp add: less_eq_div_iff_mult_less_eq)
qed

lemma dquot_as_dfix:
  assumes "0 < dval a" "0 < dval b"
  obtains d where "dquot a b = dfix d" "\<not> dneg d"
    "of_nat (quot_num a b div quot_den a b) * 10 powi quot_exp a b \<le> dval d"
    "dval d \<le> dval a / dval b + 10 powi quot_exp a b"
proof -
  let ?N = "quot_num a b" and ?D = "quot_den a b" and ?e = "quot_exp a b"
  let ?q = "?N div ?D"
  let ?shift = "int (ndigits (dcoef b)) - int (ndigits (dcoef a)) + 29"
  have pos: "\<not> dneg a" "\<not> dneg b" "0 < dcoef a" "0 < dcoef b"
    using assms by (simp_all add: dval_pos_iff)
  have D: "0 < ?D" using pos(4) by (rule quot_den_pos)
  have q: "(of_nat ?q :: rat) \<le> of_nat ?N / of_nat ?D"
    by (metis of_nat_div_le_of_nat)
  have x: "dval a / dval b = of_nat ?N / of_nat ?D * 10 powi ?e"
    using assms by (rule quot_ratio)
  have un: "dquot a b = (if ?N mod ?D \<noteq> 0 then dfix (Dec False (if ?q mod 5 = 0 then Suc ?q else ?q) ?e)
     else (case strip_zeros (nat ?shift) ?q ?e of (c, e') \<Rightarrow> dfix (Dec False c e')))"
    using pos by (simp add: dquot_parts quot_shift_def)
  show thesis
  proof (cases "?N mod ?D = 0")
    case True
    obtain c e' where st: "strip_zeros (nat ?shift) ?q ?e = (c, e')" by fastforce
    have v: "dval (Dec False c e') = of_nat ?q * 10 powi ?e"
      using strip_zeros_value [OF st, of False] by (simp add: dval_Dec_pos)
    have "of_nat ?q * 10 powi ?e \<le> dval a / dval b + (10 :: rat) powi ?e"
      using mult_right_mono [OF q, of "10 powi ?e"] x by (simp add: add_increasing2)
    then show thesis using that [of "Dec False c e'"] un True st v by simp
  next
    case False
    let ?q' = "if ?q mod 5 = 0 then Suc ?q else ?q"
    have "(of_nat ?q' :: rat) \<le> of_nat ?N / of_nat ?D + 1" using q by auto
    then have "of_nat ?q' * 10 powi ?e \<le> (of_nat ?N / of_nat ?D + 1) * (10 :: rat) powi ?e"
      by (rule mult_right_mono) simp
    then have "dval (Dec False ?q' ?e) \<le> dval a / dval b + 10 powi ?e"
      unfolding x by (simp only: dval_Dec_pos distrib_right mult_1_left)
    moreover have "of_nat ?q * 10 powi ?e \<le> dval (Dec False ?q' ?e)"
      by (simp add: dval_Dec_pos)
    ultimately show thesis using that [of "Dec False ?q' ?e"] un False by simp
  qed
qed

text \<open>
  A rounded quotient never falls below an integer the exact quotient reaches, and exceeds the
  exact quotient by a relative error of less than one unit in the 27th digit.
\<close>

lemma dquot_ge_int:
  assumes "0 < dval a" "0 < dval b" "of_int n \<le> dval a / dval b" "n \<le> 10 ^ 27"
  shows "of_int n \<le> dval (dquot a b)"
proof -
  let ?N = "quot_num a b" and ?D = "quot_den a b" and ?e = "quot_exp a b"
  obtain d where d: "dquot a b = dfix d" "\<not> dneg d"
    "of_nat (?N div ?D) * 10 powi ?e \<le> dval d"
    using dquot_as_dfix [OF assms(1,2)] by metis
  have pos: "0 < dcoef a" "0 < dcoef b" using assms by (simp_all add: dval_pos_iff)
  have x: "dval a / dval b = of_nat ?N / of_nat ?D * 10 powi ?e"
    using assms(1,2) by (rule quot_ratio)
  have "of_int n \<le> of_nat (?N div ?D) * (10 :: rat) powi ?e"
  proof (cases "?e \<le> 0")
    case True
    then have n: "of_int n = of_int (n * 10 ^ nat (- ?e)) * (10 :: rat) powi ?e"
      using powi_split [of ?e 0] by simp
    then have "of_int (n * 10 ^ nat (- ?e)) * (10 :: rat) powi ?e
        \<le> of_nat ?N / of_nat ?D * 10 powi ?e"
      using assms(3) by (simp only: x n [symmetric])
    then have "of_int (n * 10 ^ nat (- ?e)) \<le> (of_nat ?N / of_nat ?D :: rat)"
      by (rule mult_right_le_imp_le) simp
    then have "n * 10 ^ nat (- ?e) \<le> \<lfloor>of_nat ?N / of_nat ?D :: rat\<rfloor>"
      by (simp only: le_floor_iff)
    then have "n * 10 ^ nat (- ?e) \<le> int (?N div ?D)"
      by (simp only: floor_divide_of_nat_eq of_nat_id)
    then have "(of_int (n * 10 ^ nat (- ?e)) :: rat) \<le> of_nat (?N div ?D)"
      by (metis of_int_le_iff of_int_of_nat_eq)
    then show ?thesis unfolding n by (rule mult_right_mono) simp
  next
    case False
    have "n \<le> 10 ^ 28" using assms(4) by simp
    then have "(of_int n :: rat) \<le> of_int (10 ^ 28)" by (simp only: of_int_le_iff)
    also have "\<dots> = 10 ^ 28 * 1" by simp
    also have "(10 ^ 28 * 1 :: rat) \<le> of_nat (?N div ?D) * 10 powi ?e"
    proof (rule mult_mono)
      show "(10 ^ 28 :: rat) \<le> of_nat (?N div ?D)"
        using quot_large [OF pos] by (metis of_nat_le_iff of_nat_numeral of_nat_power)
      show "(1 :: rat) \<le> 10 powi ?e" using False by (simp add: power_int_def one_le_power)
    qed simp_all
    finally show ?thesis .
  qed
  then have "of_int n \<le> dval d" using d(3) by (rule order_trans)
  then show ?thesis using dfix_ge_int [of n d] assms(4) d by simp
qed

lemma dquot_upper:
  assumes "0 < dval a" "0 < dval b"
  shows "dval (dquot a b) \<le> dval a / dval b * (1 + 1 / 10 ^ 27)"
proof -
  let ?N = "quot_num a b" and ?D = "quot_den a b" and ?e = "quot_exp a b"
  let ?x = "dval a / dval b"
  obtain d where d: "dquot a b = dfix d" "\<not> dneg d"
    "of_nat (?N div ?D) * 10 powi ?e \<le> dval d" "dval d \<le> ?x + 10 powi ?e"
    using dquot_as_dfix [OF assms] by metis
  have pos: "0 < dcoef a" "0 < dcoef b" using assms by (simp_all add: dval_pos_iff)
  have "(10 ^ 28 :: rat) \<le> of_nat (?N div ?D)"
    using quot_large [OF pos] by (metis of_nat_le_iff of_nat_numeral of_nat_power)
  also have "\<dots> \<le> of_nat ?N / of_nat ?D" by (metis of_nat_div_le_of_nat)
  finally have "10 ^ 28 * 10 powi ?e \<le> of_nat ?N / of_nat ?D * (10 :: rat) powi ?e"
    by (rule mult_right_mono) simp
  then have "10 powi ?e * 10 ^ 28 \<le> ?x"
    by (simp only: quot_ratio [OF assms] mult.commute [of "10 ^ 28"])
  then have "10 powi ?e \<le> ?x / 10 ^ 28"
    by (rule iffD2 [OF pos_le_divide_eq, rotated]) simp
  then have 1: "dval d \<le> ?x * (1 + 1 / 10 ^ 28)" using d(4) by (simp add: distrib_left)
  have x0: "0 < ?x" using assms by simp
  have "dval (dfix d) \<le> dval d * (1 + 1 / (2 * 10 ^ 27))"
    using abs_le_D1 [OF dfix_error [OF d(2)]] by (simp add: distrib_left)
  also have "\<dots> \<le> ?x * (1 + 1 / 10 ^ 28) * (1 + 1 / (2 * 10 ^ 27))"
    using 1 by (rule mult_right_mono) simp
  also have "\<dots> \<le> ?x * (1 + 1 / 10 ^ 27)"
    unfolding mult.assoc using x0 by (intro mult_left_mono) simp_all
  finally show ?thesis by (simp only: d(1))
qed

text \<open>
  Moving the decimal point commutes with rounding and with division, so what holds for integers
  holds for every decimal of at most 28 digits.
\<close>

definition dshift :: "int \<Rightarrow> decimal \<Rightarrow> decimal" where
  "dshift k d = Dec (dneg d) (dcoef d) (dexp d + k)"

lemma dshift_simps [simp]:
  "dneg (dshift k d) = dneg d" "dcoef (dshift k d) = dcoef d" "dexp (dshift k d) = dexp d + k"
  by (simp_all add: dshift_def)

lemma dval_dshift: "dval (dshift k d) = dval d * 10 powi k"
  by (simp add: dshift_def dval_def dsint_def powi10_add)

lemma dshift_dshift [simp]: "dshift j (dshift k d) = dshift (k + j) d"
  by (simp add: dshift_def)

lemma dshift_zero [simp]: "dshift 0 d = d"
  by (simp add: dshift_def)

lemma dneg_dfix: "dneg (dfix d) = dneg d"
  by (simp add: dfix_def Let_def)

lemma dfix_dshift: "dfix (dshift k d) = dshift k (dfix d)"
  by (simp add: dfix_def Let_def dshift_def)

lemma strip_zeros_shift:
  "strip_zeros n c (e + k) = (case strip_zeros n c e of (c', e') \<Rightarrow> (c', e' + k))"
proof (induction n c e rule: strip_zeros.induct)
  case (2 n c e)
  show ?case
  proof (cases "c mod 10 = 0")
    case True
    have "e + k + 1 = e + 1 + k" by simp
    with 2 True show ?thesis by (simp only: strip_zeros.simps if_True simp_thms)
  qed simp
qed simp

lemma dquot_dshift: "dquot (dshift k a) b = dshift k (dquot a b)"
proof (cases "dcoef a = 0")
  case True
  then show ?thesis by (simp add: dquot_def Let_def) (simp add: dshift_def)
next
  case False
  have e: "quot_exp (dshift k a) b = quot_exp a b + k" by (simp add: quot_exp_def)
  have n: "quot_num (dshift k a) b = quot_num a b" "quot_den (dshift k a) b = quot_den a b"
    "quot_shift (dshift k a) b = quot_shift a b"
    by (simp_all add: quot_num_def quot_den_def quot_shift_def Let_def)
  have s: "Dec s c (e + k) = dshift k (Dec s c e)" for s c e by (simp add: dshift_def)
  show ?thesis
    using False
    by (simp add: dquot_parts e n strip_zeros_shift s dfix_dshift split: prod.split)
qed

lemma dfix_ge_grid:
  assumes "of_int n * 10 powi t \<le> dval d" "n \<le> 10 ^ 27" "\<not> dneg d"
  shows "of_int n * 10 powi t \<le> dval (dfix d)"
proof -
  have i: "(10 :: rat) powi (- t) * 10 powi t = 1" using powi10_add [of "- t" t] by simp
  have "of_int n * 10 powi t * 10 powi (- t) \<le> dval d * 10 powi (- t)"
    using assms(1) by (rule mult_right_mono) simp
  then have "of_int n \<le> dval (dshift (- t) d)"
    using i by (simp add: dval_dshift mult.assoc mult.commute [of "10 powi t"])
  then have "of_int n \<le> dval (dfix (dshift (- t) d))"
    using assms(2,3) by (intro dfix_ge_int) simp_all
  then have "of_int n * 10 powi t \<le> dval (dfix d) * 10 powi (- t) * 10 powi t"
    unfolding dfix_dshift dval_dshift by (rule mult_right_mono) simp
  then show ?thesis using i by (simp add: mult.assoc)
qed

lemma dquot_ge_grid:
  assumes "0 < dval a" "0 < dval b" "of_int n * 10 powi t \<le> dval a / dval b" "n \<le> 10 ^ 27"
  shows "of_int n * 10 powi t \<le> dval (dquot a b)"
proof -
  have i: "(10 :: rat) powi (- t) * 10 powi t = 1" using powi10_add [of "- t" t] by simp
  have "of_int n * 10 powi t * 10 powi (- t) \<le> dval a / dval b * 10 powi (- t)"
    using assms(3) by (rule mult_right_mono) simp
  then have "of_int n \<le> dval (dshift (- t) a) / dval b"
    using i by (simp add: dval_dshift mult.assoc mult.commute [of "10 powi t"])
  then have "of_int n \<le> dval (dquot (dshift (- t) a) b)"
    using assms(1,2,4) by (intro dquot_ge_int) (simp_all add: dval_dshift)
  then have "of_int n * 10 powi t \<le> dval (dquot a b) * 10 powi (- t) * 10 powi t"
    unfolding dquot_dshift dval_dshift by (rule mult_right_mono) simp
  then show ?thesis using i by (simp add: mult.assoc)
qed

section \<open>Division by a hundred\<close>

lemma strip_zeros_skip: "strip_zeros (j + k) (c * 10 ^ j) e = strip_zeros k c (e + int j)"
proof (induction j arbitrary: e)
  case (Suc j)
  have "c * 10 ^ Suc j mod 10 = 0" "c * 10 ^ Suc j div 10 = c * 10 ^ j" by simp_all
  then have "strip_zeros (Suc j + k) (c * 10 ^ Suc j) e = strip_zeros (j + k) (c * 10 ^ j) (e + 1)"
    by simp
  also have "\<dots> = strip_zeros k c (e + 1 + int j)" by (rule Suc.IH)
  finally show ?case by (simp add: add.assoc)
qed simp

lemma strip_zeros_le: "strip_zeros k c e = (c', e') \<Longrightarrow> c' \<le> c"
proof (induction k c e arbitrary: c' e' rule: strip_zeros.induct)
  case (2 k c e)
  show ?case
  proof (cases "c mod 10 = 0")
    case True
    with 2 have "c' \<le> c div 10" by simp
    then show ?thesis using div_le_dividend [of c 10] by (rule order_trans)
  next
    case False
    with 2 show ?thesis by simp
  qed
qed simp

text \<open>A percentage is exact: dividing a decimal of at most 28 digits by a hundred rounds nothing.\<close>

lemma dquot_hundred:
  assumes "dcoef a < 10 ^ 28"
  shows "dval (dquot a (dec_of_int 100)) = dval a / 100"
proof (cases "dcoef a = 0")
  case True
  then show ?thesis by (simp add: dquot_def Let_def dval_def dsint_def)
next
  case False
  let ?n = "ndigits (dcoef a)"
  have n: "?n \<le> 28" using ndigits_le [of "dcoef a" 28] assms by simp
  have b: "dneg (dec_of_int 100) = False" "dcoef (dec_of_int 100) = 100"
    "dexp (dec_of_int 100) = 0" by (simp_all add: dec_of_int_def)
  have nb: "ndigits 100 = 3" by (simp add: ndigits.simps)
  define k where "k = 30 - ?n"
  have shift: "int (ndigits (dcoef (dec_of_int 100))) - int ?n + 29 = int k + 2"
    using n by (simp add: b nb k_def of_nat_diff)
  have nn: "nat (int k + 2) = k + 2" by simp
  have "quot_num a (dec_of_int 100) = dcoef a * 10 ^ (k + 2)"
    unfolding quot_num_def shift by (simp add: nn)
  also have "\<dots> = dcoef a * 10 ^ k * 100" by (simp add: power_add)
  finally have num: "quot_num a (dec_of_int 100) = dcoef a * 10 ^ k * 100" .
  have den: "quot_den a (dec_of_int 100) = 100" unfolding quot_den_def shift by (simp add: b)
  have q: "quot_num a (dec_of_int 100) div quot_den a (dec_of_int 100) = dcoef a * 10 ^ k"
    and r: "quot_num a (dec_of_int 100) mod quot_den a (dec_of_int 100) = 0"
    unfolding num den by simp_all
  have e: "quot_exp a (dec_of_int 100) = dexp a - (int k + 2)"
    unfolding quot_exp_def shift by (simp add: b)
  have sh: "quot_shift a (dec_of_int 100) = k + 2"
    unfolding quot_shift_def shift by simp
  have "dquot a (dec_of_int 100) =
      (case strip_zeros (k + 2) (dcoef a * 10 ^ k) (dexp a - (int k + 2)) of
         (c, e') \<Rightarrow> dfix (Dec (dneg a) c e'))"
    unfolding dquot_parts [OF False] q r e sh b by simp
  also have "strip_zeros (k + 2) (dcoef a * 10 ^ k) (dexp a - (int k + 2))
      = strip_zeros 2 (dcoef a) (dexp a - 2)"
    by (simp only: strip_zeros_skip) (simp add: algebra_simps)
  finally obtain c e' where st: "strip_zeros 2 (dcoef a) (dexp a - 2) = (c, e')"
    and q: "dquot a (dec_of_int 100) = dfix (Dec (dneg a) c e')"
    by (cases "strip_zeros 2 (dcoef a) (dexp a - 2)") auto
  have "c < 10 ^ 28" using strip_zeros_le [OF st] assms by (rule order_le_less_trans)
  then have "dval (dquot a (dec_of_int 100)) = dval (Dec (dneg a) c e')" by (simp add: q)
  also have "\<dots> = dval (Dec (dneg a) (dcoef a) (dexp a - 2))"
    using st by (rule strip_zeros_value)
  also have "\<dots> = dval a / 100" by (simp add: dval_def dsint_def powi10_diff)
  finally show ?thesis .
qed

section \<open>Exact results\<close>

text \<open>
  A value of at most 28 significant digits is not changed by rounding to the context, whatever
  the exponents of the operands that produced it.
\<close>

definition representable :: "rat \<Rightarrow> bool" where
  "representable r = (\<exists>n u. r = of_int n * 10 powi u \<and> \<bar>n\<bar> < 10 ^ 28)"

lemma representableI: "r = of_int n * 10 powi u \<Longrightarrow> \<bar>n\<bar> < 10 ^ 28 \<Longrightarrow> representable r"
  by (auto simp: representable_def)

lemma dfix_large_abs:
  assumes "28 < ndigits (dcoef d)"
  shows "10 ^ 27 * 10 powi dfix_exp d \<le> \<bar>dval d\<bar>"
proof -
  have "10 ^ 27 * 10 powi dfix_exp (Dec False (dcoef d) (dexp d)) \<le> dval (Dec False (dcoef d) (dexp d))"
    using assms by (intro dfix_large) simp_all
  moreover have "dval (Dec False (dcoef d) (dexp d)) = \<bar>dval d\<bar>"
    by (cases d) (simp only: decimal.sel dval_abs dval_Dec_pos)
  ultimately show ?thesis by (simp only: dfix_exp_def decimal.sel)
qed

lemma dfix_exact:
  assumes "representable (dval d)" shows "dval (dfix d) = dval d"
proof (cases "ndigits (dcoef d) \<le> 28")
  case True
  then show ?thesis by (simp add: dfix_def)
next
  case False
  let ?e = "dfix_exp d"
  obtain n u where v: "dval d = of_int n * 10 powi u" and n: "\<bar>n\<bar> < 10 ^ 28"
    using assms by (auto simp: representable_def)
  have "\<bar>dval d\<bar> = of_int \<bar>n\<bar> * 10 powi u" by (simp add: v abs_mult)
  moreover have "(of_int \<bar>n\<bar> :: rat) * 10 powi u < of_int (10 ^ 28) * 10 powi u"
    using n by (intro mult_strict_right_mono) (simp_all only: of_int_less_iff powi10_pos)
  moreover have "of_int (10 ^ 28) * 10 powi u = 10 ^ 27 * (10 :: rat) powi (u + 1)"
    by (simp add: powi10_add)
  ultimately have "10 ^ 27 * 10 powi ?e < 10 ^ 27 * (10 :: rat) powi (u + 1)"
    using dfix_large_abs [of d] False by linarith
  then have lt: "(10 :: rat) powi ?e < 10 powi (u + 1)"
    by (rule mult_left_less_imp_less) simp
  have "?e \<le> u"
  proof (rule ccontr)
    assume "\<not> ?e \<le> u"
    then have "(10 :: rat) powi (u + 1) \<le> 10 powi ?e" by (intro power_int_increasing) simp_all
    with lt show False by simp
  qed
  then have g: "dval d = of_int (n * 10 ^ nat (u - ?e)) * 10 powi ?e"
    using powi_split [of ?e u] by (simp add: v)
  then have "dval d / 10 powi ?e = of_int (n * 10 ^ nat (u - ?e))"
    by (simp only: nonzero_mult_div_cancel_right power_int_not_zero zero_neq_numeral [symmetric] simp_thms)
  then show ?thesis by (simp only: dval_dfix rhe_of_int g)
qed

lemma dadd_exact: "representable (dval a + dval b) \<Longrightarrow> dval (dadd a b) = dval a + dval b"
proof -
  assume r: "representable (dval a + dval b)"
  let ?t = "min (dexp a) (dexp b)"
  let ?s = "dscale ?t a + dscale ?t b"
  let ?r = "Dec (if ?s = 0 then dneg a \<and> dneg b else ?s < 0) (nat \<bar>?s\<bar>) ?t"
  have "dval a = of_int (dscale ?t a) * 10 powi ?t" "dval b = of_int (dscale ?t b) * 10 powi ?t"
    by (intro dval_dscale; simp)+
  moreover have "dval ?r = of_int ?s * 10 powi ?t" by (auto simp: dval_def dsint_def)
  ultimately have "dval ?r = dval a + dval b" by (simp add: distrib_right)
  then show ?thesis using r dfix_exact [of ?r] by (simp add: dadd_def Let_def)
qed

lemma dsub_exact: "representable (dval a - dval b) \<Longrightarrow> dval (dsub a b) = dval a - dval b"
  using dadd_exact [of a "dcopy_negate b"] by (simp add: dsub_def)

lemma dmul_exact: "representable (dval a * dval b) \<Longrightarrow> dval (dmul a b) = dval a * dval b"
  unfolding dval_dmul_dfix using dfix_exact dval_raw_product by metis

end
