(* ===== verification/Result_Type.thy ===== *)
theory Result_Type
  imports Prelude
begin

text \<open>
  The \<open>Result\<close> type of domain/result.py: every operation that can fail returns \<open>Ok\<close> with
  its value or \<open>Err\<close> with its error, and the caller has to look at both.
\<close>

datatype ('a, 'e) result = Ok 'a | Err 'e

definition is_ok :: "('a, 'e) result \<Rightarrow> bool" where
  "is_ok r = (case r of Ok v \<Rightarrow> True | Err e \<Rightarrow> False)"

definition is_err :: "('a, 'e) result \<Rightarrow> bool" where
  "is_err r = (case r of Ok v \<Rightarrow> False | Err e \<Rightarrow> True)"

lemma is_ok_simps [simp]: "is_ok (Ok v)" "\<not> is_ok (Err e)"
  by (simp_all add: is_ok_def)

lemma is_err_simps [simp]: "is_err (Err e)" "\<not> is_err (Ok v)"
  by (simp_all add: is_err_def)

lemma is_err_iff_not_ok: "is_err r \<longleftrightarrow> \<not> is_ok r"
  by (cases r) simp_all

lemma is_okE [elim]: "is_ok r \<Longrightarrow> (\<And>v. r = Ok v \<Longrightarrow> P) \<Longrightarrow> P"
  by (cases r) simp_all

text \<open>
  A call that can let an exception escape to its caller instead of returning: the exception's
  class is kept. Only the operations from which an exception can escape have this type.
\<close>

datatype 'a py_call = Returns 'a | Raises string

definition raises :: "'a py_call \<Rightarrow> bool" where
  "raises c = (case c of Returns v \<Rightarrow> False | Raises e \<Rightarrow> True)"

lemma raises_simps [simp]: "\<not> raises (Returns v)" "raises (Raises e)"
  by (simp_all add: raises_def)

end
