(* ===== verification/Decimal_Text.thy ===== *)
theory Decimal_Text
  imports Decimal_Model Result_Type
begin

text \<open>
  Text of decimals: \<open>format(d, "f")\<close>, \<open>str(d)\<close>, and the reading that \<open>Decimal(text)\<close> performs
  (sign, digits with an optional point and exponent, infinities and NaNs, surrounding
  whitespace and underscores dropped), over ASCII text.
\<close>

section \<open>Writing\<close>

definition zeros :: "nat \<Rightarrow> string" where
  "zeros k = replicate k (digit_char 0)"

definition sign_text :: "decimal \<Rightarrow> string" where
  "sign_text d = (if dneg d then ''-'' else '''')"

text \<open>\<open>format(d, "f")\<close>: never an exponent; a zero with a positive exponent is rescaled to 0.\<close>

definition dformat_f :: "decimal \<Rightarrow> string" where
  "dformat_f d = sign_text d @
     (let ds = show_nat (dcoef d); n = length ds in
      if 0 \<le> dexp d then (if dcoef d = 0 then ds else ds @ zeros (nat (dexp d)))
      else (let k = nat (- dexp d) in
        if n \<le> k then ''0.'' @ zeros (k - n) @ ds
        else take (n - k) ds @ ''.'' @ drop (n - k) ds))"

text \<open>\<open>str(d)\<close>: scientific notation for a positive exponent or six zeros after the point.\<close>

definition dstr :: "decimal \<Rightarrow> string" where
  "dstr d = sign_text d @
     (let ds = show_nat (dcoef d); n = length ds; left = dexp d + int n in
      if dexp d \<le> 0 \<and> -6 < left then
        (if left \<le> 0 then ''0.'' @ zeros (nat (- left)) @ ds
         else if int n \<le> left then ds
         else take (nat left) ds @ ''.'' @ drop (nat left) ds)
      else (if n = 1 then ds else take 1 ds @ ''.'' @ drop 1 ds)
        @ (if left = 1 then ''''
           else ''E'' @ (if left - 1 < 0 then ''-'' else ''+'') @ show_nat (nat \<bar>left - 1\<bar>)))"

section \<open>Reading\<close>

definition is_space :: "char \<Rightarrow> bool" where
  "is_space c = (let n = (of_char c :: nat) in (9 \<le> n \<and> n \<le> 13) \<or> (28 \<le> n \<and> n \<le> 32))"

definition lstrip :: "string \<Rightarrow> string" where
  "lstrip s = dropWhile is_space s"

definition py_strip :: "string \<Rightarrow> string" where
  "py_strip s = rev (lstrip (rev (lstrip s)))"

definition lower_char :: "char \<Rightarrow> char" where
  "lower_char c = (let n = (of_char c :: nat) in if 65 \<le> n \<and> n \<le> 90 then char_of (n + 32) else c)"

definition py_lower :: "string \<Rightarrow> string" where
  "py_lower s = map lower_char s"

text \<open>What \<open>Decimal(text)\<close> can be: a finite decimal, an infinity, a quiet or a signalling NaN.\<close>

datatype dec_value = Finite decimal | Infinite bool | QuietNaN | SignalNaN

definition read_sign :: "string \<Rightarrow> bool \<times> string" where
  "read_sign s = (case s of [] \<Rightarrow> (False, [])
     | c # cs \<Rightarrow> if c = CHR ''-'' then (True, cs) else if c = CHR ''+'' then (False, cs)
                 else (False, c # cs))"

definition read_exponent :: "string \<Rightarrow> int option" where
  "read_exponent s = (case s of [] \<Rightarrow> Some 0
     | c # cs \<Rightarrow> if c \<noteq> CHR ''e'' then None else
         (case read_sign cs of (neg, ds) \<Rightarrow>
            if ds = [] \<or> \<not> list_all is_digit ds then None
            else Some (if neg then - int (read_nat ds) else int (read_nat ds))))"

definition read_fraction :: "string \<Rightarrow> string \<times> string" where
  "read_fraction s = (case s of [] \<Rightarrow> ([], [])
     | c # cs \<Rightarrow> if c = CHR ''.'' then (takeWhile is_digit cs, dropWhile is_digit cs)
                 else ([], c # cs))"

definition read_unsigned :: "bool \<Rightarrow> string \<Rightarrow> dec_value option" where
  "read_unsigned neg s = (let ip = takeWhile is_digit s in
     case read_fraction (dropWhile is_digit s) of (fp, rest) \<Rightarrow>
       if ip = [] \<and> fp = [] then
         (if s = ''inf'' \<or> s = ''infinity'' then Some (Infinite neg)
          else if take 3 s = ''nan'' \<and> list_all is_digit (drop 3 s) then Some QuietNaN
          else if take 4 s = ''snan'' \<and> list_all is_digit (drop 4 s) then Some SignalNaN
          else None)
       else map_option (\<lambda>e. Finite (Dec neg (read_nat (ip @ fp)) (e - int (length fp))))
              (read_exponent rest))"

text \<open>\<open>None\<close> is the InvalidOperation that \<open>Decimal(text)\<close> raises on malformed text.\<close>

definition py_decimal :: "string \<Rightarrow> dec_value option" where
  "py_decimal s = (case read_sign (filter (\<lambda>c. c \<noteq> CHR ''_'') (py_lower (py_strip s))) of
     (neg, u) \<Rightarrow> read_unsigned neg u)"

section \<open>Reading what was written\<close>

lemma digit_facts:
  assumes "is_digit c"
  shows "c \<noteq> CHR ''-''" "c \<noteq> CHR ''+''" "c \<noteq> CHR ''.''" "c \<noteq> CHR ''_''" "c \<noteq> CHR ''e''"
    "\<not> is_space c" "lower_char c = c"
  using assms by (auto simp: is_digit_def is_space_def lower_char_def Let_def)

lemma zeros_digits: "c \<in> set (zeros k) \<Longrightarrow> is_digit c"
  by (simp add: zeros_def)

definition plain_char :: "char \<Rightarrow> bool" where
  "plain_char c = (is_digit c \<or> c = CHR ''-'' \<or> c = CHR ''.'')"

lemma plain_char_facts:
  assumes "plain_char c"
  shows "\<not> is_space c" "lower_char c = c" "c \<noteq> CHR ''_''" "c \<noteq> CHR ''e''"
  using assms digit_facts [of c]
  by (auto simp: plain_char_def is_space_def lower_char_def Let_def)

lemma plain_text_kept:
  assumes "\<forall>c \<in> set s. plain_char c"
  shows "filter (\<lambda>c. c \<noteq> CHR ''_'') (py_lower (py_strip s)) = s"
proof -
  have id: "lstrip t = t" if "\<forall>c \<in> set t. plain_char c" for t
    using that plain_char_facts(1) by (cases t) (auto simp: lstrip_def)
  have "py_strip s = s" using assms by (simp add: py_strip_def id)
  moreover have "py_lower s = s"
    using assms plain_char_facts(2) by (simp add: py_lower_def map_idI)
  ultimately show ?thesis using assms plain_char_facts(3) by (simp add: filter_id_conv)
qed

lemma takeWhile_digits: "\<forall>c \<in> set ds. is_digit c \<Longrightarrow> \<not> is_digit x \<Longrightarrow>
    takeWhile is_digit (ds @ x # r) = ds \<and> dropWhile is_digit (ds @ x # r) = x # r"
  by (induction ds) auto

lemma takeWhile_all_digits:
  assumes "\<forall>c \<in> set ds. is_digit c"
  shows "takeWhile is_digit ds = ds" "dropWhile is_digit ds = []"
  using assms by (induction ds) auto

lemma digit_char_zero: "digit_char 0 = CHR ''0''"
  by code_simp

lemma point_not_digit [simp]: "\<not> is_digit (CHR ''.'')"
  by (simp add: is_digit_def)

lemma read_unsigned_integer:
  assumes "\<forall>c \<in> set ds. is_digit c" "ds \<noteq> []"
  shows "read_unsigned neg ds = Some (Finite (Dec neg (read_nat ds) 0))"
  using assms(2)
  by (simp add: read_unsigned_def read_fraction_def read_exponent_def
      takeWhile_all_digits [OF assms(1)])

lemma read_unsigned_fraction:
  assumes "\<forall>c \<in> set ip. is_digit c" "\<forall>c \<in> set fp. is_digit c" "ip \<noteq> []"
  shows "read_unsigned neg (ip @ CHR ''.'' # fp)
     = Some (Finite (Dec neg (read_nat (ip @ fp)) (- int (length fp))))"
  using assms(3) takeWhile_digits [OF assms(1), of "CHR ''.''" fp]
  by (simp add: read_unsigned_def read_fraction_def read_exponent_def
      takeWhile_all_digits [OF assms(2)])

definition unsigned_text :: "decimal \<Rightarrow> string" where
  "unsigned_text d = dformat_f (Dec False (dcoef d) (dexp d))"

lemma dformat_f_sign: "dformat_f d = sign_text d @ unsigned_text d"
  by (simp add: dformat_f_def unsigned_text_def sign_text_def Let_def)

lemma unsigned_text_fraction:
  assumes "dexp d < 0"
  obtains ip fp where "unsigned_text d = ip @ CHR ''.'' # fp" "ip \<noteq> []"
    "\<forall>c \<in> set ip. is_digit c" "\<forall>c \<in> set fp. is_digit c"
    "int (length fp) = - dexp d" "read_nat (ip @ fp) = dcoef d"
proof -
  let ?ds = "show_nat (dcoef d)"
  let ?n = "length ?ds" and ?k = "nat (- dexp d)"
  have dig: "\<forall>c \<in> set ?ds. is_digit c" using show_nat_digits by blast
  show thesis
  proof (cases "?n \<le> ?k")
    case True
    have z: "''0'' @ zeros (?k - ?n) @ ?ds = replicate (Suc (?k - ?n)) (digit_char 0) @ ?ds"
      by (simp add: zeros_def digit_char_zero)
    show thesis
    proof (rule that [of "''0''" "zeros (?k - ?n) @ ?ds"])
      show "unsigned_text d = ''0'' @ CHR ''.'' # zeros (?k - ?n) @ ?ds"
        using assms True by (simp add: unsigned_text_def dformat_f_def sign_text_def Let_def)
      show "\<forall>c \<in> set ''0''. is_digit c" by (simp add: is_digit_def)
      show "\<forall>c \<in> set (zeros (?k - ?n) @ ?ds). is_digit c" using dig zeros_digits by auto
      show "int (length (zeros (?k - ?n) @ ?ds)) = - dexp d"
        using True assms by (simp add: zeros_def)
      show "read_nat (''0'' @ zeros (?k - ?n) @ ?ds) = dcoef d"
        by (simp only: z read_nat_zeros read_show_nat)
    qed simp
  next
    case False
    show thesis
    proof (rule that [of "take (?n - ?k) ?ds" "drop (?n - ?k) ?ds"])
      show "unsigned_text d = take (?n - ?k) ?ds @ CHR ''.'' # drop (?n - ?k) ?ds"
        using assms False by (simp add: unsigned_text_def dformat_f_def sign_text_def Let_def)
      show "take (?n - ?k) ?ds \<noteq> []" using False by simp
      show "\<forall>c \<in> set (take (?n - ?k) ?ds). is_digit c" using dig in_set_takeD by fastforce
      show "\<forall>c \<in> set (drop (?n - ?k) ?ds). is_digit c" using dig in_set_dropD by fastforce
      show "int (length (drop (?n - ?k) ?ds)) = - dexp d" using False assms by simp
    qed simp
  qed
qed

lemma unsigned_text_integer:
  assumes "0 \<le> dexp d"
  shows "unsigned_text d \<noteq> []" "\<forall>c \<in> set (unsigned_text d). is_digit c"
    "read_nat (unsigned_text d) = dcoef d * 10 ^ nat (dexp d)"
proof -
  have dig: "\<forall>c \<in> set (show_nat (dcoef d)). is_digit c" using show_nat_digits by blast
  have u: "unsigned_text d = (if dcoef d = 0 then show_nat 0
      else show_nat (dcoef d) @ zeros (nat (dexp d)))"
    using assms by (simp add: unsigned_text_def dformat_f_def sign_text_def Let_def)
  show "unsigned_text d \<noteq> []" by (simp add: u)
  show "\<forall>c \<in> set (unsigned_text d). is_digit c"
    using dig zeros_digits by (auto simp: u dest: show_nat_digits)
  show "read_nat (unsigned_text d) = dcoef d * 10 ^ nat (dexp d)"
    by (simp add: u read_nat_append_scale zeros_def)
qed

lemma unsigned_text_first:
  obtains c cs where "unsigned_text d = c # cs" "is_digit c"
proof (cases "dexp d < 0")
  case True
  then obtain ip fp where "unsigned_text d = ip @ CHR ''.'' # fp" "ip \<noteq> []"
    "\<forall>c \<in> set ip. is_digit c" using unsigned_text_fraction by metis
  then show thesis using that by (cases ip) auto
next
  case False
  then show thesis using that unsigned_text_integer [of d]
    by (cases "unsigned_text d") auto
qed

lemma unsigned_text_plain: "\<forall>c \<in> set (unsigned_text d). plain_char c"
proof (cases "dexp d < 0")
  case True
  then obtain ip fp where "unsigned_text d = ip @ CHR ''.'' # fp"
    "\<forall>c \<in> set ip. is_digit c" "\<forall>c \<in> set fp. is_digit c" using unsigned_text_fraction by metis
  then show ?thesis by (auto simp: plain_char_def)
next
  case False
  then show ?thesis using unsigned_text_integer(2) [of d] by (auto simp: plain_char_def)
qed

lemma dformat_f_plain: "\<forall>c \<in> set (dformat_f d). plain_char c"
  using unsigned_text_plain [of d] by (auto simp: dformat_f_sign sign_text_def plain_char_def)

lemma read_sign_dformat: "read_sign (dformat_f d) = (dneg d, unsigned_text d)"
proof -
  obtain c cs where "unsigned_text d = c # cs" "is_digit c" by (rule unsigned_text_first)
  then show ?thesis using digit_facts(1,2) [of c]
    by (auto simp: dformat_f_sign sign_text_def read_sign_def)
qed

text \<open>
  The value read back from the plain text of \<open>d\<close>: the same decimal, except that a positive
  exponent has been multiplied out.
\<close>

definition dplain :: "decimal \<Rightarrow> decimal" where
  "dplain d = (if 0 \<le> dexp d then Dec (dneg d) (dcoef d * 10 ^ nat (dexp d)) 0 else d)"

lemma dval_dplain: "dval (dplain d) = dval d"
  by (cases d) (auto simp: dplain_def dval_def dsint_def power_int_def)

lemma py_decimal_dformat: "py_decimal (dformat_f d) = Some (Finite (dplain d))"
proof -
  have r: "py_decimal (dformat_f d) = read_unsigned (dneg d) (unsigned_text d)"
    by (simp add: py_decimal_def plain_text_kept dformat_f_plain read_sign_dformat)
  show ?thesis
  proof (cases "dexp d < 0")
    case True
    then obtain ip fp where "unsigned_text d = ip @ CHR ''.'' # fp" "ip \<noteq> []"
      "\<forall>c \<in> set ip. is_digit c" "\<forall>c \<in> set fp. is_digit c"
      "int (length fp) = - dexp d" "read_nat (ip @ fp) = dcoef d"
      using unsigned_text_fraction by metis
    then show ?thesis using True by (simp add: r read_unsigned_fraction dplain_def)
  next
    case False
    then show ?thesis using unsigned_text_integer [of d]
      by (simp add: r read_unsigned_integer dplain_def)
  qed
qed

end
