(* ===== verification/Money.thy ===== *)
theory Money
  imports Decimal_Laws Decimal_Text
begin

text \<open>
  domain/money.py: amounts quantized to the cent (\<open>Money\<close>), per-share prices quantized to four
  decimals (\<open>Price\<close>), whole share counts (\<open>Quantity\<close>), the share of a capital (\<open>pct_of\<close>) and
  the canonical text of a stored decimal.

  A quantized amount is kept as its integer number of quanta, and \<open>money_amount\<close> and
  \<open>price_amount\<close> give back the decimal the code carries. Two things differ from the code's
  representation: a zero amount has no sign, and the InvalidOperation that \<open>quantize\<close> raises for
  an amount of more than 28 digits (10^26 USD) is not a branch; \<open>money_in_range\<close> states when
  it cannot happen.
\<close>

section \<open>Amounts on a decimal grid\<close>

text \<open>The decimal with the exponent \<open>t\<close> and the signed coefficient \<open>k\<close>.\<close>

definition grid_amount :: "int \<Rightarrow> int \<Rightarrow> decimal" where
  "grid_amount t k = Dec (k < 0) (nat \<bar>k\<bar>) t"

lemma dval_grid_amount [simp]: "dval (grid_amount t k) = of_int k * 10 powi t"
  by (simp add: grid_amount_def dval_def dsint_def)

lemma dsint_grid_amount [simp]: "dsint (grid_amount t k) = k"
  by (simp add: grid_amount_def dsint_def)

lemma dexp_grid_amount [simp]: "dexp (grid_amount t k) = t"
  by (simp add: grid_amount_def)

lemma dcoef_grid_amount [simp]: "dcoef (grid_amount t k) = nat \<bar>k\<bar>"
  by (simp add: grid_amount_def)

text \<open>
  The contract that \<open>Money\<close> and \<open>Price\<close> share: constructing rounds half to even on the grid,
  and reading the amount of a constructed value back gives the grid point.
\<close>

locale quantized =
  fixes t :: int
    and mk :: "decimal \<Rightarrow> 'm"
    and amount :: "'m \<Rightarrow> decimal"
    and units :: "'m \<Rightarrow> int"
  assumes amount_units: "amount m = grid_amount t (units m)"
    and units_mk: "units (mk d) = dsint (dquantize t d)"
    and units_inject: "units m = units m' \<Longrightarrow> m = m'"
begin

lemma units_mk_rhe: "units (mk d) = rhe (dval d / 10 powi t)"
  by (simp add: units_mk dsint_dquantize)

lemma dval_amount: "dval (amount m) = of_int (units m) * 10 powi t"
  by (simp add: amount_units)

lemma dexp_amount: "dexp (amount m) = t"
  by (simp add: amount_units)

lemma mk_amount: "mk (amount m) = m"
  by (rule units_inject) (simp add: units_mk_rhe dval_amount)

lemma mk_error: "\<bar>dval (amount (mk d)) - dval d\<bar> \<le> 10 powi t / 2"
  using dquantize_error [of t d] by (simp add: dval_amount units_mk_rhe dval_dquantize)

lemma mk_mono: "dval d \<le> dval d' \<Longrightarrow> units (mk d) \<le> units (mk d')"
  by (simp add: units_mk_rhe rhe_mono divide_right_mono)

lemma mk_of_grid: "dval d = of_int k * 10 powi t \<Longrightarrow> units (mk d) = k"
  by (simp add: units_mk_rhe)

lemma mk_cong: "dval d = dval d' \<Longrightarrow> mk d = mk d'"
  by (rule units_inject) (simp add: units_mk_rhe)

lemma mk_le_grid:
  assumes "dval d \<le> of_int k * 10 powi t" shows "units (mk d) \<le> k"
proof -
  have "dval d / 10 powi t \<le> of_int k" using assms by (simp add: pos_divide_le_eq)
  then have "rhe (dval d / 10 powi t) \<le> rhe (of_int k)" by (rule rhe_mono)
  then show ?thesis by (simp add: units_mk_rhe)
qed

lemma mk_ge_grid:
  assumes "of_int k * 10 powi t \<le> dval d" shows "k \<le> units (mk d)"
proof -
  have "of_int k \<le> dval d / 10 powi t" using assms by (simp add: pos_le_divide_eq)
  then have "rhe (of_int k) \<le> rhe (dval d / 10 powi t)" by (rule rhe_mono)
  then show ?thesis by (simp add: units_mk_rhe)
qed

end

section \<open>Money\<close>

datatype Money = Money (cents: int)

definition money_amount :: "Money \<Rightarrow> decimal" where
  "money_amount m = grid_amount (- 2) (cents m)"

definition mk_Money :: "decimal \<Rightarrow> Money" where
  "mk_Money d = Money (dsint (dquantize (- 2) d))"

interpretation money: quantized "- 2" mk_Money money_amount cents
  by unfold_locales (auto simp: money_amount_def mk_Money_def intro: Money.expand)

text \<open>
  Sums and differences of amounts on the grid are on the grid: where the code's
  \<open>Money(self.amount + other.amount)\<close> returns, it returns the exact sum of cents.
\<close>

definition money_add :: "Money \<Rightarrow> Money \<Rightarrow> Money" where
  "money_add a b = Money (cents a + cents b)"

definition money_sub :: "Money \<Rightarrow> Money \<Rightarrow> Money" where
  "money_sub a b = Money (cents a - cents b)"

definition money_mul :: "Money \<Rightarrow> decimal \<Rightarrow> Money" where
  "money_mul m factor = mk_Money (dmul (money_amount m) factor)"

definition zero_money :: Money where
  "zero_money = mk_Money (dec_of_int 0)"

lemma cents_simps [simp]:
  "cents (money_add a b) = cents a + cents b" "cents (money_sub a b) = cents a - cents b"
  "cents zero_money = 0"
  by (simp_all add: money_add_def money_sub_def zero_money_def money.units_mk_rhe)

lemma money_add_as_written:
  assumes "\<bar>cents a + cents b\<bar> < 10 ^ 28"
  shows "money_add a b = mk_Money (dadd (money_amount a) (money_amount b))"
proof (rule Money.expand)
  have "dval (dadd (money_amount a) (money_amount b)) = of_int (cents a + cents b) * 10 powi (- 2)"
    using assms by (subst dval_dadd)
      (simp_all add: money_amount_def dscale_def distrib_right)
  then have "cents (mk_Money (dadd (money_amount a) (money_amount b))) = cents a + cents b"
    by (rule money.mk_of_grid)
  then show "cents (money_add a b) = cents (mk_Money (dadd (money_amount a) (money_amount b)))"
    by simp
qed

lemma money_sub_as_written:
  assumes "\<bar>cents a - cents b\<bar> < 10 ^ 28"
  shows "money_sub a b = mk_Money (dsub (money_amount a) (money_amount b))"
proof (rule Money.expand)
  have "dval (dsub (money_amount a) (money_amount b)) = of_int (cents a - cents b) * 10 powi (- 2)"
    using assms by (subst dval_dsub)
      (simp_all add: money_amount_def dscale_def left_diff_distrib)
  then have "cents (mk_Money (dsub (money_amount a) (money_amount b))) = cents a - cents b"
    by (rule money.mk_of_grid)
  then show "cents (money_sub a b) = cents (mk_Money (dsub (money_amount a) (money_amount b)))"
    by simp
qed

lemma money_in_range:
  assumes "\<bar>dval d\<bar> < 10 ^ 25"
  shows "\<not> dquantize_raises (- 2) d"
proof -
  have "dval d < 10 ^ 25" "- dval d < 10 ^ 25"
    using assms by (simp_all only: abs_less_iff)
  then have "of_int (- (10 ^ 27)) \<le> dval d / 10 powi (- 2)"
    "dval d / 10 powi (- 2) \<le> of_int (10 ^ 27)" by simp_all
  then have "- (10 ^ 27) \<le> dsint (dquantize (- 2) d) \<and> dsint (dquantize (- 2) d) \<le> 10 ^ 27"
    unfolding dsint_dquantize by (rule rhe_between)
  then have "int (dquantize_coef (- 2) d) \<le> 10 ^ 27"
    by (simp add: dsint_def dquantize_def split: if_splits)
  then have "dquantize_coef (- 2) d < 10 ^ 28" by simp
  then show ?thesis using ndigits_le [of "dquantize_coef (- 2) d" 28]
    by (simp add: dquantize_raises_def)
qed

text \<open>
  The four comparison methods of \<open>Money\<close>, each as the source writes it over the amounts. The class
  order below is \<open>__lt__\<close> and \<open>__le__\<close>; the other two are its converses.
\<close>

definition money_lt :: "Money \<Rightarrow> Money \<Rightarrow> bool" where
  "money_lt a b = dlt (money_amount a) (money_amount b)"

definition money_le :: "Money \<Rightarrow> Money \<Rightarrow> bool" where
  "money_le a b = dle (money_amount a) (money_amount b)"

definition money_gt :: "Money \<Rightarrow> Money \<Rightarrow> bool" where
  "money_gt a b = dlt (money_amount b) (money_amount a)"

definition money_ge :: "Money \<Rightarrow> Money \<Rightarrow> bool" where
  "money_ge a b = dle (money_amount b) (money_amount a)"

lemma money_comparisons:
  "money_lt a b = (cents a < cents b)" "money_le a b = (cents a \<le> cents b)"
  "money_gt a b = (cents b < cents a)" "money_ge a b = (cents b \<le> cents a)"
  by (simp_all add: money_lt_def money_le_def money_gt_def money_ge_def dlt_dval dle_dval money.dval_amount)

instantiation Money :: linorder
begin

definition less_eq_Money :: "Money \<Rightarrow> Money \<Rightarrow> bool" where
  "less_eq_Money a b = money_le a b"

definition less_Money :: "Money \<Rightarrow> Money \<Rightarrow> bool" where
  "less_Money a b = money_lt a b"

lemma money_le_cents_raw: "((a :: Money) \<le> b) = (cents a \<le> cents b)"
  by (simp add: less_eq_Money_def money_comparisons)

lemma money_less_cents_raw: "((a :: Money) < b) = (cents a < cents b)"
  by (simp add: less_Money_def money_comparisons)

instance
  by standard (auto simp: money_le_cents_raw money_less_cents_raw intro: Money.expand)

end

lemma money_le_cents: "a \<le> b \<longleftrightarrow> cents a \<le> cents b"
  by (rule money_le_cents_raw)

lemma money_less_cents: "a < b \<longleftrightarrow> cents a < cents b"
  by (rule money_less_cents_raw)

section \<open>Price\<close>

datatype Price = Price (ticks: int)

definition price_amount :: "Price \<Rightarrow> decimal" where
  "price_amount p = grid_amount (- 4) (ticks p)"

definition mk_Price :: "decimal \<Rightarrow> Price" where
  "mk_Price d = Price (dsint (dquantize (- 4) d))"

interpretation price: quantized "- 4" mk_Price price_amount ticks
  by unfold_locales (auto simp: price_amount_def mk_Price_def intro: Price.expand)

definition price_mul :: "Price \<Rightarrow> decimal \<Rightarrow> Price" where
  "price_mul p factor = mk_Price (dmul (price_amount p) factor)"

text \<open>
  The four comparison methods of \<open>Price\<close>, each as the source writes it over the amounts. The class
  order below is \<open>__lt__\<close> and \<open>__le__\<close>; the other two are its converses.
\<close>

definition price_lt :: "Price \<Rightarrow> Price \<Rightarrow> bool" where
  "price_lt a b = dlt (price_amount a) (price_amount b)"

definition price_le :: "Price \<Rightarrow> Price \<Rightarrow> bool" where
  "price_le a b = dle (price_amount a) (price_amount b)"

definition price_gt :: "Price \<Rightarrow> Price \<Rightarrow> bool" where
  "price_gt a b = dlt (price_amount b) (price_amount a)"

definition price_ge :: "Price \<Rightarrow> Price \<Rightarrow> bool" where
  "price_ge a b = dle (price_amount b) (price_amount a)"

lemma price_comparisons:
  "price_lt a b = (ticks a < ticks b)" "price_le a b = (ticks a \<le> ticks b)"
  "price_gt a b = (ticks b < ticks a)" "price_ge a b = (ticks b \<le> ticks a)"
  by (simp_all add: price_lt_def price_le_def price_gt_def price_ge_def dlt_dval dle_dval price.dval_amount)

instantiation Price :: linorder
begin

definition less_eq_Price :: "Price \<Rightarrow> Price \<Rightarrow> bool" where
  "less_eq_Price a b = price_le a b"

definition less_Price :: "Price \<Rightarrow> Price \<Rightarrow> bool" where
  "less_Price a b = price_lt a b"

lemma price_le_ticks_raw: "((a :: Price) \<le> b) = (ticks a \<le> ticks b)"
  by (simp add: less_eq_Price_def price_comparisons)

lemma price_less_ticks_raw: "((a :: Price) < b) = (ticks a < ticks b)"
  by (simp add: less_Price_def price_comparisons)

instance
  by standard (auto simp: price_le_ticks_raw price_less_ticks_raw intro: Price.expand)

end

lemma price_le_ticks: "a \<le> b \<longleftrightarrow> ticks a \<le> ticks b"
  by (rule price_le_ticks_raw)

lemma price_less_ticks: "a < b \<longleftrightarrow> ticks a < ticks b"
  by (rule price_less_ticks_raw)

lemma dlt_price_amount: "dlt (price_amount a) (price_amount b) = (a < b)"
  by (simp add: price_less_ticks dlt_dval price.dval_amount)

text \<open>\<open>price.amount * shares\<close>: the notional of a whole number of shares, before quantizing.\<close>

definition price_times :: "Price \<Rightarrow> int \<Rightarrow> decimal" where
  "price_times p n = dmul (price_amount p) (dec_of_int n)"

lemma dval_price_times:
  assumes "\<bar>ticks p * n\<bar> < 10 ^ 28"
  shows "dval (price_times p n) = of_int (ticks p * n) * 10 powi (- 4)"
proof -
  have "nat \<bar>ticks p\<bar> * nat \<bar>n\<bar> = nat \<bar>ticks p * n\<bar>"
    by (simp add: abs_mult nat_mult_distrib)
  also have "\<dots> < 10 ^ 28" using assms by (simp add: nat_less_iff)
  finally have "nat \<bar>ticks p\<bar> * nat \<bar>n\<bar> < 10 ^ 28" .
  then have "dval (price_times p n) = dval (price_amount p) * dval (dec_of_int n)"
    unfolding price_times_def
    by (intro dval_dmul) (simp add: price_amount_def dec_of_int_def)
  then show ?thesis by (simp add: price.dval_amount)
qed

section \<open>Quantity\<close>

datatype Quantity = Quantity (shares: int)

text \<open>Text between single quotes, as the messages show a rejected input.\<close>

definition quoted :: "string \<Rightarrow> string" where
  "quoted s = [CHR 0x27] @ s @ [CHR 0x27]"

text \<open>
  \<open>Quantity.parse\<close>: malformed text, a NaN, a fraction and a negative count are errors. An
  infinity is equal to its own integral value, so \<open>int\<close> raises OverflowError; a signalling NaN
  raises InvalidOperation in \<open>to_integral_value\<close>.
\<close>

definition dec_is_integral :: "decimal \<Rightarrow> bool" where
  "dec_is_integral d = (0 \<le> dexp d \<or> dcoef d mod 10 ^ nat (- dexp d) = 0)"

definition quantity_parse :: "string \<Rightarrow> (Quantity, string) result py_call" where
  "quantity_parse s = (case py_decimal s of
     None \<Rightarrow> Returns (Err (quoted s @ '' is not a valid number''))
   | Some SignalNaN \<Rightarrow> Raises ''InvalidOperation''
   | Some QuietNaN \<Rightarrow> Returns (Err (quoted s @ '' is not a whole number of shares''))
   | Some (Infinite neg) \<Rightarrow> Raises ''OverflowError''
   | Some (Finite d) \<Rightarrow>
       if \<not> dec_is_integral d
       then Returns (Err (quoted s @ '' is not a whole number of shares''))
       else let n = dfloor d in
         if n < 0 then Returns (Err (quoted s @ '' must not be negative''))
         else Returns (Ok (Quantity n)))"

section \<open>Percentages and canonical text\<close>

definition pct_of :: "Money \<Rightarrow> decimal \<Rightarrow> Money" where
  "pct_of capital pct = mk_Money (dquot (dmul (money_amount capital) pct) (dec_of_int 100))"

definition to_canonical :: "decimal \<Rightarrow> string" where
  "to_canonical d = dformat_f d"

definition from_canonical :: "string \<Rightarrow> (decimal, string) result" where
  "from_canonical s = (let err = Err (quoted s @ '' is not a valid canonical decimal'') in
     if CHR ''e'' \<in> set (py_lower s) then err
     else (case py_decimal s of
         Some (Finite d) \<Rightarrow> Ok d
       | _ \<Rightarrow> err))"

section \<open>Evaluation on concrete amounts\<close>

lemmas decimal_eval = mk_Money_def mk_Price_def money_amount_def price_amount_def grid_amount_def
  dquantize_def dquantize_coef_def rdiv_he_def dsint_def dscale_def dec_of_int_def dmul_def
  dadd_def dsub_def dcopy_negate_def dminus_def dquot_def dfix_def ndigits.simps
  strip_zeros_numeral Let_def pct_of_def price_mul_def money_mul_def price_times_def
  dle_def dlt_def deq_def dfloor_def dfloordiv_def less_eq_Money_def less_Money_def
  less_eq_Price_def less_Price_def money_le_def money_lt_def price_le_def price_lt_def

section \<open>Properties\<close>

lemma dec_is_integral_iff: "dec_is_integral d \<longleftrightarrow> of_int (dfloor d) = dval d"
proof (cases "0 \<le> dexp d")
  case True
  then show ?thesis
    using powi_split [of 0 "dexp d"]
    by (simp add: dec_is_integral_def dfloor_def dval_def)
next
  case False
  let ?k = "nat (- dexp d)"
  have "(10 :: rat) powi dexp d = 1 / 10 ^ ?k" using False
    by (simp only: power_int_def if_False power_inverse inverse_eq_divide power_one_over)
  then have p: "dval d = of_int (dsint d) / 10 ^ ?k" by (simp only: dval_def times_divide_eq_right mult_1_right)
  have f: "dfloor d = dsint d div 10 ^ ?k" using False by (simp add: dfloor_def)
  have "dec_is_integral d \<longleftrightarrow> (10 :: nat) ^ ?k dvd dcoef d"
    using False by (simp add: dec_is_integral_def dvd_eq_mod_eq_0)
  also have "\<dots> \<longleftrightarrow> int (10 ^ ?k) dvd int (dcoef d)" by (simp only: of_nat_dvd_iff)
  also have "\<dots> \<longleftrightarrow> 10 ^ ?k dvd dsint d"
    by (cases "dneg d") (simp_all only: dsint_def if_True if_False dvd_minus_iff of_nat_power
        of_nat_numeral)
  also have "\<dots> \<longleftrightarrow> dsint d div 10 ^ ?k * 10 ^ ?k = dsint d"
    by (metis dvd_div_mult_self dvd_triv_right)
  also have "\<dots> \<longleftrightarrow> (of_int (dsint d div 10 ^ ?k * 10 ^ ?k) :: rat) = of_int (dsint d)"
    by (simp only: of_int_eq_iff)
  also have "\<dots> \<longleftrightarrow> of_int (dfloor d) = dval d"
    unfolding p f by (simp add: eq_divide_eq)
  finally show ?thesis .
qed

text \<open>
  A share count is read exactly when the text is a finite decimal whose value is that
  non-negative whole number; nothing is rounded on the way in.
\<close>

theorem quantity_parse_exact:
  "quantity_parse s = Returns (Ok q) \<longleftrightarrow>
     (\<exists>d. py_decimal s = Some (Finite d) \<and> dval d = of_int (shares q) \<and> 0 \<le> shares q)"
proof -
  have i: "dec_is_integral d \<and> dfloor d = n \<longleftrightarrow> dval d = of_int n" for d n
    unfolding dec_is_integral_iff by (auto simp: dfloor_floor)
  have "quantity_parse s = Returns (Ok q) \<longleftrightarrow>
      (\<exists>d. py_decimal s = Some (Finite d) \<and> dec_is_integral d \<and> dfloor d = shares q \<and> 0 \<le> shares q)"
    by (cases q) (auto simp: quantity_parse_def Let_def split: option.splits dec_value.splits if_splits)
  then show ?thesis by (auto simp: i [symmetric])
qed

text \<open>
  The text an amount is stored under is read back as the same number, for every decimal,
  whatever its exponent.
\<close>

theorem canonical_roundtrip:
  "\<exists>d'. from_canonical (to_canonical d) = Ok d' \<and> dval d' = dval d"
proof -
  have "py_lower (dformat_f d) = dformat_f d"
    using dformat_f_plain [of d] plain_char_facts(2) by (simp add: py_lower_def map_idI)
  moreover have "\<not> plain_char (CHR ''e'')" by (simp add: plain_char_def is_digit_def)
  then have "CHR ''e'' \<notin> set (dformat_f d)" using dformat_f_plain [of d] by metis
  ultimately have "CHR ''e'' \<notin> set (py_lower (dformat_f d))" by simp
  then show ?thesis
    by (simp add: from_canonical_def to_canonical_def py_decimal_dformat dval_dplain)
qed

text \<open>Texts for which \<open>Quantity.parse\<close> raises instead of returning an error.\<close>

lemma quantity_parse_raises:
  "quantity_parse ''Infinity'' = Raises ''OverflowError''" "quantity_parse ''sNaN'' = Raises ''InvalidOperation''"
  by code_simp+

end
