(* ===== verification/Retry.thy ===== *)
theory Retry
  imports Money
begin

text \<open>
  domain/retry.py: the delays before each retry. The retry loops that use them are in
  broker/alpaca_broker.py, market/alpaca_data.py and analysis/llm_client.py.
\<close>

record RetryPolicy =
  max_attempts :: int
  base_delay_s :: decimal
  max_delay_s :: decimal

definition backoff_delays :: "RetryPolicy \<Rightarrow> decimal list" where
  "backoff_delays policy =
     map (\<lambda>i. dmin (dmul (base_delay_s policy) (dec_of_int (2 ^ i))) (max_delay_s policy))
       [0..<nat (max_attempts policy - 1)]"

lemma length_backoff_delays [simp]: "length (backoff_delays policy) = nat (max_attempts policy - 1)"
  by (simp add: backoff_delays_def)

end
