(* ===== verification/Clock.thy ===== *)
theory Clock
  imports Prelude
begin

text \<open>
  domain/clock.py and the datetime arithmetic the program uses. Inside the engine every datetime
  is an aware UTC datetime, which is its instant. Datetimes that come from outside (the CLI's
  \<open>--expires-at\<close>, the archive's timestamps) may be naive or carry an offset; \<open>to_utc\<close>
  normalizes them.
\<close>

section \<open>Datetimes from outside\<close>

text \<open>
  A datetime with its wall-clock reading, in microseconds as if it were UTC, and its offset from
  UTC, if it has one.
\<close>

datatype py_datetime = Naive (wall: int) | Aware (wall: int) (offset: int)

definition replace_tzinfo_utc :: "py_datetime \<Rightarrow> py_datetime" where
  "replace_tzinfo_utc d = Aware (wall d) 0"

definition astimezone_utc :: "py_datetime \<Rightarrow> py_datetime" where
  "astimezone_utc d = (case d of Naive w \<Rightarrow> Aware w 0 | Aware w off \<Rightarrow> Aware (w - off) 0)"

definition to_utc :: "py_datetime \<Rightarrow> py_datetime" where
  "to_utc d = (case d of Naive w \<Rightarrow> replace_tzinfo_utc d | Aware w off \<Rightarrow> astimezone_utc d)"

text \<open>The instant a datetime names; a naive one is taken to be UTC.\<close>

definition instant :: "py_datetime \<Rightarrow> datetime" where
  "instant d = (case d of Naive w \<Rightarrow> w | Aware w off \<Rightarrow> w - off)"

lemma to_utc_normal_form: "to_utc d = Aware (instant d) 0"
  by (cases d) (simp_all add: to_utc_def instant_def replace_tzinfo_utc_def astimezone_utc_def)

lemma instant_to_utc [simp]: "instant (to_utc d) = instant d"
  by (simp add: to_utc_normal_form) (simp add: instant_def)

lemma to_utc_idem [simp]: "to_utc (to_utc d) = to_utc d"
  by (simp add: to_utc_normal_form) (simp add: instant_def)

section \<open>Clocks\<close>

text \<open>
  A clock reads the current instant off the outside world, which may move on as it is read.
  \<open>FixedClock\<close> always returns the same instant; \<open>SystemClock\<close> asks the operating system, whose
  answer \<open>now_utc\<close> is a parameter.
\<close>

type_synonym 'x Clock = "'x \<Rightarrow> datetime \<times> 'x"

definition system_clock :: "('x \<Rightarrow> datetime \<times> 'x) \<Rightarrow> 'x Clock" where
  "system_clock now_utc x = now_utc x"

record FixedClock =
  fixed_now :: datetime

definition fixed_clock_now :: "FixedClock \<Rightarrow> 'x Clock" where
  "fixed_clock_now c x = (fixed_now c, x)"

definition fixed_clock_advance :: "FixedClock \<Rightarrow> int \<Rightarrow> FixedClock" where
  "fixed_clock_advance c delta = \<lparr>fixed_now = fixed_now c + delta\<rparr>"

section \<open>Days\<close>

text \<open>\<open>value.date()\<close> of a UTC datetime, \<open>(a - b).days\<close>, and \<open>date.weekday()\<close> (Monday is 0).\<close>

definition utc_date :: "datetime \<Rightarrow> day" where
  "utc_date t = t div microseconds_per_day"

definition timedelta_days :: "int \<Rightarrow> int" where
  "timedelta_days delta = delta div microseconds_per_day"

definition weekday :: "day \<Rightarrow> int" where
  "weekday d = (d + 3) mod 7"

lemma utc_date_mono: "a \<le> b \<Longrightarrow> utc_date a \<le> utc_date b"
  by (simp add: utc_date_def zdiv_mono1)

lemma weekday_range: "0 \<le> weekday d \<and> weekday d \<le> 6"
  using pos_mod_bound [of 7 "d + 3"] pos_mod_sign [of 7 "d + 3"] by (simp add: weekday_def)

end
