(* ===== verification/Domain_Models.thy ===== *)
theory Domain_Models
  imports Money Clock
begin

text \<open>
  domain/models.py: the frozen records that mirror the tables of the ledger. Every record keeps
  the code's fields in the code's order, under a one-letter prefix per record; an optional field
  is an \<open>option\<close>, a tuple is a list, a timestamp is an instant.
\<close>

section \<open>Enumerations\<close>

datatype Side = Side_buy | Side_sell

datatype Action = Action_buy | Action_sell | Action_hold | Action_skip

datatype Origin = Origin_llm | Origin_rule_exit

datatype RuleCheck = RC_passed | RC_rejected

datatype OrderStatus = OS_recorded | OS_submitted | OS_partially_filled | OS_filled
  | OS_canceled | OS_rejected | OS_failed

datatype Approver = Approver_system | Approver_kyo

datatype ExitReason = ER_stop_loss | ER_partial_take_profit | ER_trailing_stop
  | ER_max_holding_days | ER_llm

text \<open>The values of the string enumerations, as they are stored and printed.\<close>

definition side_value :: "Side \<Rightarrow> string" where
  "side_value s = (case s of Side_buy \<Rightarrow> ''buy'' | Side_sell \<Rightarrow> ''sell'')"

definition action_value :: "Action \<Rightarrow> string" where
  "action_value a = (case a of Action_buy \<Rightarrow> ''buy'' | Action_sell \<Rightarrow> ''sell''
     | Action_hold \<Rightarrow> ''hold'' | Action_skip \<Rightarrow> ''skip'')"

definition origin_value :: "Origin \<Rightarrow> string" where
  "origin_value a = (case a of Origin_llm \<Rightarrow> ''llm'' | Origin_rule_exit \<Rightarrow> ''rule_exit'')"

definition rule_check_value :: "RuleCheck \<Rightarrow> string" where
  "rule_check_value c = (case c of RC_passed \<Rightarrow> ''passed'' | RC_rejected \<Rightarrow> ''rejected'')"

definition order_status_value :: "OrderStatus \<Rightarrow> string" where
  "order_status_value s = (case s of OS_recorded \<Rightarrow> ''recorded'' | OS_submitted \<Rightarrow> ''submitted''
     | OS_partially_filled \<Rightarrow> ''partially_filled'' | OS_filled \<Rightarrow> ''filled''
     | OS_canceled \<Rightarrow> ''canceled'' | OS_rejected \<Rightarrow> ''rejected'' | OS_failed \<Rightarrow> ''failed'')"

definition exit_reason_value :: "ExitReason \<Rightarrow> string" where
  "exit_reason_value r = (case r of ER_stop_loss \<Rightarrow> ''stop_loss''
     | ER_partial_take_profit \<Rightarrow> ''partial_take_profit'' | ER_trailing_stop \<Rightarrow> ''trailing_stop''
     | ER_max_holding_days \<Rightarrow> ''max_holding_days'' | ER_llm \<Rightarrow> ''llm'')"

section \<open>Records\<close>

record Mention =
  m_id :: string
  m_source_id :: string
  m_external_id :: string
  m_ticker :: string
  m_posted_at :: datetime
  m_text_excerpt :: string
  m_url :: "string option"
  m_raw_sha256 :: string

record MentionStats =
  ms_ticker :: string
  ms_first_seen_at :: datetime
  ms_last_seen_at :: datetime
  ms_mention_count :: nat
  ms_mention_count_last_14d :: nat
  ms_mention_count_prior_14d :: nat

record Evidence =
  e_ticker :: string
  e_stats :: MentionStats
  e_excerpts :: "string list"
  e_mention_ids :: "string list"

record Decision =
  d_id :: string
  d_cycle_id :: string
  d_decided_at :: datetime
  d_mode :: string
  d_ticker :: string
  d_action :: Action
  d_origin :: Origin
  d_confidence :: "decimal option"
  d_rationale :: string
  d_evidence_mention_ids :: "string list"
  d_llm_model :: "string option"
  d_prompt_sha256 :: "string option"
  d_response_sha256 :: "string option"
  d_rule_set_sha256 :: string
  d_rule_check :: RuleCheck
  d_rule_check_reason :: string
  d_proposed_notional :: "Money option"
  d_reference_price :: "Price option"

record Approval =
  a_id :: string
  a_decision_id :: string
  a_approver :: Approver
  a_approved_at :: datetime
  a_expires_at :: datetime

record Order =
  o_id :: string
  o_decision_id :: string
  o_approval_id :: string
  o_client_order_id :: string
  o_broker_order_id :: "string option"
  o_mode :: string
  o_side :: Side
  o_qty :: Quantity
  o_order_type :: string
  o_status :: OrderStatus
  o_submitted_at :: "datetime option"
  o_last_error :: "string option"

definition with_status :: "Order \<Rightarrow> OrderStatus \<Rightarrow> Order" where
  "with_status ord st = ord\<lparr>o_status := st\<rparr>"

record Fill =
  f_id :: string
  f_order_id :: string
  f_filled_at :: datetime
  f_qty :: Quantity
  f_price :: Price
  f_fee :: Money

record Position =
  p_ticker :: string
  p_qty :: Quantity
  p_avg_cost :: Price
  p_opened_at :: datetime
  p_high_watermark :: Price
  p_partial_tp_done :: bool

record Trade =
  t_id :: string
  t_ticker :: string
  t_opened_at :: datetime
  t_closed_at :: datetime
  t_entry_decision_id :: string
  t_exit_decision_ids :: "string list"
  t_exit_reason :: ExitReason
  t_realized_pnl :: Money
  t_fees :: Money
  t_holding_days :: int

record EquitySnapshot =
  s_snapshot_date :: day
  s_mode :: string
  s_cash :: Money
  s_positions_value :: Money
  s_equity :: Money
  s_peak_equity :: Money
  s_drawdown_pct :: decimal
  s_taken_at :: datetime

record ExitSignal =
  x_ticker :: string
  x_reason :: ExitReason
  x_fraction :: decimal
  x_trigger_price :: Price

section \<open>Trading modes\<close>

text \<open>config/mode.py's \<open>TradingMode\<close>, which the records store by its value.\<close>

datatype TradingMode = Mode_paper | Mode_live

definition mode_value :: "TradingMode \<Rightarrow> string" where
  "mode_value m = (case m of Mode_paper \<Rightarrow> ''paper'' | Mode_live \<Rightarrow> ''live'')"

text \<open>A stored value names its enumeration constant: the values are pairwise different.\<close>

lemma side_value_inject [simp]: "side_value a = side_value b \<longleftrightarrow> a = b"
  by (cases a; cases b) (simp_all add: side_value_def)

lemma order_status_value_inject [simp]: "order_status_value a = order_status_value b \<longleftrightarrow> a = b"
  by (cases a; cases b) (simp_all add: order_status_value_def)

lemma exit_reason_value_inject [simp]: "exit_reason_value a = exit_reason_value b \<longleftrightarrow> a = b"
  by (cases a; cases b) (simp_all add: exit_reason_value_def)

text \<open>Reports sort the exit reasons by their values.\<close>

instantiation ExitReason :: linorder
begin

definition less_eq_ExitReason :: "ExitReason \<Rightarrow> ExitReason \<Rightarrow> bool" where
  "less_eq_ExitReason a b = (exit_reason_value a \<le> exit_reason_value b)"

definition less_ExitReason :: "ExitReason \<Rightarrow> ExitReason \<Rightarrow> bool" where
  "less_ExitReason a b = (exit_reason_value a < exit_reason_value b)"

instance
  by standard
    (auto simp: less_eq_ExitReason_def less_ExitReason_def intro: antisym
      dest: order_antisym [of "exit_reason_value _"])

end

end
