(* ===== verification/Rules_Schema.thy ===== *)
theory Rules_Schema
  imports Domain_Models
begin

text \<open>
  rules/schema.py: the trading rules, the constraints their fields carry, the loading of the
  rules file, and the absolute limits derived from the capital. Reading the file, YAML and the
  coercion of a YAML value to the typed fields are done by code outside the program and are
  parameters of \<open>load_rules\<close>; the bounds on the fields are the program's own.
\<close>

section \<open>Rule sets\<close>

type_synonym RulesError = string

record PositionRules =
  max_notional_per_ticker_pct :: decimal
  max_concurrent_positions :: int
  max_holding_days :: int

record ExitRules =
  stop_loss_pct :: decimal
  partial_take_profit_pct :: decimal
  partial_take_profit_fraction :: decimal
  trailing_stop_pct :: decimal

record LossLimitRules =
  max_daily_loss_pct :: decimal
  max_weekly_loss_pct :: decimal
  max_drawdown_pct :: decimal

record EntryRules =
  min_price_usd :: decimal
  min_avg_daily_volume :: int
  excluded_tickers :: "string list"

record CostAssumptions =
  slippage_pct_per_side :: decimal
  commission_pct :: decimal
  commission_cap_usd :: "decimal option"
  commission_usd_per_order :: decimal
  fx_cost_pct_one_way :: decimal

record RuleSet =
  rs_approved_by :: string
  rs_approved_at :: string
  rs_capital_usd :: decimal
  rs_position :: PositionRules
  rs_exit :: ExitRules
  rs_loss_limits :: LossLimitRules
  rs_entry :: EntryRules
  rs_cost_assumptions :: CostAssumptions

section \<open>Field constraints\<close>

definition gt :: "decimal \<Rightarrow> int \<Rightarrow> bool" where
  "gt d n = dlt (dec_of_int n) d"

definition ge :: "decimal \<Rightarrow> int \<Rightarrow> bool" where
  "ge d n = dle (dec_of_int n) d"

definition lt :: "decimal \<Rightarrow> int \<Rightarrow> bool" where
  "lt d n = dlt d (dec_of_int n)"

definition le :: "decimal \<Rightarrow> int \<Rightarrow> bool" where
  "le d n = dle d (dec_of_int n)"

lemma bound_values [simp]:
  "gt d n \<longleftrightarrow> of_int n < dval d" "ge d n \<longleftrightarrow> of_int n \<le> dval d"
  "lt d n \<longleftrightarrow> dval d < of_int n" "le d n \<longleftrightarrow> dval d \<le> of_int n"
  by (simp_all add: gt_def ge_def lt_def le_def dlt_dval dle_dval)

definition Pct_ok :: "decimal \<Rightarrow> bool" where
  "Pct_ok d = (gt d 0 \<and> le d 100)"

definition position_rules_ok :: "PositionRules \<Rightarrow> bool" where
  "position_rules_ok p = (Pct_ok (max_notional_per_ticker_pct p)
     \<and> 1 \<le> max_concurrent_positions p \<and> 1 \<le> max_holding_days p)"

definition exit_rules_ok :: "ExitRules \<Rightarrow> bool" where
  "exit_rules_ok x = (gt (stop_loss_pct x) (- 100) \<and> lt (stop_loss_pct x) 0
     \<and> Pct_ok (partial_take_profit_pct x)
     \<and> gt (partial_take_profit_fraction x) 0 \<and> lt (partial_take_profit_fraction x) 1
     \<and> Pct_ok (trailing_stop_pct x))"

definition loss_limit_rules_ok :: "LossLimitRules \<Rightarrow> bool" where
  "loss_limit_rules_ok l = (Pct_ok (max_daily_loss_pct l) \<and> Pct_ok (max_weekly_loss_pct l)
     \<and> Pct_ok (max_drawdown_pct l))"

definition entry_rules_ok :: "EntryRules \<Rightarrow> bool" where
  "entry_rules_ok e = (gt (min_price_usd e) 0 \<and> 0 \<le> min_avg_daily_volume e)"

definition cost_assumptions_ok :: "CostAssumptions \<Rightarrow> bool" where
  "cost_assumptions_ok c = (ge (slippage_pct_per_side c) 0 \<and> le (slippage_pct_per_side c) 100
     \<and> ge (commission_pct c) 0 \<and> le (commission_pct c) 100
     \<and> (case commission_cap_usd c of None \<Rightarrow> True | Some cap \<Rightarrow> gt cap 0)
     \<and> ge (commission_usd_per_order c) 0
     \<and> ge (fx_cost_pct_one_way c) 0 \<and> le (fx_cost_pct_one_way c) 100)"

definition rule_set_ok :: "RuleSet \<Rightarrow> bool" where
  "rule_set_ok r = (gt (rs_capital_usd r) 0 \<and> position_rules_ok (rs_position r)
     \<and> exit_rules_ok (rs_exit r) \<and> loss_limit_rules_ok (rs_loss_limits r)
     \<and> entry_rules_ok (rs_entry r) \<and> cost_assumptions_ok (rs_cost_assumptions r))"

text \<open>The validator that turns an empty commission cap into no cap.\<close>

definition empty_string_is_none :: "string \<Rightarrow> string option" where
  "empty_string_is_none s = (if py_strip s = '''' then None else Some s)"

section \<open>Loading\<close>

text \<open>
  \<open>text\<close> is the file's content (\<open>None\<close> when it cannot be read), \<open>safe_load\<close> the YAML parser
  (\<open>None\<close> on a YAML error), \<open>as_dict\<close> whether the parsed value is a mapping, and \<open>coerce\<close>
  pydantic's reading of the mapping's fields, with its formatted message on a missing, unknown or
  ill-typed key.
\<close>

definition load_rules :: "string option \<Rightarrow> (string \<Rightarrow> 'y option) \<Rightarrow> ('y \<Rightarrow> bool)
    \<Rightarrow> ('y \<Rightarrow> (RuleSet, string) result) \<Rightarrow> (RuleSet \<Rightarrow> string) \<Rightarrow> (RuleSet, RulesError) result" where
  "load_rules file_text safe_load as_dict coerce bounds_message = (case file_text of
     None \<Rightarrow> Err ''could not read rules file''
   | Some txt \<Rightarrow> (case safe_load txt of
       None \<Rightarrow> Err ''rules file is not valid YAML''
     | Some data \<Rightarrow>
         if \<not> as_dict data then Err ''rules file must contain a mapping of keys to values''
         else (case coerce data of
             Err msg \<Rightarrow> Err (''invalid rules: '' @ msg)
           | Ok rules \<Rightarrow> if rule_set_ok rules then Ok rules
               else Err (''invalid rules: '' @ bounds_message rules))))"

lemma load_rules_ok: "load_rules file_text safe_load as_dict coerce msg = Ok rules \<Longrightarrow> rule_set_ok rules"
  by (auto simp: load_rules_def split: option.splits result.splits if_splits)

section \<open>Derived limits\<close>

record DerivedLimits =
  lim_max_notional_per_ticker :: Money
  lim_max_daily_loss :: Money
  lim_max_weekly_loss :: Money
  lim_max_drawdown_pct :: decimal

definition derive_limits :: "RuleSet \<Rightarrow> DerivedLimits" where
  "derive_limits rules = (let capital = mk_Money (rs_capital_usd rules) in
     \<lparr>lim_max_notional_per_ticker =
        pct_of capital (max_notional_per_ticker_pct (rs_position rules)),
      lim_max_daily_loss = pct_of capital (max_daily_loss_pct (rs_loss_limits rules)),
      lim_max_weekly_loss = pct_of capital (max_weekly_loss_pct (rs_loss_limits rules)),
      lim_max_drawdown_pct = max_drawdown_pct (rs_loss_limits rules)\<rparr>)"

text \<open>
  A percentage of an amount is the exact product divided by a hundred and rounded once, as long
  as the product of the coefficients fits the context.
\<close>

definition pct_fits :: "Money \<Rightarrow> decimal \<Rightarrow> bool" where
  "pct_fits capital pct = (nat \<bar>cents capital\<bar> * dcoef pct < 10 ^ 28)"

lemma cents_pct_of:
  assumes "pct_fits capital pct"
  shows "cents (pct_of capital pct) = rhe (of_int (cents capital) * dval pct / 100)"
proof -
  let ?p = "dmul (money_amount capital) pct"
  have small: "dcoef (money_amount capital) * dcoef pct < 10 ^ 28"
    using assms by (simp add: pct_fits_def money_amount_def)
  have p: "dval ?p = dval (money_amount capital) * dval pct" using small by (rule dval_dmul)
  have "dcoef ?p < 10 ^ 28" using small by (simp add: dmul_def)
  then have "dval (dquot ?p (dec_of_int 100)) = dval (money_amount capital) * dval pct / 100"
    by (simp add: dquot_hundred p)
  then have "dval (dquot ?p (dec_of_int 100)) / 10 powi (- 2)
      = of_int (cents capital) * dval pct / 100"
    by (simp only: money.dval_amount) simp
  then show ?thesis by (simp only: pct_of_def money.units_mk_rhe)
qed

lemma pct_of_bounds:
  assumes "pct_fits capital pct" "Pct_ok pct" "0 \<le> cents capital"
  shows "0 \<le> cents (pct_of capital pct) \<and> cents (pct_of capital pct) \<le> cents capital"
proof -
  have p: "0 < dval pct" "dval pct \<le> 100" using assms(2) by (simp_all add: Pct_ok_def)
  have c: "(0 :: rat) \<le> of_int (cents capital)" using assms(3) by simp
  have "of_int 0 \<le> of_int (cents capital) * dval pct / 100" using p c by simp
  moreover have "of_int (cents capital) * dval pct / 100 \<le> of_int (cents capital)"
    using mult_left_mono [OF p(2) c] by simp
  ultimately show ?thesis unfolding cents_pct_of [OF assms(1)] by (rule rhe_between)
qed

section \<open>The shipped rules\<close>

text \<open>rules/trading-rules.yaml as it stands in the repository, as a concrete rule set.\<close>

definition shipped_rules :: RuleSet where
  "shipped_rules =
    \<lparr>rs_approved_by = ''kyo'', rs_approved_at = ''2026-09-17'', rs_capital_usd = Dec False 2500 0,
     rs_position = \<lparr>max_notional_per_ticker_pct = Dec False 15 0, max_concurrent_positions = 5,
       max_holding_days = 120\<rparr>,
     rs_exit = \<lparr>stop_loss_pct = Dec True 15 0, partial_take_profit_pct = Dec False 30 0,
       partial_take_profit_fraction = Dec False 5 (- 1), trailing_stop_pct = Dec False 20 0\<rparr>,
     rs_loss_limits = \<lparr>max_daily_loss_pct = Dec False 3 0, max_weekly_loss_pct = Dec False 6 0,
       max_drawdown_pct = Dec False 15 0\<rparr>,
     rs_entry = \<lparr>min_price_usd = Dec False 2 0, min_avg_daily_volume = 200000,
       excluded_tickers = []\<rparr>,
     rs_cost_assumptions = \<lparr>slippage_pct_per_side = Dec False 5 (- 1),
       commission_pct = Dec False 0 0, commission_cap_usd = None,
       commission_usd_per_order = Dec False 0 0, fx_cost_pct_one_way = Dec False 10 (- 1)\<rparr>\<rparr>"

lemma shipped_rules_ok: "rule_set_ok shipped_rules"
  by (simp add: shipped_rules_def rule_set_ok_def position_rules_ok_def exit_rules_ok_def
      loss_limit_rules_ok_def entry_rules_ok_def cost_assumptions_ok_def Pct_ok_def dval_def dsint_def)

section \<open>Properties\<close>

definition limits_fit :: "RuleSet \<Rightarrow> bool" where
  "limits_fit rules = (let capital = mk_Money (rs_capital_usd rules) in
     pct_fits capital (max_notional_per_ticker_pct (rs_position rules))
     \<and> pct_fits capital (max_daily_loss_pct (rs_loss_limits rules))
     \<and> pct_fits capital (max_weekly_loss_pct (rs_loss_limits rules)))"

text \<open>
  For every rule set the loader accepts, each derived limit is non-negative and at most the
  capital, and it is the exact percentage of the capital rounded once to the cent.
\<close>

theorem derived_limits_bounded:
  assumes ok: "rule_set_ok rules" and fits: "limits_fit rules"
    and cap: "capital = cents (mk_Money (rs_capital_usd rules))"
    and lims: "dl = derive_limits rules"
  shows "0 \<le> cents (lim_max_notional_per_ticker dl)
      \<and> cents (lim_max_notional_per_ticker dl) \<le> capital
      \<and> 0 \<le> cents (lim_max_daily_loss dl) \<and> cents (lim_max_daily_loss dl) \<le> capital
      \<and> 0 \<le> cents (lim_max_weekly_loss dl) \<and> cents (lim_max_weekly_loss dl) \<le> capital
      \<and> cents (lim_max_notional_per_ticker dl)
          = rhe (of_int capital * dval (max_notional_per_ticker_pct (rs_position rules)) / 100)"
proof -
  have "of_int 0 * 10 powi (- 2) \<le> dval (rs_capital_usd rules)"
    using ok by (simp add: rule_set_ok_def)
  then have c: "0 \<le> cents (mk_Money (rs_capital_usd rules))" by (rule money.mk_ge_grid)
  have p: "Pct_ok (max_notional_per_ticker_pct (rs_position rules))"
    "Pct_ok (max_daily_loss_pct (rs_loss_limits rules))"
    "Pct_ok (max_weekly_loss_pct (rs_loss_limits rules))"
    using ok by (simp_all only: rule_set_ok_def position_rules_ok_def loss_limit_rules_ok_def)
  have f: "pct_fits (mk_Money (rs_capital_usd rules)) (max_notional_per_ticker_pct (rs_position rules))"
    "pct_fits (mk_Money (rs_capital_usd rules)) (max_daily_loss_pct (rs_loss_limits rules))"
    "pct_fits (mk_Money (rs_capital_usd rules)) (max_weekly_loss_pct (rs_loss_limits rules))"
    using fits by (simp_all only: limits_fit_def Let_def)
  show ?thesis
    using pct_of_bounds [OF f(1) p(1) c] pct_of_bounds [OF f(2) p(2) c]
      pct_of_bounds [OF f(3) p(3) c] cents_pct_of [OF f(1)]
    by (simp only: lims derive_limits_def Let_def DerivedLimits.simps cap simp_thms)
qed

lemma shipped_capital: "mk_Money (rs_capital_usd shipped_rules) = Money 250000"
  by (simp add: shipped_rules_def decimal_eval)

lemma shipped_limits_fit: "limits_fit shipped_rules"
  unfolding limits_fit_def Let_def shipped_capital
  by (simp add: pct_fits_def shipped_rules_def)

theorem derived_limits_bounded_witness:
  "0 \<le> cents (lim_max_daily_loss (derive_limits shipped_rules))
    \<and> cents (lim_max_daily_loss (derive_limits shipped_rules)) \<le> 250000"
  using derived_limits_bounded [OF shipped_rules_ok shipped_limits_fit refl refl]
  by (simp only: shipped_capital Money.sel simp_thms)

lemma shipped_limits:
  "derive_limits shipped_rules = \<lparr>lim_max_notional_per_ticker = Money 37500,
     lim_max_daily_loss = Money 7500, lim_max_weekly_loss = Money 15000,
     lim_max_drawdown_pct = Dec False 15 0\<rparr>"
proof -
  have p: "pct_of (Money 250000) (Dec False n 0) = Money (2500 * int n)" if "n \<le> 100" for n
  proof (rule Money.expand)
    have f: "pct_fits (Money 250000) (Dec False n 0)" using that by (simp add: pct_fits_def)
    have "of_int 250000 * dval (Dec False n 0) / 100 = of_int (2500 * int n)"
      by (simp add: dval_def dsint_def)
    then show "cents (pct_of (Money 250000) (Dec False n 0)) = cents (Money (2500 * int n))"
      by (simp only: cents_pct_of [OF f] Money.sel rhe_of_int)
  qed
  show ?thesis
    unfolding derive_limits_def Let_def shipped_capital
    by (simp add: shipped_rules_def p)
qed

end
