(* ===== verification/Loss_Limits.thy ===== *)
theory Loss_Limits
  imports Rules_Schema
begin

text \<open>
  rules/loss_limits.py: the trading day and week in New York, and the daily loss, weekly loss and
  drawdown checks that trip the kill switch. The offset of New York from UTC at an instant comes
  from the time zone database, which is a parameter.
\<close>

section \<open>Breaches\<close>

datatype LossKind = Kind_daily | Kind_weekly | Kind_drawdown

text \<open>An observed value or a limit: an amount, or a percentage for the drawdown.\<close>

datatype loss_measure = Amount Money | Percent decimal

record LossLimitBreach =
  br_kind :: LossKind
  br_observed :: loss_measure
  br_limit :: loss_measure
  br_reason :: string

section \<open>The trading calendar\<close>

definition trading_day :: "(datetime \<Rightarrow> int) \<Rightarrow> datetime \<Rightarrow> day" where
  "trading_day ny_offset now_utc = utc_date (now_utc + ny_offset now_utc)"

definition trading_week_start :: "(datetime \<Rightarrow> int) \<Rightarrow> datetime \<Rightarrow> day" where
  "trading_week_start ny_offset now_utc =
     (let d = trading_day ny_offset now_utc in d - weekday d)"

lemma trading_week_start_monday: "weekday (trading_week_start ny now) = 0"
proof -
  have "(d - (d + 3) mod 7 + 3) mod 7 = 0" for d :: int by presburger
  then show ?thesis by (simp add: trading_week_start_def weekday_def Let_def)
qed

lemma trading_week_start_range:
  "trading_week_start ny now \<le> trading_day ny now \<and> trading_day ny now < trading_week_start ny now + 7"
  using weekday_range [of "trading_day ny now"] by (auto simp: trading_week_start_def Let_def)

section \<open>The checks\<close>

definition drawdown_of :: "Money \<Rightarrow> Money \<Rightarrow> decimal" where
  "drawdown_of peak_equity equity =
     dmul (dquot (dsub (money_amount peak_equity) (money_amount equity)) (money_amount peak_equity))
       (dec_of_int 100)"

definition money_text :: "Money \<Rightarrow> string" where
  "money_text m = dstr (money_amount m)"

definition loss_reached :: "Money \<Rightarrow> Money \<Rightarrow> bool" where
  "loss_reached amt limit = dle (money_amount amt) (dminus (money_amount limit))"

definition evaluate :: "DerivedLimits \<Rightarrow> Money \<Rightarrow> Money \<Rightarrow> Money \<Rightarrow> Money \<Rightarrow> Money
    \<Rightarrow> LossLimitBreach option" where
  "evaluate limits realized_today unrealized_now realized_week equity peak_equity =
    (let daily_total = money_add realized_today unrealized_now in
     if loss_reached daily_total (lim_max_daily_loss limits) then
       Some \<lparr>br_kind = Kind_daily, br_observed = Amount daily_total,
         br_limit = Amount (lim_max_daily_loss limits),
         br_reason = ''daily P&L '' @ money_text daily_total @ '' <= -''
           @ money_text (lim_max_daily_loss limits)
           @ '' (realized '' @ money_text realized_today
           @ '' + unrealized '' @ money_text unrealized_now @ '')''\<rparr>
     else let weekly_total = money_add realized_week unrealized_now in
     if loss_reached weekly_total (lim_max_weekly_loss limits) then
       Some \<lparr>br_kind = Kind_weekly, br_observed = Amount weekly_total,
         br_limit = Amount (lim_max_weekly_loss limits),
         br_reason = ''weekly P&L '' @ money_text weekly_total @ '' <= -''
           @ money_text (lim_max_weekly_loss limits)
           @ '' (realized '' @ money_text realized_week
           @ '' + unrealized '' @ money_text unrealized_now @ '')''\<rparr>
     else if dlt (dec_of_int 0) (money_amount peak_equity) then
       let drawdown_pct = drawdown_of peak_equity equity in
       if dle (lim_max_drawdown_pct limits) drawdown_pct then
         Some \<lparr>br_kind = Kind_drawdown, br_observed = Percent drawdown_pct,
           br_limit = Percent (lim_max_drawdown_pct limits),
           br_reason = ''drawdown '' @ dstr drawdown_pct @ ''% >= ''
             @ dstr (lim_max_drawdown_pct limits) @ ''% (peak '' @ money_text peak_equity
             @ '' equity '' @ money_text equity @ '')''\<rparr>
       else None
     else None)"

text \<open>
  The amounts the program holds fit the context, or their construction would have raised;
  within it, the comparisons read as comparisons of cents.
\<close>

definition money_fits :: "Money \<Rightarrow> bool" where
  "money_fits m = (nat \<bar>cents m\<bar> < 10 ^ 28)"

lemma loss_reached_cents:
  "money_fits limit \<Longrightarrow> loss_reached amt limit \<longleftrightarrow> cents amt \<le> - cents limit"
proof -
  assume "money_fits limit"
  then have "dval (dminus (money_amount limit)) = of_int (- cents limit) * 10 powi (- 2)"
    by (subst dval_dminus) (simp_all add: money_fits_def money_amount_def)
  then have "loss_reached amt limit \<longleftrightarrow>
      of_int (cents amt) * (10 :: rat) powi (- 2) \<le> of_int (- cents limit) * 10 powi (- 2)"
    by (simp only: loss_reached_def dle_dval money.dval_amount)
  also have "\<dots> \<longleftrightarrow> cents amt \<le> - cents limit"
    by (simp only: mult_le_cancel_right_pos powi10_pos of_int_le_iff)
  finally show ?thesis .
qed

lemma evaluate_kind [outcome]:
  "evaluate limits rt un rw eq pk = Some b \<Longrightarrow> br_kind b =
    (if loss_reached (money_add rt un) (lim_max_daily_loss limits) then Kind_daily
     else if loss_reached (money_add rw un) (lim_max_weekly_loss limits) then Kind_weekly
     else Kind_drawdown)"
  by (auto simp: evaluate_def Let_def split: if_splits)

lemma evaluate_None_iff:
  "evaluate limits rt un rw eq pk = None \<longleftrightarrow>
    \<not> loss_reached (money_add rt un) (lim_max_daily_loss limits)
    \<and> \<not> loss_reached (money_add rw un) (lim_max_weekly_loss limits)
    \<and> (0 < cents pk \<longrightarrow> dval (drawdown_of pk eq) < dval (lim_max_drawdown_pct limits))"
  by (auto simp: evaluate_def Let_def dlt_dval dle_dval money.dval_amount)

text \<open>A drawdown that reaches the limit exactly is never rounded below it.\<close>

lemma drawdown_of_reaches:
  assumes pk: "0 < cents pk" and eq: "cents eq < cents pk" and fit: "\<bar>cents pk - cents eq\<bar> < 10 ^ 28"
    and lim: "dcoef l \<le> 10 ^ 27" "0 \<le> dval l"
    and reach: "dval l * of_int (cents pk) \<le> of_int (cents pk - cents eq) * 100"
  shows "dval l \<le> dval (drawdown_of pk eq)"
proof -
  let ?a = "dsub (money_amount pk) (money_amount eq)" and ?b = "money_amount pk"
  let ?n = "dsint l" and ?t = "dexp l"
  have "dscale (- 2) (money_amount pk) - dscale (- 2) (money_amount eq) = cents pk - cents eq"
    by (simp add: money_amount_def dscale_def)
  then have a: "dval ?a = of_int (cents pk - cents eq) * 10 powi (- 2)"
    using fit by (subst dval_dsub)
      (simp_all only: money.dval_amount money.dexp_amount min.idem left_diff_distrib of_int_diff)
  have b: "dval ?b = of_int (cents pk) * 10 powi (- 2)" by (rule money.dval_amount)
  have n: "?n \<le> 10 ^ 27"
  proof -
    have "?n \<le> int (dcoef l)" by (simp add: dsint_def)
    also have "\<dots> \<le> int (10 ^ 27)" using lim(1) by (simp only: of_nat_le_iff)
    finally show ?thesis by simp
  qed
  have l: "dval l = of_int ?n * 10 powi ?t" by (simp add: dval_def)
  have pos: "0 < dval ?a" "0 < dval ?b"
    unfolding a b using pk eq by (simp_all only: zero_less_mult_iff powi10_pos of_int_0_less_iff) auto
  have "dval ?a / dval ?b = of_int (cents pk - cents eq) / of_int (cents pk)"
    unfolding a b by (rule mult_divide_mult_cancel_right) simp
  moreover have "dval l / 100 \<le> of_int (cents pk - cents eq) / of_int (cents pk)"
    using reach pk by (simp add: pos_le_divide_eq)
  moreover have "dval l / 100 = of_int ?n * 10 powi (?t - 2)" by (simp add: l powi10_diff)
  ultimately have "of_int ?n * 10 powi (?t - 2) \<le> dval ?a / dval ?b" by simp
  then have q: "of_int ?n * 10 powi (?t - 2) \<le> dval (dquot ?a ?b)"
    using pos n by (intro dquot_ge_grid)
  let ?m = "Dec (dneg (dquot ?a ?b) \<noteq> dneg (dec_of_int 100))
      (dcoef (dquot ?a ?b) * dcoef (dec_of_int 100)) (dexp (dquot ?a ?b) + dexp (dec_of_int 100))"
  have m: "dval ?m = dval (dquot ?a ?b) * 100"
    by (simp only: dval_raw_product dval_of_int of_int_numeral)
  have "of_int ?n * 10 powi (?t - 2) * 100 \<le> dval ?m"
    unfolding m using q by (rule mult_right_mono) simp
  then have ml: "of_int ?n * 10 powi ?t \<le> dval ?m" by (simp add: powi10_diff)
  obtain d where "dquot ?a ?b = dfix d" "\<not> dneg d" using dquot_as_dfix [OF pos] by metis
  then have sgn: "\<not> dneg (dquot ?a ?b)" by (simp add: dneg_dfix)
  have "\<not> dneg ?m" using sgn by (simp only: decimal.sel) (simp add: dec_of_int_def)
  then have "of_int ?n * 10 powi ?t \<le> dval (dfix ?m)"
    by (rule dfix_ge_grid [OF ml n])
  then show ?thesis by (simp only: l drawdown_of_def dmul_def)
qed

section \<open>Properties\<close>

text \<open>
  C16: a check that stays silent is safe. When \<open>evaluate\<close> reports no breach, the day's loss and
  the week's loss, realized and unrealized together, are strictly inside their limits to the cent,
  and the exact drawdown from the peak, before any rounding, is strictly inside its limit.
\<close>

theorem evaluate_silent_is_safe:
  assumes "evaluate limits realized_today unrealized_now realized_week equity peak = None"
    and "money_fits (lim_max_daily_loss limits)" "money_fits (lim_max_weekly_loss limits)"
    and "0 \<le> dval (lim_max_drawdown_pct limits)" "dcoef (lim_max_drawdown_pct limits) \<le> 10 ^ 27"
    and "\<bar>cents peak - cents equity\<bar> < 10 ^ 28"
  shows "- cents (lim_max_daily_loss limits) < cents realized_today + cents unrealized_now
    \<and> - cents (lim_max_weekly_loss limits) < cents realized_week + cents unrealized_now
    \<and> (cents equity < cents peak \<and> 0 < cents peak \<longrightarrow>
         of_int (cents peak - cents equity) / of_int (cents peak) * 100
           < dval (lim_max_drawdown_pct limits))"
proof (intro conjI impI)
  have n: "\<not> loss_reached (money_add realized_today unrealized_now) (lim_max_daily_loss limits)"
    "\<not> loss_reached (money_add realized_week unrealized_now) (lim_max_weekly_loss limits)"
    "0 < cents peak \<longrightarrow> dval (drawdown_of peak equity) < dval (lim_max_drawdown_pct limits)"
    using assms(1) unfolding evaluate_None_iff by blast+
  show "- cents (lim_max_daily_loss limits) < cents realized_today + cents unrealized_now"
    using n(1) by (simp add: loss_reached_cents [OF assms(2)] not_le)
  show "- cents (lim_max_weekly_loss limits) < cents realized_week + cents unrealized_now"
    using n(2) by (simp add: loss_reached_cents [OF assms(3)] not_le)
  assume down: "cents equity < cents peak \<and> 0 < cents peak"
  show "of_int (cents peak - cents equity) / of_int (cents peak) * 100
      < dval (lim_max_drawdown_pct limits)"
  proof (rule ccontr)
    assume "\<not> ?thesis"
    then have "dval (lim_max_drawdown_pct limits) * of_int (cents peak)
        \<le> of_int (cents peak - cents equity) * 100"
      using down by (simp add: not_less pos_le_divide_eq)
    then have "dval (lim_max_drawdown_pct limits) \<le> dval (drawdown_of peak equity)"
      using down assms(4-6) by (intro drawdown_of_reaches) simp_all
    then show False using n(3) down by simp
  qed
qed

theorem evaluate_silent_is_safe_witness:
  "- cents (Money 7500) < cents (Money (- 3000)) + cents (Money (- 1000))"
proof -
  have e: "evaluate (derive_limits shipped_rules) (Money (- 3000)) (Money (- 1000)) (Money (- 9000))
      (Money 250000) (Money 250000) = None"
    unfolding shipped_limits by (simp add: evaluate_def loss_reached_def drawdown_of_def decimal_eval)
  show ?thesis
    using evaluate_silent_is_safe [OF e]
    by (simp add: shipped_limits money_fits_def dval_def dsint_def)
qed

text \<open>
  A breach is reported under the first limit reached, in the order daily, weekly, drawdown,
  and only when that limit is reached.
\<close>

theorem evaluate_first_limit:
  assumes "evaluate limits realized_today unrealized_now realized_week equity peak = Some breach"
    and "money_fits (lim_max_daily_loss limits)" "money_fits (lim_max_weekly_loss limits)"
  shows "br_kind breach =
     (if cents realized_today + cents unrealized_now \<le> - cents (lim_max_daily_loss limits)
      then Kind_daily
      else if cents realized_week + cents unrealized_now \<le> - cents (lim_max_weekly_loss limits)
      then Kind_weekly else Kind_drawdown)
    \<and> (br_kind breach = Kind_drawdown \<longrightarrow> 0 < cents peak
        \<and> dval (lim_max_drawdown_pct limits) \<le> dval (drawdown_of peak equity))"
proof -
  note k = evaluate_kind [OF assms(1)]
  have d: "0 < cents peak \<and> dval (lim_max_drawdown_pct limits) \<le> dval (drawdown_of peak equity)"
    if "br_kind breach = Kind_drawdown"
    using that k assms(1) evaluate_None_iff [of limits realized_today unrealized_now realized_week
        equity peak] by (auto simp: not_less split: if_splits)
  show ?thesis
    using k d by (simp add: loss_reached_cents [OF assms(2)] loss_reached_cents [OF assms(3)])
qed

theorem evaluate_first_limit_witness:
  "\<exists>b. evaluate (derive_limits shipped_rules) (Money (- 7000)) (Money (- 500)) (Money (- 15000))
      (Money 200000) (Money 250000) = Some b \<and> br_kind b = Kind_daily"
proof -
  obtain b where e: "evaluate (derive_limits shipped_rules) (Money (- 7000)) (Money (- 500))
      (Money (- 15000)) (Money 200000) (Money 250000) = Some b"
    using evaluate_None_iff [of "derive_limits shipped_rules" "Money (- 7000)" "Money (- 500)"
        "Money (- 15000)" "Money 200000" "Money 250000"]
    by (cases "evaluate (derive_limits shipped_rules) (Money (- 7000)) (Money (- 500))
      (Money (- 15000)) (Money 200000) (Money 250000)")
      (simp_all add: loss_reached_cents shipped_limits money_fits_def)
  then show ?thesis
    using evaluate_first_limit [OF e] by (simp add: shipped_limits money_fits_def)
qed

end
