(* ===== verification/Entry_Checks.thy ===== *)
theory Entry_Checks
  imports Loss_Limits
begin

text \<open>
  rules/entry_checks.py: the checks a buy candidate has to pass, in the code's order, and the
  sizing of the plan that results. The price check guards the division: a rule set's minimum
  price is positive, so a zero price never reaches it.
\<close>

record EntryPlan =
  ep_ticker :: string
  ep_qty :: Quantity
  ep_notional :: Money
  ep_limit :: Money
  ep_reference_price :: Price

record RuleRejection =
  rej_ticker :: string
  rej_code :: string
  rej_reason :: string

definition reject :: "string \<Rightarrow> string \<Rightarrow> string \<Rightarrow> (EntryPlan, RuleRejection) result" where
  "reject ticker code reason =
     Err \<lparr>rej_ticker = ticker, rej_code = code, rej_reason = reason\<rparr>"

definition max_shares :: "Money \<Rightarrow> Price \<Rightarrow> int" where
  "max_shares limit price = dfloordiv (money_amount limit) (price_amount price)"

definition check_entry :: "string \<Rightarrow> RuleSet \<Rightarrow> DerivedLimits \<Rightarrow> string list \<Rightarrow> bool \<Rightarrow> Price \<Rightarrow> int
    \<Rightarrow> LossLimitBreach option \<Rightarrow> (EntryPlan, RuleRejection) result" where
  "check_entry ticker rules limits holdings market_open latest_price avg_volume loss_state =
    (if ticker \<in> set (excluded_tickers (rs_entry rules)) then
       reject ticker ''excluded_ticker'' (ticker @ '' is in entry.excluded_tickers'')
     else if ticker \<in> set holdings then
       reject ticker ''already_held'' (ticker @ '' is already held'')
     else if max_concurrent_positions (rs_position rules) \<le> int (length holdings) then
       reject ticker ''max_concurrent_positions''
         (''holdings '' @ show_nat (length holdings) @ '' >= max_concurrent_positions ''
           @ show_int (max_concurrent_positions (rs_position rules)))
     else if \<not> market_open then
       reject ticker ''market_closed'' ''market is not open''
     else case loss_state of
       Some breach \<Rightarrow> reject ticker ''loss_limit_reached'' (br_reason breach)
     | None \<Rightarrow>
       if dlt (price_amount latest_price) (min_price_usd (rs_entry rules)) then
         reject ticker ''min_price''
           (''price '' @ dstr (price_amount latest_price) @ '' < min_price_usd ''
             @ dstr (min_price_usd (rs_entry rules)))
       else if avg_volume < min_avg_daily_volume (rs_entry rules) then
         reject ticker ''min_avg_volume''
           (''avg_volume '' @ show_int avg_volume @ '' < min_avg_daily_volume ''
             @ show_int (min_avg_daily_volume (rs_entry rules)))
       else if dlt (money_amount (lim_max_notional_per_ticker limits)) (price_amount latest_price) then
         reject ticker ''price_over_limit''
           (''price '' @ dstr (price_amount latest_price) @ '' > per-ticker limit ''
             @ money_text (lim_max_notional_per_ticker limits) @ '' (''
             @ dstr (max_notional_per_ticker_pct (rs_position rules)) @ ''% of ''
             @ dstr (rs_capital_usd rules) @ '')'')
       else
         let shs = max_shares (lim_max_notional_per_ticker limits) latest_price in
         Ok \<lparr>ep_ticker = ticker, ep_qty = Quantity shs,
              ep_notional = mk_Money (price_times latest_price shs),
              ep_limit = lim_max_notional_per_ticker limits,
              ep_reference_price = latest_price\<rparr>)"

section \<open>When a candidate passes\<close>

definition entry_allowed :: "string \<Rightarrow> RuleSet \<Rightarrow> DerivedLimits \<Rightarrow> string list \<Rightarrow> bool \<Rightarrow> Price \<Rightarrow> int
    \<Rightarrow> LossLimitBreach option \<Rightarrow> bool" where
  "entry_allowed ticker rules limits holdings market_open latest_price avg_volume loss_state \<longleftrightarrow>
     ticker \<notin> set (excluded_tickers (rs_entry rules)) \<and> ticker \<notin> set holdings
     \<and> int (length holdings) < max_concurrent_positions (rs_position rules)
     \<and> market_open \<and> loss_state = None
     \<and> dval (min_price_usd (rs_entry rules)) \<le> dval (price_amount latest_price)
     \<and> min_avg_daily_volume (rs_entry rules) \<le> avg_volume
     \<and> dval (price_amount latest_price) \<le> dval (money_amount (lim_max_notional_per_ticker limits))"

lemma is_ok_reject [simp]: "\<not> is_ok (reject t c r)" "reject t c r \<noteq> Ok p"
  by (simp_all add: reject_def)

lemma check_entry_ok_iff:
  "is_ok (check_entry ticker rules limits holdings market_open latest_price avg_volume loss_state)
     \<longleftrightarrow> entry_allowed ticker rules limits holdings market_open latest_price avg_volume loss_state"
  by (auto simp: check_entry_def entry_allowed_def Let_def dlt_dval not_less not_le
      split: option.split)

lemma check_entry_plan [outcome]:
  "check_entry ticker rules limits holdings market_open latest_price avg_volume loss_state = Ok plan
   \<Longrightarrow> plan = \<lparr>ep_ticker = ticker,
         ep_qty = Quantity (max_shares (lim_max_notional_per_ticker limits) latest_price),
         ep_notional = mk_Money (price_times latest_price
           (max_shares (lim_max_notional_per_ticker limits) latest_price)),
         ep_limit = lim_max_notional_per_ticker limits, ep_reference_price = latest_price\<rparr>
     \<and> entry_allowed ticker rules limits holdings market_open latest_price avg_volume loss_state"
  using check_entry_ok_iff [of ticker rules limits holdings market_open latest_price avg_volume
      loss_state]
  by (auto simp: check_entry_def Let_def split: if_splits option.splits)

section \<open>The size of the plan\<close>

lemma max_shares_div:
  assumes "0 < ticks price" "0 \<le> cents limit"
  shows "max_shares limit price = cents limit * 100 div ticks price"
proof -
  have "dval (money_amount limit) / dval (price_amount price)
      = of_int (cents limit * 100) / of_int (ticks price)"
    by (simp add: money.dval_amount price.dval_amount)
  moreover have "max_shares limit price = \<lfloor>dval (money_amount limit) / dval (price_amount price)\<rfloor>"
    unfolding max_shares_def using assms
    by (intro dfloordiv_floor) (simp_all add: money.dval_amount price.dval_amount)
  ultimately show ?thesis by (simp only: floor_divide_of_int_eq)
qed

lemma max_shares_fills:
  assumes "0 < ticks price" "0 \<le> cents limit"
  shows "ticks price * max_shares limit price \<le> cents limit * 100
    \<and> cents limit * 100 < ticks price * (max_shares limit price + 1)"
proof -
  have "ticks price * (cents limit * 100 div ticks price) + cents limit * 100 mod ticks price
      = cents limit * 100" by (rule mult_div_mod_eq)
  moreover have "0 \<le> cents limit * 100 mod ticks price"
    "cents limit * 100 mod ticks price < ticks price" using assms(1) by simp_all
  ultimately have "ticks price * (cents limit * 100 div ticks price) \<le> cents limit * 100
    \<and> cents limit * 100 < ticks price * (cents limit * 100 div ticks price + 1)"
    unfolding distrib_left mult_1_right by linarith
  then show ?thesis by (simp only: max_shares_div [OF assms])
qed

lemma price_le_limit_ticks:
  "dval (price_amount p) \<le> dval (money_amount m) \<longleftrightarrow> ticks p \<le> cents m * 100"
proof -
  have "dval (money_amount m) = of_int (cents m * 100) * 10 powi (- 4)"
    by (simp add: money.dval_amount)
  then have "dval (price_amount p) \<le> dval (money_amount m) \<longleftrightarrow>
      of_int (ticks p) * (10 :: rat) powi (- 4) \<le> of_int (cents m * 100) * 10 powi (- 4)"
    by (simp only: price.dval_amount)
  also have "\<dots> \<longleftrightarrow> ticks p \<le> cents m * 100"
    by (simp only: mult_le_cancel_right_pos powi10_pos of_int_le_iff)
  finally show ?thesis .
qed

lemma price_positive:
  "dval d \<le> dval (price_amount p) \<Longrightarrow> 0 < dval d \<Longrightarrow> 0 < ticks p"
  by (simp add: price.dval_amount)

lemma max_shares_pos:
  assumes "0 < ticks price" "ticks price \<le> cents limit * 100"
  shows "1 \<le> max_shares limit price"
proof -
  have "0 \<le> cents limit" using assms by linarith
  then have "max_shares limit price = cents limit * 100 div ticks price"
    using assms(1) by (intro max_shares_div)
  moreover have "1 \<le> cents limit * 100 div ticks price"
    using assms zdiv_mono1 [of "ticks price" "cents limit * 100" "ticks price"] by simp
  ultimately show ?thesis by simp
qed

text \<open>The notional of a position of a price that fits the limit never exceeds the limit.\<close>

lemma notional_le_limit:
  assumes "0 < ticks price" "0 \<le> n" "ticks price * n \<le> cents limit * 100" "cents limit < 10 ^ 26"
  shows "cents (mk_Money (price_times price n)) \<le> cents limit"
proof (rule money.mk_le_grid)
  have "0 \<le> ticks price * n" using assms(1,2) by simp
  moreover have "ticks price * n < 10 ^ 28" using assms(3,4) by simp
  ultimately have "dval (price_times price n) = of_int (ticks price * n) * 10 powi (- 4)"
    by (intro dval_price_times) simp
  also have "\<dots> \<le> of_int (cents limit * 100) * 10 powi (- 4)"
    using assms(3) by (intro mult_right_mono) (simp_all only: of_int_le_iff, simp)
  also have "\<dots> = of_int (cents limit) * 10 powi (- 2)" by simp
  finally show "dval (price_times price n) \<le> of_int (cents limit) * 10 powi (- 2)" .
qed

section \<open>Properties\<close>

text \<open>
  C8: a candidate is approved exactly when every pre-buy rule holds: not excluded, not held,
  room for another position, market open, no loss limit reached, price and volume above the
  floors, and one share within the limit.
\<close>

theorem check_entry_complete:
  "is_ok (check_entry ticker rules limits holdings market_open latest_price avg_volume loss_state)
     \<longleftrightarrow> ticker \<notin> set (excluded_tickers (rs_entry rules)) \<and> ticker \<notin> set holdings
       \<and> int (length holdings) < max_concurrent_positions (rs_position rules)
       \<and> market_open \<and> loss_state = None
       \<and> dval (min_price_usd (rs_entry rules)) \<le> dval (price_amount latest_price)
       \<and> min_avg_daily_volume (rs_entry rules) \<le> avg_volume
       \<and> dval (price_amount latest_price) \<le> dval (money_amount (lim_max_notional_per_ticker limits))"
  unfolding check_entry_ok_iff entry_allowed_def ..

text \<open>
  C19: an approved plan buys at least one share, as many as the per-ticker limit pays for and no
  more, and its recorded notional is within the limit.
\<close>

theorem entry_plan_sized:
  assumes rules: "rule_set_ok rules"
    and limit: "cents (lim_max_notional_per_ticker limits) < 10 ^ 26"
    and plan: "check_entry ticker rules limits holdings market_open latest_price avg_volume loss_state
      = Ok plan"
  shows "1 \<le> shares (ep_qty plan)
    \<and> ticks latest_price * shares (ep_qty plan) \<le> cents (lim_max_notional_per_ticker limits) * 100
    \<and> cents (lim_max_notional_per_ticker limits) * 100
        < ticks latest_price * (shares (ep_qty plan) + 1)
    \<and> ep_notional plan \<le> lim_max_notional_per_ticker limits"
proof -
  let ?limit = "lim_max_notional_per_ticker limits"
  let ?n = "max_shares ?limit latest_price"
  have p: "plan = \<lparr>ep_ticker = ticker, ep_qty = Quantity ?n,
        ep_notional = mk_Money (price_times latest_price ?n), ep_limit = ?limit,
        ep_reference_price = latest_price\<rparr>"
    and allowed: "entry_allowed ticker rules limits holdings market_open latest_price avg_volume
      loss_state"
    using check_entry_plan [OF plan] by blast+
  have "0 < dval (min_price_usd (rs_entry rules))"
    using rules by (simp add: rule_set_ok_def entry_rules_ok_def)
  then have t: "0 < ticks latest_price"
    using allowed by (intro price_positive [of "min_price_usd (rs_entry rules)"])
      (simp_all only: entry_allowed_def)
  have le: "ticks latest_price \<le> cents ?limit * 100"
    using allowed by (simp only: entry_allowed_def price_le_limit_ticks)
  have one: "1 \<le> ?n" using t le by (rule max_shares_pos)
  have c: "0 \<le> cents ?limit" using t le by linarith
  note fills = max_shares_fills [OF t c]
  have "cents (mk_Money (price_times latest_price ?n)) \<le> cents ?limit"
    using t one fills limit by (intro notional_le_limit) simp_all
  then show ?thesis using one fills by (simp add: p money_le_cents)
qed

lemma shipped_entry:
  "check_entry ''AXTI'' shipped_rules (derive_limits shipped_rules) [''AEHR''] True (Price 123400) 900000
     None = Ok \<lparr>ep_ticker = ''AXTI'', ep_qty = Quantity 30, ep_notional = Money 37020,
       ep_limit = Money 37500, ep_reference_price = Price 123400\<rparr>"
  unfolding shipped_limits
  by (simp add: check_entry_def shipped_rules_def max_shares_def decimal_eval)

theorem entry_plan_sized_witness:
  "ticks (Price 123400) * shares (Quantity 30) \<le> cents (Money 37500) * 100
     \<and> Money 37020 \<le> Money 37500"
  using entry_plan_sized [OF shipped_rules_ok _ shipped_entry] by (simp add: shipped_limits)

end
