(* ===== verification/Exit_Checks.thy ===== *)
theory Exit_Checks
  imports Entry_Checks
begin

text \<open>
  rules/exit_checks.py: the rule-driven sell signal of a held position, the first condition met in
  the order stop loss, holding days, then partial take profit before it is done and trailing stop
  afterwards.
\<close>

definition hundred :: decimal where
  "hundred = dec_of_int 100"

definition stop_loss_price :: "RuleSet \<Rightarrow> Position \<Rightarrow> Price" where
  "stop_loss_price rules position =
     price_mul (p_avg_cost position)
       (dadd (dec_of_int 1) (dquot (stop_loss_pct (rs_exit rules)) hundred))"

definition take_profit_price :: "RuleSet \<Rightarrow> Position \<Rightarrow> Price" where
  "take_profit_price rules position =
     price_mul (p_avg_cost position)
       (dadd (dec_of_int 1) (dquot (partial_take_profit_pct (rs_exit rules)) hundred))"

definition trailing_stop_price :: "RuleSet \<Rightarrow> Position \<Rightarrow> Price" where
  "trailing_stop_price rules position =
     price_mul (p_high_watermark position)
       (dsub (dec_of_int 1) (dquot (trailing_stop_pct (rs_exit rules)) hundred))"

definition exit_signal :: "Position \<Rightarrow> ExitReason \<Rightarrow> decimal \<Rightarrow> Price \<Rightarrow> ExitSignal" where
  "exit_signal position reason fraction price =
     \<lparr>x_ticker = p_ticker position, x_reason = reason, x_fraction = fraction,
      x_trigger_price = price\<rparr>"

definition check_exit :: "Position \<Rightarrow> Price \<Rightarrow> RuleSet \<Rightarrow> datetime \<Rightarrow> ExitSignal option" where
  "check_exit position price rules now =
    (if price \<le> stop_loss_price rules position then
       Some (exit_signal position ER_stop_loss (dec_of_int 1) price)
     else if max_holding_days (rs_position rules) \<le> timedelta_days (now - p_opened_at position) then
       Some (exit_signal position ER_max_holding_days (dec_of_int 1) price)
     else if \<not> p_partial_tp_done position then
       if take_profit_price rules position \<le> price then
         Some (exit_signal position ER_partial_take_profit
           (partial_take_profit_fraction (rs_exit rules)) price)
       else None
     else if price \<le> trailing_stop_price rules position then
       Some (exit_signal position ER_trailing_stop (dec_of_int 1) price)
     else None)"

lemma exit_signal_simps [simp]:
  "x_ticker (exit_signal p r f q) = p_ticker p" "x_reason (exit_signal p r f q) = r"
  "x_fraction (exit_signal p r f q) = f" "x_trigger_price (exit_signal p r f q) = q"
  by (simp_all add: exit_signal_def)

text \<open>What a signal says about the position it was raised for.\<close>

lemma check_exit_reason [outcome]:
  assumes "check_exit position price rules now = Some sig"
  shows "x_ticker sig = p_ticker position" "x_trigger_price sig = price"
    "x_reason sig = ER_stop_loss \<longleftrightarrow> price \<le> stop_loss_price rules position"
    "x_reason sig \<noteq> ER_llm"
    "x_reason sig = ER_partial_take_profit \<Longrightarrow> \<not> p_partial_tp_done position
       \<and> take_profit_price rules position \<le> price
       \<and> x_fraction sig = partial_take_profit_fraction (rs_exit rules)"
    "x_reason sig = ER_trailing_stop \<Longrightarrow> p_partial_tp_done position
       \<and> price \<le> trailing_stop_price rules position"
    "x_reason sig \<noteq> ER_partial_take_profit \<Longrightarrow> x_fraction sig = dec_of_int 1"
  using assms by (auto simp: check_exit_def split: if_splits)

lemma check_exit_None_iff:
  "check_exit position price rules now = None \<longleftrightarrow>
     stop_loss_price rules position < price
     \<and> timedelta_days (now - p_opened_at position) < max_holding_days (rs_position rules)
     \<and> (if p_partial_tp_done position then trailing_stop_price rules position < price
        else price < take_profit_price rules position)"
  by (auto simp: check_exit_def not_le)

text \<open>The fraction of a signal is a proper share of the position, or all of it.\<close>

lemma check_exit_fraction:
  assumes "rule_set_ok rules" "check_exit position price rules now = Some sig"
  shows "0 < dval (x_fraction sig) \<and> dval (x_fraction sig) \<le> 1"
  using assms by (auto simp: check_exit_def rule_set_ok_def exit_rules_ok_def split: if_splits)

section \<open>The thresholds\<close>

text \<open>
  A percentage with at most six decimals: the factor and the threshold the code derives from it
  are exact up to the one rounding to a tick.
\<close>

definition pct_plain :: "decimal \<Rightarrow> bool" where
  "pct_plain d = (- 6 \<le> dexp d \<and> dexp d \<le> 2 \<and> \<bar>dval d\<bar> \<le> 100)"

lemma pct_plain_grid:
  assumes "pct_plain d"
  obtains n where "dval d / 100 = of_int n * 10 powi (- 8)" "\<bar>n\<bar> \<le> 10 ^ 8" "dcoef d < 10 ^ 28"
proof -
  have v: "dval d = of_int (dscale (- 6) d) * 10 powi (- 6)"
    using assms by (intro dval_dscale) (simp add: pct_plain_def)
  let ?n = "dscale (- 6) d"
  have "\<bar>of_int ?n :: rat\<bar> \<le> of_int (10 ^ 8)"
    using assms by (simp add: pct_plain_def v abs_mult)
  then have n: "\<bar>?n\<bar> \<le> 10 ^ 8" by (simp only: of_int_abs [symmetric] of_int_le_iff)
  have "int (dcoef d) * 1 \<le> int (dcoef d) * 10 ^ nat (dexp d + 6)"
    by (intro mult_left_mono) simp_all
  also have "\<dots> = \<bar>?n\<bar>" by (simp add: dscale_def dsint_def abs_mult)
  finally have "int (dcoef d) < 10 ^ 28" using n by simp
  moreover have "int (10 ^ 28) = 10 ^ 28" by simp
  ultimately have "dcoef d < 10 ^ 28" by (metis of_nat_less_iff)
  moreover have "dval d / 100 = of_int ?n * 10 powi (- 8)"
    by (simp add: v)
  ultimately show thesis using that n by blast
qed

lemma ticks_price_mul_exact:
  assumes "dval f = of_int n * 10 powi (- 8)" "\<bar>n\<bar> \<le> 2 * 10 ^ 8" "\<bar>ticks p\<bar> \<le> 10 ^ 19"
  shows "ticks (price_mul p f) = rhe (of_int (ticks p) * dval f)"
proof -
  have "\<bar>ticks p\<bar> * \<bar>n\<bar> \<le> 10 ^ 19 * (2 * 10 ^ 8)"
    using assms(2,3) by (intro mult_mono) simp_all
  then have "\<bar>ticks p * n\<bar> < 10 ^ 28" by (simp add: abs_mult)
  moreover have "dval (price_amount p) * dval f = of_int (ticks p * n) * 10 powi (- 12)"
    by (simp add: price.dval_amount assms(1))
  ultimately have "dval (dmul (price_amount p) f) = dval (price_amount p) * dval f"
    by (intro dmul_exact representableI)
  then show ?thesis
    by (simp only: price_mul_def price.units_mk_rhe price.dval_amount) simp
qed

lemma threshold_above:
  assumes "pct_plain pct" "\<bar>ticks p\<bar> \<le> 10 ^ 19"
  shows "ticks (price_mul p (dadd (dec_of_int 1) (dquot pct hundred)))
    = rhe (of_int (ticks p) * (1 + dval pct / 100))"
proof -
  obtain n where n: "dval pct / 100 = of_int n * 10 powi (- 8)" "\<bar>n\<bar> \<le> 10 ^ 8" "dcoef pct < 10 ^ 28"
    using assms(1) by (rule pct_plain_grid)
  have q: "dval (dquot pct hundred) = dval pct / 100"
    using n(3) by (simp add: hundred_def dquot_hundred)
  have v: "1 + dval pct / 100 = of_int (10 ^ 8 + n) * 10 powi (- 8)"
    by (simp add: n(1))
  have b: "\<bar>10 ^ 8 + n\<bar> \<le> 2 * 10 ^ 8" using n(2) by simp
  have "\<bar>10 ^ 8 + n\<bar> < 10 ^ 28" using b by simp
  then have "representable (dval (dec_of_int 1) + dval (dquot pct hundred))"
    using v by (intro representableI [of _ "10 ^ 8 + n" "- 8"]) (simp_all only: dval_of_int q of_int_1)
  then have "dval (dadd (dec_of_int 1) (dquot pct hundred)) = 1 + dval pct / 100"
    by (simp only: dadd_exact dval_of_int q of_int_1)
  then show ?thesis using ticks_price_mul_exact [OF _ b assms(2)] v by metis
qed

lemma threshold_below:
  assumes "pct_plain pct" "\<bar>ticks p\<bar> \<le> 10 ^ 19"
  shows "ticks (price_mul p (dsub (dec_of_int 1) (dquot pct hundred)))
    = rhe (of_int (ticks p) * (1 - dval pct / 100))"
proof -
  obtain n where n: "dval pct / 100 = of_int n * 10 powi (- 8)" "\<bar>n\<bar> \<le> 10 ^ 8" "dcoef pct < 10 ^ 28"
    using assms(1) by (rule pct_plain_grid)
  have q: "dval (dquot pct hundred) = dval pct / 100"
    using n(3) by (simp add: hundred_def dquot_hundred)
  have v: "1 - dval pct / 100 = of_int (10 ^ 8 - n) * 10 powi (- 8)"
    by (simp add: n(1) left_diff_distrib)
  have b: "\<bar>10 ^ 8 - n\<bar> \<le> 2 * 10 ^ 8" using n(2) by simp
  have "\<bar>10 ^ 8 - n\<bar> < 10 ^ 28" using b by simp
  then have "representable (dval (dec_of_int 1) - dval (dquot pct hundred))"
    using v by (intro representableI [of _ "10 ^ 8 - n" "- 8"]) (simp_all only: dval_of_int q of_int_1)
  then have "dval (dsub (dec_of_int 1) (dquot pct hundred)) = 1 - dval pct / 100"
    by (simp only: dsub_exact dval_of_int q of_int_1)
  then show ?thesis using ticks_price_mul_exact [OF _ b assms(2)] v by metis
qed

section \<open>Properties\<close>


text \<open>
  The stop loss has priority. At or below the stop price the signal is a full exit for the
  stop loss, whatever the age of the position and whatever the take-profit state.
\<close>

theorem stop_loss_first:
  assumes "price \<le> stop_loss_price rules position"
  shows "check_exit position price rules now =
    Some \<lparr>x_ticker = p_ticker position, x_reason = ER_stop_loss, x_fraction = dec_of_int 1,
      x_trigger_price = price\<rparr>"
  using assms by (simp add: check_exit_def exit_signal_def)

definition sample_position :: Position where
  "sample_position = \<lparr>p_ticker = ''AXTI'', p_qty = Quantity 30, p_avg_cost = Price 123400,
     p_opened_at = 0, p_high_watermark = Price 150000, p_partial_tp_done = False\<rparr>"

lemma sample_stop: "stop_loss_price shipped_rules sample_position = Price 104890"
proof -
  have "ticks (stop_loss_price shipped_rules sample_position) = 104890"
    unfolding stop_loss_price_def
    by (subst threshold_above)
      (simp_all add: shipped_rules_def sample_position_def pct_plain_def dval_def dsint_def rhe_def)
  then show ?thesis by (metis Price.collapse)
qed

theorem stop_loss_first_witness:
  "check_exit sample_position (Price 104890) shipped_rules (200 * microseconds_per_day) =
    Some \<lparr>x_ticker = ''AXTI'', x_reason = ER_stop_loss, x_fraction = dec_of_int 1,
      x_trigger_price = Price 104890\<rparr>"
  using stop_loss_first [of "Price 104890" shipped_rules sample_position]
  by (simp add: sample_stop) (simp add: sample_position_def)

text \<open>
  The three price levels are the exact percentages of the average cost and of the high
  watermark, rounded once to the tick, and the average cost lies between stop and take profit.
\<close>

theorem exit_levels_exact:
  assumes ok: "rule_set_ok rules"
    and plain: "pct_plain (stop_loss_pct (rs_exit rules))"
      "pct_plain (partial_take_profit_pct (rs_exit rules))" "pct_plain (trailing_stop_pct (rs_exit rules))"
    and range: "0 \<le> ticks (p_avg_cost position)" "ticks (p_avg_cost position) \<le> 10 ^ 19"
      "\<bar>ticks (p_high_watermark position)\<bar> \<le> 10 ^ 19"
  shows "ticks (stop_loss_price rules position)
      = rhe (of_int (ticks (p_avg_cost position)) * (1 + dval (stop_loss_pct (rs_exit rules)) / 100))
    \<and> ticks (take_profit_price rules position)
      = rhe (of_int (ticks (p_avg_cost position)) * (1 + dval (partial_take_profit_pct (rs_exit rules)) / 100))
    \<and> ticks (trailing_stop_price rules position)
      = rhe (of_int (ticks (p_high_watermark position)) * (1 - dval (trailing_stop_pct (rs_exit rules)) / 100))
    \<and> stop_loss_price rules position \<le> p_avg_cost position
    \<and> p_avg_cost position \<le> take_profit_price rules position"
proof -
  let ?a = "of_int (ticks (p_avg_cost position)) :: rat"
  have avg: "\<bar>ticks (p_avg_cost position)\<bar> \<le> 10 ^ 19" using range by simp
  note s = threshold_above [OF plain(1) avg] and t = threshold_above [OF plain(2) avg]
    and w = threshold_below [OF plain(3) range(3)]
  have a0: "0 \<le> ?a" using range(1) by simp
  have neg: "dval (stop_loss_pct (rs_exit rules)) < 0"
    and pos: "0 < dval (partial_take_profit_pct (rs_exit rules))"
    using ok by (simp_all add: rule_set_ok_def exit_rules_ok_def Pct_ok_def)
  have "?a * (1 + dval (stop_loss_pct (rs_exit rules)) / 100) \<le> ?a"
    using mult_left_mono [OF _ a0, of "1 + dval (stop_loss_pct (rs_exit rules)) / 100" 1] neg by simp
  then have lo: "ticks (stop_loss_price rules position) \<le> ticks (p_avg_cost position)"
    unfolding stop_loss_price_def s by (metis rhe_mono rhe_of_int)
  have "?a \<le> ?a * (1 + dval (partial_take_profit_pct (rs_exit rules)) / 100)"
    using mult_left_mono [OF _ a0, of 1 "1 + dval (partial_take_profit_pct (rs_exit rules)) / 100"] pos
    by simp
  then have hi: "ticks (p_avg_cost position) \<le> ticks (take_profit_price rules position)"
    unfolding take_profit_price_def t by (metis rhe_mono rhe_of_int)
  show ?thesis
    using s t w lo hi
    by (simp only: stop_loss_price_def take_profit_price_def trailing_stop_price_def
        price_le_ticks simp_thms)
qed

theorem exit_levels_exact_witness:
  "ticks (take_profit_price shipped_rules sample_position) = 160420
    \<and> ticks (trailing_stop_price shipped_rules sample_position) = 120000"
  using exit_levels_exact [OF shipped_rules_ok, of sample_position]
  by (simp add: shipped_rules_def sample_position_def pct_plain_def dval_def dsint_def rhe_def)

end
