(* ===== verification/Rules_Lock.thy ===== *)
theory Rules_Lock
  imports Rules_Schema
begin

text \<open>
  rules/lock.py: the three-line lock file that pins the SHA-256 of the rules file a human approved.
  The hash function and the file system are parameters: a file is its content, or \<open>None\<close> when
  reading it raises OSError.
\<close>

section \<open>Lines\<close>

text \<open>
  \<open>str.splitlines\<close> on UTF-8 text: the length of the line boundary the text starts with, if any.
  A carriage return and a line feed are one boundary; NEL, LS and PS take several code units.
\<close>

definition single_breaks :: "string" where
  "single_breaks = [CHR 0x0A, CHR 0x0B, CHR 0x0C, CHR 0x0D, CHR 0x1C, CHR 0x1D, CHR 0x1E]"

definition line_break :: "string \<Rightarrow> nat" where
  "line_break s =
    (if take 2 s = [CHR 0x0D, CHR 0x0A] \<or> take 2 s = [CHR 0xC2, CHR 0x85] then 2
     else if take 3 s = [CHR 0xE2, CHR 0x80, CHR 0xA8] \<or> take 3 s = [CHR 0xE2, CHR 0x80, CHR 0xA9]
     then 3
     else case s of [] \<Rightarrow> 0 | c # _ \<Rightarrow> if c \<in> set single_breaks then 1 else 0)"

function split_lines :: "string \<Rightarrow> string \<Rightarrow> string list" where
  "split_lines acc [] = (if acc = [] then [] else [rev acc])"
| "split_lines acc (c # cs) = (if line_break (c # cs) = 0 then split_lines (c # acc) cs
     else rev acc # split_lines [] (drop (line_break (c # cs)) (c # cs)))"
  by pat_completeness auto
termination by (relation "measure (\<lambda>(acc, s). length s)") auto

definition py_splitlines :: "string \<Rightarrow> string list" where
  "py_splitlines s = split_lines [] s"

text \<open>A line without any boundary, followed by a line feed, is split off unchanged.\<close>

definition break_chars :: "string" where
  "break_chars = single_breaks @ [CHR 0xC2, CHR 0xE2]"

definition one_line :: "string \<Rightarrow> bool" where
  "one_line s = (\<forall>i < length s. line_break (drop i s @ [CHR 0x0A]) = 0)"

lemma one_line_Nil [simp]: "one_line []"
  by (simp add: one_line_def)

lemma one_line_Cons: "one_line (c # s) \<longleftrightarrow> line_break (c # s @ [CHR 0x0A]) = 0 \<and> one_line s"
  unfolding one_line_def by (auto simp: less_Suc_eq_0_disj)

lemma line_break_context:
  assumes "line_break (c # s @ [CHR 0x0A]) = 0"
  shows "line_break (c # s @ CHR 0x0A # r) = 0"
proof (cases s)
  case Nil
  with assms show ?thesis
    by (auto simp: line_break_def single_breaks_def split: if_splits)
next
  case (Cons d s')
  then show ?thesis
  proof (cases s')
    case Nil
    with assms Cons show ?thesis
      by (auto simp: line_break_def single_breaks_def split: if_splits)
  next
    case (Cons e s'')
    with assms \<open>s = d # s'\<close> show ?thesis
      by (auto simp: line_break_def split: if_splits)
  qed
qed

lemma split_lines_line:
  "one_line s \<Longrightarrow> split_lines acc (s @ CHR 0x0A # r) = (rev acc @ s) # split_lines [] r"
proof (induction s arbitrary: acc)
  case Nil
  have "line_break (CHR 0x0A # r) = 1" by (simp add: line_break_def single_breaks_def)
  then show ?case by simp
next
  case (Cons c s)
  have "line_break (c # s @ CHR 0x0A # r) = 0"
    using line_break_context [of c s r] Cons.prems by (simp add: one_line_Cons)
  with Cons show ?case by (simp add: one_line_Cons)
qed

section \<open>Messages\<close>

text \<open>The messages of the code, as the UTF-8 code units of their text.\<close>

definition utf8 :: "nat list \<Rightarrow> string" where
  "utf8 bs = map char_of bs"

definition msg_lock_malformed :: string where
    "msg_lock_malformed = utf8 [108, 111, 99, 107, 32, 227, 129, 140, 231, 132, 161, 227, 129,
    132, 227, 128, 129, 227, 129, 190, 227, 129, 159, 227, 129, 175, 229, 189, 162, 229, 188,
    143, 227, 129, 140, 228, 184, 141, 230, 173, 163]"

definition msg_lock_missing :: string where
    "msg_lock_missing = utf8 [114, 117, 108, 101, 115, 32, 108, 111, 99, 107, 32, 227, 129, 140,
    231, 132, 161, 227, 129, 132, 40, 116, 114, 97, 100, 101, 114, 32, 114, 117, 108, 101, 115,
    32, 97, 112, 112, 114, 111, 118, 101, 32, 227, 130, 146, 229, 174, 159, 232, 161, 140, 227,
    129, 151, 227, 129, 166, 227, 129, 143, 227, 129, 160, 227, 129, 149, 227, 129, 132, 41]"

definition msg_lock_unreadable :: string where
    "msg_lock_unreadable = utf8 [114, 117, 108, 101, 115, 32, 108, 111, 99, 107, 32, 227, 130,
    146, 232, 170, 173, 227, 129, 191, 232, 190, 188, 227, 130, 129, 227, 129, 170, 227, 129,
    132]"

definition msg_lock_mismatch :: string where
    "msg_lock_mismatch = utf8 [114, 117, 108, 101, 115, 32, 108, 111, 99, 107, 32, 227, 129,
    140, 231, 143, 190, 229, 156, 168, 227, 129, 174, 227, 131, 171, 227, 131, 188, 227, 131,
    171, 227, 131, 149, 227, 130, 161, 227, 130, 164, 227, 131, 171, 227, 129, 168, 228, 184,
    128, 232, 135, 180, 227, 129, 151, 227, 129, 170, 227, 129, 132, 40, 230, 137, 191, 232,
    170, 141, 227, 129, 149, 227, 130, 140, 227, 129, 166, 227, 129, 132, 227, 129, 170, 227,
    129, 132, 229, 164, 137, 230, 155, 180, 41]"

definition msg_lock_unwritable :: string where
    "msg_lock_unwritable = utf8 [114, 117, 108, 101, 115, 32, 108, 111, 99, 107, 32, 227, 130,
    146, 230, 155, 184, 227, 129, 141, 232, 190, 188, 227, 130, 129, 227, 129, 170, 227, 129,
    132]"

section \<open>The lock\<close>

record RulesLock =
  lk_sha256 :: string
  lk_approved_by :: string
  lk_approved_at :: string

definition sha_prefix :: string where
  "sha_prefix = ''sha256: ''"

definition approved_by_prefix :: string where
  "approved_by_prefix = ''approved_by: ''"

definition approved_at_prefix :: string where
  "approved_at_prefix = ''approved_at: ''"

definition startswith :: "string \<Rightarrow> string \<Rightarrow> bool" where
  "startswith s p = (take (length p) s = p)"

lemma startswith_append [simp]: "startswith (p @ s) p"
  by (simp add: startswith_def)

definition sha256_of_file :: "(string \<Rightarrow> string) \<Rightarrow> string option \<Rightarrow> (string, RulesError) result" where
  "sha256_of_file sha256_hex file_data = (case file_data of
     None \<Rightarrow> Err ''could not read rules file''
   | Some data \<Rightarrow> Ok (sha256_hex data))"

definition render_lock :: "RulesLock \<Rightarrow> string" where
  "render_lock lk = sha_prefix @ lk_sha256 lk @ [CHR 0x0A]
     @ approved_by_prefix @ lk_approved_by lk @ [CHR 0x0A]
     @ approved_at_prefix @ lk_approved_at lk @ [CHR 0x0A]"

definition parse_lock :: "string \<Rightarrow> (RulesLock, RulesError) result" where
  "parse_lock txt = (case py_splitlines txt of
     [sha_line, by_line, at_line] \<Rightarrow>
       if \<not> startswith sha_line sha_prefix \<or> \<not> startswith by_line approved_by_prefix
         \<or> \<not> startswith at_line approved_at_prefix
       then Err msg_lock_malformed
       else let sha = drop (length sha_prefix) sha_line in
         if sha = [] then Err msg_lock_malformed
         else Ok \<lparr>lk_sha256 = sha,
           lk_approved_by = drop (length approved_by_prefix) by_line,
           lk_approved_at = drop (length approved_at_prefix) at_line\<rparr>
   | _ \<Rightarrow> Err msg_lock_malformed)"

text \<open>
  \<open>lock_file\<close> is \<open>None\<close> when the lock does not exist, and its content, or the failed read,
  otherwise.
\<close>

definition verify_lock :: "(string \<Rightarrow> string) \<Rightarrow> string option \<Rightarrow> string option option
    \<Rightarrow> (RulesLock, RulesError) result" where
  "verify_lock sha256_hex rules_file lock_file = (case lock_file of
     None \<Rightarrow> Err msg_lock_missing
   | Some None \<Rightarrow> Err msg_lock_unreadable
   | Some (Some lock_text) \<Rightarrow> (case parse_lock lock_text of
       Err e \<Rightarrow> Err e
     | Ok lk \<Rightarrow> (case sha256_of_file sha256_hex rules_file of
         Err e \<Rightarrow> Err e
       | Ok current_sha \<Rightarrow> if current_sha \<noteq> lk_sha256 lk then Err msg_lock_mismatch else Ok lk)))"

text \<open>\<open>writable\<close> is whether the directory can be made and the file written.\<close>

definition write_lock :: "bool \<Rightarrow> string option option \<Rightarrow> RulesLock
    \<Rightarrow> (unit, RulesError) result \<times> string option option" where
  "write_lock writable lock_file lk = (if writable then (Ok (), Some (Some (render_lock lk)))
     else (Err msg_lock_unwritable, lock_file))"

section \<open>Parsing what was rendered\<close>

text \<open>Line boundaries of a prefix: none of the prefixes holds a character of one.\<close>

definition plain_line :: "string \<Rightarrow> bool" where
  "plain_line s = (\<forall>c \<in> set s. c \<notin> set break_chars)"

lemma one_line_append_plain: "plain_line p \<Longrightarrow> one_line s \<Longrightarrow> one_line (p @ s)"
proof (induction p)
  case (Cons c p)
  have "line_break ((c # p @ s) @ [CHR 0x0A]) = 0"
    using Cons.prems(1)
    by (auto simp: plain_line_def line_break_def break_chars_def single_breaks_def split: list.split)
  with Cons show ?case by (simp add: one_line_Cons plain_line_def)
qed simp

lemma prefixes_plain [simp]:
  "plain_line sha_prefix" "plain_line approved_by_prefix" "plain_line approved_at_prefix"
  by (simp_all add: plain_line_def sha_prefix_def approved_by_prefix_def approved_at_prefix_def
      break_chars_def single_breaks_def)

definition lock_fields_ok :: "RulesLock \<Rightarrow> bool" where
  "lock_fields_ok lk = (lk_sha256 lk \<noteq> [] \<and> one_line (lk_sha256 lk)
     \<and> one_line (lk_approved_by lk) \<and> one_line (lk_approved_at lk))"

lemma parse_render_lock_lemma:
  assumes "lock_fields_ok lk" shows "parse_lock (render_lock lk) = Ok lk"
proof -
  have ol: "one_line (sha_prefix @ lk_sha256 lk)"
    "one_line (approved_by_prefix @ lk_approved_by lk)"
    "one_line (approved_at_prefix @ lk_approved_at lk)"
    using assms by (auto simp: lock_fields_ok_def intro: one_line_append_plain)
  have r: "render_lock lk = (sha_prefix @ lk_sha256 lk) @ CHR 0x0A
      # ((approved_by_prefix @ lk_approved_by lk) @ CHR 0x0A
      # ((approved_at_prefix @ lk_approved_at lk) @ CHR 0x0A # []))"
    by (simp add: render_lock_def)
  have "py_splitlines (render_lock lk) = [sha_prefix @ lk_sha256 lk,
      approved_by_prefix @ lk_approved_by lk, approved_at_prefix @ lk_approved_at lk]"
    unfolding py_splitlines_def r split_lines_line [OF ol(1)] split_lines_line [OF ol(2)]
      split_lines_line [OF ol(3)] by simp
  then show ?thesis using assms by (simp add: parse_lock_def lock_fields_ok_def)
qed

section \<open>Properties\<close>

text \<open>
  A rendered lock parses back to the same lock, for every lock whose fields are single lines
  and whose digest is not empty.
\<close>

theorem parse_render_lock:
  assumes "lock_fields_ok lk"
  shows "parse_lock (render_lock lk) = Ok lk"
  using assms by (rule parse_render_lock_lemma)

theorem parse_render_lock_witness:
  "parse_lock (render_lock \<lparr>lk_sha256 = ''ab12'', lk_approved_by = ''kyo'', lk_approved_at = ''2026-09-17''\<rparr>)
    = Ok \<lparr>lk_sha256 = ''ab12'', lk_approved_by = ''kyo'', lk_approved_at = ''2026-09-17''\<rparr>"
proof (rule parse_render_lock)
  show "lock_fields_ok \<lparr>lk_sha256 = ''ab12'', lk_approved_by = ''kyo'', lk_approved_at = ''2026-09-17''\<rparr>"
    by (simp add: lock_fields_ok_def one_line_Cons line_break_def single_breaks_def)
qed

text \<open>
  C39: a rules file is trusted exactly when it can be read, the lock file can be read and parsed,
  and the digest recorded in the lock is the digest of the file as it is now.
\<close>

theorem verify_lock_trusts:
  "verify_lock sha256_hex rules_file lock_file = Ok lk \<longleftrightarrow>
     (\<exists>data txt. rules_file = Some data \<and> lock_file = Some (Some txt)
        \<and> parse_lock txt = Ok lk \<and> sha256_hex data = lk_sha256 lk)"
  by (auto simp: verify_lock_def sha256_of_file_def split: option.splits result.splits)

end
