(* ===== verification/Mode_Config.thy ===== *)
theory Mode_Config
  imports Domain_Models Result_Type
begin

text \<open>
  config/mode.py and config/settings.py: the decision between paper and live trading from the
  environment, and the settings of the mode that was decided. The environment is a map from
  variable names to values; the settings classes take every string, so a class cannot be built
  exactly when a field without a default is missing.
\<close>

section \<open>The mode\<close>

type_synonym ConfigError = string

type_synonym environ = "string \<Rightarrow> string option"

definition live_confirm_token :: string where
  "live_confirm_token = ''I_ACCEPT_REAL_MONEY_RISK''"

definition decide_mode :: "string option \<Rightarrow> string option \<Rightarrow> bool \<Rightarrow> string option
    \<Rightarrow> (TradingMode, ConfigError) result" where
  "decide_mode mode_env trader_env live_keys_present live_confirm =
    (let normalized = py_strip (case mode_env of None \<Rightarrow> '''' | Some m \<Rightarrow> m) in
     if normalized = '''' \<or> normalized = mode_value Mode_paper then Ok Mode_paper
     else if normalized \<noteq> mode_value Mode_live then
       Err (''TRADER_MODE must be '' @ quoted ''paper'' @ '' or '' @ quoted ''live'' @ '', got ''
         @ quoted normalized)
     else if trader_env = Some ''test'' then Err ''live mode is refused while TRADER_ENV=test''
     else if \<not> live_keys_present then
       Err ''live mode requires ALPACA_LIVE_TRADE_KEY and ALPACA_LIVE_TRADE_SECRET to be set''
     else if live_confirm \<noteq> Some live_confirm_token then
       Err (''live mode requires TRADER_LIVE_CONFIRM='' @ live_confirm_token)
     else Ok Mode_live)"

lemma decide_mode_live_iff:
  "decide_mode mode_env trader_env keys confirm = Ok Mode_live \<longleftrightarrow>
     (\<exists>m. mode_env = Some m \<and> py_strip m = ''live'') \<and> trader_env \<noteq> Some ''test'' \<and> keys
     \<and> confirm = Some ''I_ACCEPT_REAL_MONEY_RISK''"
proof -
  have "py_strip '''' \<noteq> ''live''" by (simp add: py_strip_def lstrip_def)
  then show ?thesis
    by (cases mode_env) (auto simp: decide_mode_def Let_def mode_value_def live_confirm_token_def)
qed

section \<open>Settings\<close>

record CommonSettings =
  ANTHROPIC_API_KEY :: string
  ANTHROPIC_MODEL :: string
  TRADER_DB_PATH :: string
  TRADER_RULES_PATH :: string

record PaperSettings = CommonSettings +
  ALPACA_PAPER_READ_KEY :: string
  ALPACA_PAPER_READ_SECRET :: string
  ALPACA_PAPER_TRADE_KEY :: string
  ALPACA_PAPER_TRADE_SECRET :: string

record LiveSettings = CommonSettings +
  ALPACA_LIVE_READ_KEY :: string
  ALPACA_LIVE_READ_SECRET :: string
  ALPACA_LIVE_TRADE_KEY :: string
  ALPACA_LIVE_TRADE_SECRET :: string
  TRADER_LIVE_CONFIRM :: string

datatype Settings = Paper PaperSettings | Live LiveSettings

definition settings_mode :: "Settings \<Rightarrow> TradingMode" where
  "settings_mode s = (case s of Paper _ \<Rightarrow> Mode_paper | Live _ \<Rightarrow> Mode_live)"

definition default_db_path :: string where
  "default_db_path = ''var/trader.sqlite3''"

definition default_rules_path :: string where
  "default_rules_path = ''rules/trading-rules.yaml''"

definition default_anthropic_model :: string where
  "default_anthropic_model = ''claude-sonnet-5''"

text \<open>The fields of each class, those without a default first.\<close>

definition required_fields :: "TradingMode \<Rightarrow> string list" where
  "required_fields m = ''ANTHROPIC_API_KEY'' # (case m of
     Mode_paper \<Rightarrow> [''ALPACA_PAPER_READ_KEY'', ''ALPACA_PAPER_READ_SECRET'',
       ''ALPACA_PAPER_TRADE_KEY'', ''ALPACA_PAPER_TRADE_SECRET'']
   | Mode_live \<Rightarrow> [''ALPACA_LIVE_READ_KEY'', ''ALPACA_LIVE_READ_SECRET'',
       ''ALPACA_LIVE_TRADE_KEY'', ''ALPACA_LIVE_TRADE_SECRET'', ''TRADER_LIVE_CONFIRM''])"

definition model_fields :: "TradingMode \<Rightarrow> string list" where
  "model_fields m =
     required_fields m @ [''ANTHROPIC_MODEL'', ''TRADER_DB_PATH'', ''TRADER_RULES_PATH'']"

definition pick :: "environ \<Rightarrow> TradingMode \<Rightarrow> environ" where
  "pick env m = (\<lambda>key. if key \<in> set (model_fields m) then env key else None)"

definition missing_fields :: "environ \<Rightarrow> TradingMode \<Rightarrow> string list" where
  "missing_fields picked m = filter (\<lambda>key. picked key = None) (required_fields m)"

definition missing_fields_message :: "string list \<Rightarrow> string" where
  "missing_fields_message names = (if names = [] then ''invalid settings''
     else ''missing or invalid settings: '' @ join '', '' (sort (remdups names)))"

definition getor :: "environ \<Rightarrow> string \<Rightarrow> string \<Rightarrow> string" where
  "getor env key dflt = (case env key of None \<Rightarrow> dflt | Some v \<Rightarrow> v)"

definition build_settings :: "TradingMode \<Rightarrow> environ \<Rightarrow> Settings" where
  "build_settings m picked = (let get = (\<lambda>key. getor picked key '''') in
     case m of
       Mode_paper \<Rightarrow> Paper \<lparr>ANTHROPIC_API_KEY = get ''ANTHROPIC_API_KEY'',
         ANTHROPIC_MODEL = getor picked ''ANTHROPIC_MODEL'' default_anthropic_model,
         TRADER_DB_PATH = getor picked ''TRADER_DB_PATH'' default_db_path,
         TRADER_RULES_PATH = getor picked ''TRADER_RULES_PATH'' default_rules_path,
         ALPACA_PAPER_READ_KEY = get ''ALPACA_PAPER_READ_KEY'',
         ALPACA_PAPER_READ_SECRET = get ''ALPACA_PAPER_READ_SECRET'',
         ALPACA_PAPER_TRADE_KEY = get ''ALPACA_PAPER_TRADE_KEY'',
         ALPACA_PAPER_TRADE_SECRET = get ''ALPACA_PAPER_TRADE_SECRET''\<rparr>
     | Mode_live \<Rightarrow> Live \<lparr>ANTHROPIC_API_KEY = get ''ANTHROPIC_API_KEY'',
         ANTHROPIC_MODEL = getor picked ''ANTHROPIC_MODEL'' default_anthropic_model,
         TRADER_DB_PATH = getor picked ''TRADER_DB_PATH'' default_db_path,
         TRADER_RULES_PATH = getor picked ''TRADER_RULES_PATH'' default_rules_path,
         ALPACA_LIVE_READ_KEY = get ''ALPACA_LIVE_READ_KEY'',
         ALPACA_LIVE_READ_SECRET = get ''ALPACA_LIVE_READ_SECRET'',
         ALPACA_LIVE_TRADE_KEY = get ''ALPACA_LIVE_TRADE_KEY'',
         ALPACA_LIVE_TRADE_SECRET = get ''ALPACA_LIVE_TRADE_SECRET'',
         TRADER_LIVE_CONFIRM = get ''TRADER_LIVE_CONFIRM''\<rparr>)"

definition load_settings :: "environ \<Rightarrow> (Settings, ConfigError) result" where
  "load_settings env =
    (let live_trade_key = getor env ''ALPACA_LIVE_TRADE_KEY'' '''';
         live_trade_secret = getor env ''ALPACA_LIVE_TRADE_SECRET'' '''';
         live_keys_present = (live_trade_key \<noteq> '''' \<and> live_trade_secret \<noteq> '''') in
     case decide_mode (env ''TRADER_MODE'') (env ''TRADER_ENV'') live_keys_present
         (env ''TRADER_LIVE_CONFIRM'') of
       Err e \<Rightarrow> Err e
     | Ok m \<Rightarrow> let picked = pick env m in
         if missing_fields picked m \<noteq> [] then Err (missing_fields_message (missing_fields picked m))
         else Ok (build_settings m picked))"

lemma settings_mode_build [simp]: "settings_mode (build_settings m picked) = m"
  by (cases m) (simp_all add: build_settings_def settings_mode_def Let_def)

lemma load_settings_ok [outcome]:
  "load_settings env = Ok s \<Longrightarrow>
     decide_mode (env ''TRADER_MODE'') (env ''TRADER_ENV'')
       (getor env ''ALPACA_LIVE_TRADE_KEY'' '''' \<noteq> '''' \<and> getor env ''ALPACA_LIVE_TRADE_SECRET'' '''' \<noteq> '''')
       (env ''TRADER_LIVE_CONFIRM'') = Ok (settings_mode s)
     \<and> s = build_settings (settings_mode s) (pick env (settings_mode s))"
  by (auto simp: load_settings_def Let_def split: result.splits if_splits)

lemma pick_cong:
  "(\<And>key. key \<in> set (model_fields m) \<Longrightarrow> env key = env' key) \<Longrightarrow> pick env m = pick env' m"
  by (auto simp: pick_def)

section \<open>Properties\<close>

text \<open>
  C15: the process trades with real money only when the mode is spelled out as live, both live
  trading keys are present and not empty, the confirmation phrase is given verbatim, and the
  environment is not the test environment.
\<close>

theorem live_only_when_confirmed:
  assumes "load_settings env = Ok s" "settings_mode s = Mode_live"
  shows "(\<exists>m. env ''TRADER_MODE'' = Some m \<and> py_strip m = ''live'')
    \<and> env ''TRADER_ENV'' \<noteq> Some ''test''
    \<and> (\<exists>k. env ''ALPACA_LIVE_TRADE_KEY'' = Some k \<and> k \<noteq> '''')
    \<and> (\<exists>k. env ''ALPACA_LIVE_TRADE_SECRET'' = Some k \<and> k \<noteq> '''')
    \<and> env ''TRADER_LIVE_CONFIRM'' = Some ''I_ACCEPT_REAL_MONEY_RISK''"
proof -
  have "decide_mode (env ''TRADER_MODE'') (env ''TRADER_ENV'')
       (getor env ''ALPACA_LIVE_TRADE_KEY'' '''' \<noteq> '''' \<and> getor env ''ALPACA_LIVE_TRADE_SECRET'' '''' \<noteq> '''')
       (env ''TRADER_LIVE_CONFIRM'') = Ok Mode_live"
    using load_settings_ok [OF assms(1)] assms(2) by simp
  then show ?thesis
    by (auto simp: decide_mode_live_iff getor_def split: option.splits)
qed

definition sample_live_env :: environ where
  "sample_live_env = map_of [(''TRADER_MODE'', '' live ''), (''ANTHROPIC_API_KEY'', ''a''),
     (''ALPACA_LIVE_READ_KEY'', ''r''), (''ALPACA_LIVE_READ_SECRET'', ''rs''),
     (''ALPACA_LIVE_TRADE_KEY'', ''t''), (''ALPACA_LIVE_TRADE_SECRET'', ''ts''),
     (''TRADER_LIVE_CONFIRM'', ''I_ACCEPT_REAL_MONEY_RISK'')]"

theorem live_only_when_confirmed_witness:
  "\<exists>s. load_settings sample_live_env = Ok s \<and> settings_mode s = Mode_live
     \<and> sample_live_env ''TRADER_LIVE_CONFIRM'' = Some ''I_ACCEPT_REAL_MONEY_RISK''"
proof -
  let ?s = "build_settings Mode_live (pick sample_live_env Mode_live)"
  have e: "load_settings sample_live_env = Ok ?s"
  proof -
    have "decide_mode (sample_live_env ''TRADER_MODE'') (sample_live_env ''TRADER_ENV'') True
        (sample_live_env ''TRADER_LIVE_CONFIRM'') = Ok Mode_live"
      by (simp add: decide_mode_live_iff sample_live_env_def) code_simp
    moreover have "missing_fields (pick sample_live_env Mode_live) Mode_live = []" by code_simp
    ultimately show ?thesis
      by (simp add: load_settings_def getor_def sample_live_env_def)
  qed
  show ?thesis using live_only_when_confirmed [OF e] e by simp
qed

text \<open>
  A paper process is independent of every variable its settings class does not declare: two
  environments that agree on the paper fields, and both decide for paper, load the same settings,
  so no live secret can reach them.
\<close>

theorem paper_settings_isolated:
  assumes "load_settings env = Ok s" "settings_mode s = Mode_paper"
    and "load_settings env' = Ok s'" "settings_mode s' = Mode_paper"
    and "\<And>key. key \<in> set (model_fields Mode_paper) \<Longrightarrow> env key = env' key"
  shows "s = s'"
proof -
  have "pick env Mode_paper = pick env' Mode_paper" using assms(5) by (rule pick_cong)
  then show ?thesis
    using load_settings_ok [OF assms(1)] load_settings_ok [OF assms(3)] assms(2,4) by metis
qed

definition sample_paper_env :: environ where
  "sample_paper_env = map_of [(''ANTHROPIC_API_KEY'', ''a''),
     (''ALPACA_PAPER_READ_KEY'', ''r''), (''ALPACA_PAPER_READ_SECRET'', ''rs''),
     (''ALPACA_PAPER_TRADE_KEY'', ''t''), (''ALPACA_PAPER_TRADE_SECRET'', ''ts'')]"

theorem paper_settings_isolated_witness:
  "load_settings sample_paper_env = load_settings (sample_paper_env(''ALPACA_LIVE_TRADE_KEY'' \<mapsto> ''x''))"
proof -
  let ?env' = "sample_paper_env(''ALPACA_LIVE_TRADE_KEY'' \<mapsto> ''x'')"
  have l: "load_settings sample_paper_env = Ok (build_settings Mode_paper (pick sample_paper_env Mode_paper))"
    by (simp add: load_settings_def Let_def decide_mode_def getor_def sample_paper_env_def
        missing_fields_def required_fields_def pick_def model_fields_def py_strip_def lstrip_def)
  have l': "load_settings ?env' = Ok (build_settings Mode_paper (pick ?env' Mode_paper))"
    by (simp add: load_settings_def Let_def decide_mode_def getor_def sample_paper_env_def
        missing_fields_def required_fields_def pick_def model_fields_def py_strip_def lstrip_def)
  have "build_settings Mode_paper (pick sample_paper_env Mode_paper)
      = build_settings Mode_paper (pick ?env' Mode_paper)"
    by (rule paper_settings_isolated [OF l _ l']) (auto simp: model_fields_def required_fields_def)
  then show ?thesis using l l' by simp
qed

end
