(* ===== verification/Ledger_Db.thy ===== *)
theory Ledger_Db
  imports Domain_Models Result_Type
begin

text \<open>
  The ledger: the schema of ledger/migrations/0001_init.sql with its keys, and the connection of
  ledger/db.py with its transactions.

  A table is the list of its rows in insertion order. A connection sees its own uncommitted writes
  (\<open>working\<close>) on top of what other connections see (\<open>committed\<close>). Any statement and any commit
  may fail with an operational error: \<open>faults\<close> says which, by the number of statements executed
  before it, with SQLite's message. A failed statement changes nothing. Reads are taken to
  succeed.
\<close>

section \<open>Tables\<close>

definition find_row :: "('r \<Rightarrow> 'k) \<Rightarrow> 'k \<Rightarrow> 'r list \<Rightarrow> 'r option" where
  "find_row key k rs = find (\<lambda>r. key r = k) rs"

definition has_key :: "('r \<Rightarrow> 'k) \<Rightarrow> 'k \<Rightarrow> 'r list \<Rightarrow> bool" where
  "has_key key k rs = (k \<in> key ` set rs)"

definition put_row :: "('r \<Rightarrow> 'k) \<Rightarrow> 'r \<Rightarrow> 'r list \<Rightarrow> 'r list" where
  "put_row key r rs = (if has_key key (key r) rs then map (\<lambda>x. if key x = key r then r else x) rs
     else rs @ [r])"

definition drop_row :: "('r \<Rightarrow> 'k) \<Rightarrow> 'k \<Rightarrow> 'r list \<Rightarrow> 'r list" where
  "drop_row key k rs = filter (\<lambda>r. key r \<noteq> k) rs"

definition change_row :: "('r \<Rightarrow> 'k) \<Rightarrow> 'k \<Rightarrow> ('r \<Rightarrow> 'r) \<Rightarrow> 'r list \<Rightarrow> 'r list" where
  "change_row key k f rs = map (\<lambda>r. if key r = k then f r else r) rs"

lemma find_row_None: "find_row key k rs = None \<longleftrightarrow> \<not> has_key key k rs"
  by (auto simp: find_row_def has_key_def find_None_iff)

lemma find_row_Some: "find_row key k rs = Some r \<Longrightarrow> r \<in> set rs \<and> key r = k"
  by (auto simp: find_row_def dest: find_Some_mem)

lemma find_row_has_key: "find_row key k rs = Some r \<Longrightarrow> has_key key k rs"
  using find_row_None [of key k rs] by simp

lemma has_key_append: "has_key key k (rs @ [r]) \<longleftrightarrow> has_key key k rs \<or> k = key r"
  by (auto simp: has_key_def)

lemma find_row_unique:
  "distinct (map key rs) \<Longrightarrow> r \<in> set rs \<Longrightarrow> find_row key (key r) rs = Some r"
  by (induction rs) (auto simp: find_row_def)

lemma find_row_append:
  "find_row key k (rs @ [r]) = (case find_row key k rs of
     Some x \<Rightarrow> Some x | None \<Rightarrow> if key r = k then Some r else None)"
  by (simp add: find_row_def find_append split: option.split)

lemma find_row_map_same:
  assumes "\<And>x. x \<in> set rs \<Longrightarrow> key (f x) = key x"
  shows "find_row key k (map f rs) = map_option f (find_row key k rs)"
  using assms by (induction rs) (simp_all add: find_row_def)

lemma find_row_put: "find_row key k (put_row key r rs) = (if k = key r then Some r else find_row key k rs)"
proof (cases "has_key key (key r) rs")
  case True
  let ?f = "\<lambda>x. if key x = key r then r else x"
  have "find_row key k (map ?f rs) = map_option ?f (find_row key k rs)"
    by (intro find_row_map_same) simp
  then show ?thesis
    using True find_row_None [of key k rs] find_row_Some [of key k rs]
    by (cases "find_row key k rs") (auto simp: put_row_def)
next
  case False
  then show ?thesis
    using find_row_None [of key "key r" rs]
    by (auto simp: put_row_def find_row_append split: option.split)
qed

lemma find_row_drop: "find_row key k (drop_row key k' rs) = (if k = k' then None else find_row key k rs)"
  by (induction rs) (auto simp: find_row_def drop_row_def)

lemma find_row_change:
  assumes "\<And>r. key (f r) = key r"
  shows "find_row key k (change_row key k' f rs)
    = (if k = k' then map_option f (find_row key k rs) else find_row key k rs)"
proof -
  have "find_row key k (change_row key k' f rs)
      = map_option (\<lambda>r. if key r = k' then f r else r) (find_row key k rs)"
    unfolding change_row_def using assms by (intro find_row_map_same) simp
  then show ?thesis
    using find_row_Some [of key k rs] by (cases "find_row key k rs") auto
qed

text \<open>Every operation keeps the key unique.\<close>

lemma keys_put: "map key (put_row key r rs) = (if has_key key (key r) rs then map key rs else map key rs @ [key r])"
  by (auto simp: put_row_def)

lemma distinct_put: "distinct (map key rs) \<Longrightarrow> distinct (map key (put_row key r rs))"
  by (auto simp: keys_put has_key_def)

lemma distinct_drop: "distinct (map key rs) \<Longrightarrow> distinct (map key (drop_row key k rs))"
  by (simp add: drop_row_def distinct_map_filter)

lemma keys_change: "(\<And>r. key (f r) = key r) \<Longrightarrow> map key (change_row key k f rs) = map key rs"
  by (simp add: change_row_def)

lemma distinct_append_row:
  "distinct (map key rs) \<Longrightarrow> \<not> has_key key (key r) rs \<Longrightarrow> distinct (map key (rs @ [r]))"
  by (simp add: has_key_def)

section \<open>The schema\<close>

record source_row =
  src_source_id :: string
  src_name :: string
  src_imported_at :: datetime
  src_file_sha256 :: string
  src_record_count :: int

record rule_set_row =
  rsr_sha256 :: string
  rsr_approved_by :: string
  rsr_approved_at :: string
  rsr_capital_usd :: Money
  rsr_content_yaml :: string

record cycle_row =
  cyc_id :: string
  cyc_started_at :: datetime
  cyc_finished_at :: "datetime option"
  cyc_mode :: string
  cyc_outcome :: "string option"
  cyc_error_summary :: "string option"

record db =
  sources :: "source_row list"
  mentions :: "Mention list"
  rule_sets :: "rule_set_row list"
  cycles :: "cycle_row list"
  decisions :: "Decision list"
  approvals :: "Approval list"
  orders :: "Order list"
  fills :: "Fill list"
  positions :: "Position list"
  trades :: "Trade list"
  equity_snapshots :: "EquitySnapshot list"
  engine_state :: "(string \<times> string option) list"

definition empty_db :: db where
  "empty_db = \<lparr>sources = [], mentions = [], rule_sets = [], cycles = [], decisions = [],
     approvals = [], orders = [], fills = [], positions = [], trades = [], equity_snapshots = [],
     engine_state = []\<rparr>"

text \<open>
  What the schema guarantees of every database: keys are unique, client order ids are unique, and
  every reference points to a row that exists.
\<close>

definition schema_ok :: "db \<Rightarrow> bool" where
  "schema_ok d \<longleftrightarrow>
     distinct (map src_source_id (sources d)) \<and> distinct (map m_id (mentions d))
     \<and> distinct (map (\<lambda>m. (m_source_id m, m_external_id m, m_ticker m)) (mentions d))
     \<and> distinct (map rsr_sha256 (rule_sets d)) \<and> distinct (map cyc_id (cycles d))
     \<and> distinct (map d_id (decisions d)) \<and> distinct (map a_id (approvals d))
     \<and> distinct (map o_id (orders d)) \<and> distinct (map o_client_order_id (orders d))
     \<and> distinct (map f_id (fills d)) \<and> distinct (map p_ticker (positions d))
     \<and> distinct (map t_id (trades d)) \<and> distinct (map s_snapshot_date (equity_snapshots d))
     \<and> distinct (map fst (engine_state d))
     \<and> m_source_id ` set (mentions d) \<subseteq> src_source_id ` set (sources d)
     \<and> d_cycle_id ` set (decisions d) \<subseteq> cyc_id ` set (cycles d)
     \<and> d_rule_set_sha256 ` set (decisions d) \<subseteq> rsr_sha256 ` set (rule_sets d)
     \<and> a_decision_id ` set (approvals d) \<subseteq> d_id ` set (decisions d)
     \<and> o_decision_id ` set (orders d) \<subseteq> d_id ` set (decisions d)
     \<and> o_approval_id ` set (orders d) \<subseteq> a_id ` set (approvals d)
     \<and> f_order_id ` set (fills d) \<subseteq> o_id ` set (orders d)
     \<and> t_entry_decision_id ` set (trades d) \<subseteq> d_id ` set (decisions d)"

lemma schema_ok_empty [simp]: "schema_ok empty_db"
  by (simp add: schema_ok_def empty_db_def)

section \<open>Connections\<close>

type_synonym LedgerError = string

record conn =
  committed :: db
  working :: db
  faults :: "nat \<Rightarrow> string option"
  stmts :: nat

definition open_conn :: "db \<Rightarrow> (nat \<Rightarrow> string option) \<Rightarrow> conn" where
  "open_conn d fs = \<lparr>committed = d, working = d, faults = fs, stmts = 0\<rparr>"

text \<open>\<open>conn.execute\<close> of a statement that writes: it may fail, or violate a constraint.\<close>

definition run_stmt :: "(db \<Rightarrow> (db \<times> 'a, string) result) \<Rightarrow> conn \<Rightarrow> ('a, string) result \<times> conn" where
  "run_stmt op c = (let c' = c\<lparr>stmts := Suc (stmts c)\<rparr> in
     case faults c (stmts c) of
       Some msg \<Rightarrow> (Err msg, c')
     | None \<Rightarrow> (case op (working c) of
         Err msg \<Rightarrow> (Err msg, c')
       | Ok (d, v) \<Rightarrow> (Ok v, c'\<lparr>working := d\<rparr>)))"

definition rollback :: "conn \<Rightarrow> conn" where
  "rollback c = c\<lparr>working := committed c\<rparr>"

text \<open>A commit that fails is rolled back, and its error raised.\<close>

definition commit :: "conn \<Rightarrow> (unit, string) result \<times> conn" where
  "commit c = (let c' = c\<lparr>stmts := Suc (stmts c)\<rparr> in
     case faults c (stmts c) of
       Some msg \<Rightarrow> (Err msg, rollback c')
     | None \<Rightarrow> (Ok (), c'\<lparr>committed := working c\<rparr>))"

text \<open>
  \<open>transaction\<close>: a body that ends normally is committed with everything pending on the
  connection; a body that raises, which is \<open>Err\<close> here, is rolled back with everything pending on
  the connection.
\<close>

definition transaction :: "(conn \<Rightarrow> ('a, string) result \<times> conn) \<Rightarrow> conn \<Rightarrow> ('a, string) result \<times> conn" where
  "transaction body c = (case body c of
     (Err e, c1) \<Rightarrow> (Err e, rollback c1)
   | (Ok v, c1) \<Rightarrow> (case commit c1 of
       (Err e, c2) \<Rightarrow> (Err e, c2)
     | (Ok _, c2) \<Rightarrow> (Ok v, c2)))"

definition run_in_transaction :: "(conn \<Rightarrow> ('a, string) result \<times> conn) \<Rightarrow> conn
    \<Rightarrow> ('a, LedgerError) result \<times> conn" where
  "run_in_transaction fn c = (case transaction fn c of
     (Ok v, c') \<Rightarrow> (Ok v, c')
   | (Err e, c') \<Rightarrow> (Err (''transaction failed: '' @ e), c'))"

section \<open>Statements and transactions\<close>

text \<open>What a sequence of statements does not touch: the committed data and the faults to come.\<close>

definition same_store :: "conn \<Rightarrow> conn \<Rightarrow> bool" where
  "same_store c c' \<longleftrightarrow> committed c' = committed c \<and> faults c' = faults c \<and> stmts c \<le> stmts c'"

lemma same_store_refl [simp, intro]: "same_store c c"
  by (simp add: same_store_def)

lemma same_store_trans [trans]: "same_store a b \<Longrightarrow> same_store b c \<Longrightarrow> same_store a c"
  by (auto simp: same_store_def)

lemma same_store_run_stmt [frame]: "run_stmt op c = (r, c') \<Longrightarrow> same_store c c'"
  by (auto simp: run_stmt_def same_store_def Let_def split: option.splits result.splits)

lemma run_stmt_Ok [outcome]:
  "run_stmt op c = (Ok v, c') \<longleftrightarrow> faults c (stmts c) = None
     \<and> (\<exists>d. op (working c) = Ok (d, v) \<and> c' = c\<lparr>stmts := Suc (stmts c), working := d\<rparr>)"
  by (auto simp: run_stmt_def Let_def split: option.splits result.splits)

lemma run_stmt_Err [outcome]:
  "run_stmt op c = (Err e, c') \<longleftrightarrow> c' = c\<lparr>stmts := Suc (stmts c)\<rparr>
     \<and> (faults c (stmts c) = Some e \<or> faults c (stmts c) = None \<and> op (working c) = Err e)"
  by (auto simp: run_stmt_def Let_def split: option.splits result.splits)

lemma working_run_stmt:
  "run_stmt op c = (r, c') \<Longrightarrow> working c' = working c \<or> (\<exists>v. op (working c) = Ok (working c', v))"
  by (auto simp: run_stmt_def Let_def split: option.splits result.splits)

lemma run_stmt_no_fault:
  "faults c (stmts c) = None \<Longrightarrow> op (working c) = Ok (d, v)
     \<Longrightarrow> run_stmt op c = (Ok v, c\<lparr>stmts := Suc (stmts c), working := d\<rparr>)"
  by (simp add: run_stmt_def)

lemma commit_Ok [outcome]:
  "commit c = (Ok u, c') \<longleftrightarrow> faults c (stmts c) = None
     \<and> c' = c\<lparr>stmts := Suc (stmts c), committed := working c\<rparr>"
  by (auto simp: commit_def Let_def split: option.splits)

lemma commit_Err [outcome]:
  "commit c = (Err e, c') \<Longrightarrow> committed c' = committed c \<and> working c' = committed c \<and> faults c' = faults c"
  by (auto simp: commit_def Let_def rollback_def split: option.splits)

lemma rollback_simps [simp]:
  "committed (rollback c) = committed c" "working (rollback c) = committed c"
  "faults (rollback c) = faults c" "stmts (rollback c) = stmts c"
  by (simp_all add: rollback_def)

lemma transaction_Ok:
  "transaction body c = (Ok v, c') \<Longrightarrow> \<exists>c1. body c = (Ok v, c1)
     \<and> faults c1 (stmts c1) = None \<and> c' = c1\<lparr>stmts := Suc (stmts c1), committed := working c1\<rparr>"
  by (auto simp: transaction_def commit_Ok split: prod.splits result.splits)

lemma transaction_Err:
  assumes "transaction body c = (Err e, c')" "\<And>r c1. body c = (r, c1) \<Longrightarrow> same_store c c1"
  shows "committed c' = committed c \<and> working c' = committed c \<and> faults c' = faults c"
proof -
  obtain r c1 where b: "body c = (r, c1)" by fastforce
  with assms(2) have "committed c1 = committed c" "faults c1 = faults c"
    by (auto simp: same_store_def)
  then show ?thesis using assms(1) b
    by (auto simp: transaction_def split: result.splits prod.splits dest: commit_Err)
qed

end
