(* ===== verification/Repository.thy ===== *)
theory Repository
  imports Ledger_Db
begin

text \<open>
  ledger/repository.py: decisions, approvals, orders and fills. A write is one statement; it
  returns the constraint violation or the operational error as its \<open>Err\<close>, under the code's
  message. A read returns the typed rows: the columns are texts in the database, and the texts the
  program writes read back as what was written (theory Money for the amounts).
\<close>

section \<open>Constraint violations\<close>

definition unique_failed :: "string \<Rightarrow> string" where
  "unique_failed column = ''UNIQUE constraint failed: '' @ column"

definition foreign_key_failed :: string where
  "foreign_key_failed = ''FOREIGN KEY constraint failed''"

section \<open>Inserts\<close>

definition insert_decision_stmt :: "Decision \<Rightarrow> db \<Rightarrow> (db \<times> unit, string) result" where
  "insert_decision_stmt d db =
    (if has_key d_id (d_id d) (decisions db) then Err (unique_failed ''decisions.id'')
     else if \<not> has_key cyc_id (d_cycle_id d) (cycles db)
       \<or> \<not> has_key rsr_sha256 (d_rule_set_sha256 d) (rule_sets db) then Err foreign_key_failed
     else Ok (db\<lparr>decisions := decisions db @ [d]\<rparr>, ()))"

definition insert_approval_stmt :: "Approval \<Rightarrow> db \<Rightarrow> (db \<times> unit, string) result" where
  "insert_approval_stmt a db =
    (if has_key a_id (a_id a) (approvals db) then Err (unique_failed ''approvals.id'')
     else if \<not> has_key d_id (a_decision_id a) (decisions db) then Err foreign_key_failed
     else Ok (db\<lparr>approvals := approvals db @ [a]\<rparr>, ()))"

definition insert_order_stmt :: "Order \<Rightarrow> db \<Rightarrow> (db \<times> unit, string) result" where
  "insert_order_stmt x db =
    (if has_key o_id (o_id x) (orders db) then Err (unique_failed ''orders.id'')
     else if has_key o_client_order_id (o_client_order_id x) (orders db)
     then Err (unique_failed ''orders.client_order_id'')
     else if \<not> has_key d_id (o_decision_id x) (decisions db)
       \<or> \<not> has_key a_id (o_approval_id x) (approvals db) then Err foreign_key_failed
     else Ok (db\<lparr>orders := orders db @ [x]\<rparr>, ()))"

definition insert_fill_stmt :: "Fill \<Rightarrow> db \<Rightarrow> (db \<times> unit, string) result" where
  "insert_fill_stmt f db =
    (if has_key f_id (f_id f) (fills db) then Err (unique_failed ''fills.id'')
     else if \<not> has_key o_id (f_order_id f) (orders db) then Err foreign_key_failed
     else Ok (db\<lparr>fills := fills db @ [f]\<rparr>, ()))"

text \<open>\<open>except sqlite3.Error as exc: return Err(LedgerError(...))\<close>.\<close>

definition wrap_stmt :: "string \<Rightarrow> 'a \<Rightarrow> ('b, string) result \<times> conn \<Rightarrow> ('a, LedgerError) result \<times> conn" where
  "wrap_stmt what v rc = (case rc of
     (Ok _, c) \<Rightarrow> (Ok v, c)
   | (Err e, c) \<Rightarrow> (Err (what @ e), c))"

definition insert_decision :: "conn \<Rightarrow> Decision \<Rightarrow> (Decision, LedgerError) result \<times> conn" where
  "insert_decision c d = wrap_stmt ''could not insert decision: '' d (run_stmt (insert_decision_stmt d) c)"

definition insert_approval :: "conn \<Rightarrow> Approval \<Rightarrow> (Approval, LedgerError) result \<times> conn" where
  "insert_approval c a = wrap_stmt ''could not insert approval: '' a (run_stmt (insert_approval_stmt a) c)"

definition insert_order :: "conn \<Rightarrow> Order \<Rightarrow> (Order, LedgerError) result \<times> conn" where
  "insert_order c x = wrap_stmt ''could not insert order: '' x (run_stmt (insert_order_stmt x) c)"

definition insert_fill :: "conn \<Rightarrow> Fill \<Rightarrow> (Fill, LedgerError) result \<times> conn" where
  "insert_fill c f = wrap_stmt ''could not insert fill: '' f (run_stmt (insert_fill_stmt f) c)"

section \<open>Order status\<close>

definition coalesce :: "'a option \<Rightarrow> 'a option \<Rightarrow> 'a option" where
  "coalesce a b = (case a of None \<Rightarrow> b | Some x \<Rightarrow> Some x)"

definition set_status :: "OrderStatus \<Rightarrow> string option \<Rightarrow> string option \<Rightarrow> datetime option \<Rightarrow> Order \<Rightarrow> Order" where
  "set_status status last_error broker_order_id submitted_at x =
     x\<lparr>o_status := status,
       o_last_error := coalesce last_error (o_last_error x),
       o_broker_order_id := coalesce broker_order_id (o_broker_order_id x),
       o_submitted_at := coalesce submitted_at (o_submitted_at x)\<rparr>"

text \<open>The statement returns the number of rows it updated.\<close>

definition update_order_stmt :: "string \<Rightarrow> (Order \<Rightarrow> Order) \<Rightarrow> db \<Rightarrow> (db \<times> nat, string) result" where
  "update_order_stmt order_id f db =
     Ok (db\<lparr>orders := change_row o_id order_id f (orders db)\<rparr>,
       length (filter (\<lambda>x. o_id x = order_id) (orders db)))"

definition update_order_status :: "conn \<Rightarrow> string \<Rightarrow> OrderStatus \<Rightarrow> string option \<Rightarrow> string option
    \<Rightarrow> datetime option \<Rightarrow> (unit, LedgerError) result \<times> conn" where
  "update_order_status c order_id status last_error broker_order_id submitted_at =
    (case run_stmt (update_order_stmt order_id (set_status status last_error broker_order_id submitted_at)) c of
       (Err e, c') \<Rightarrow> (Err (''could not update order: '' @ e), c')
     | (Ok n, c') \<Rightarrow> if n = 0 then (Err (''no such order: '' @ order_id), c') else (Ok (), c'))"

section \<open>Reads\<close>

definition list_fills :: "conn \<Rightarrow> string \<Rightarrow> Fill list" where
  "list_fills c order_id = sort_key f_filled_at (filter (\<lambda>f. f_order_id f = order_id) (fills (working c)))"

definition get_order :: "conn \<Rightarrow> string \<Rightarrow> Order option" where
  "get_order c order_id = find_row o_id order_id (orders (working c))"

text \<open>Newest approval first; the expiry is compared as an instant.\<close>

definition find_valid_approval :: "conn \<Rightarrow> string \<Rightarrow> datetime \<Rightarrow> Approval option" where
  "find_valid_approval c decision_id now =
     find (\<lambda>a. now < a_expires_at a)
       (sort_key (\<lambda>a. - a_approved_at a) (filter (\<lambda>a. a_decision_id a = decision_id) (approvals (working c))))"

definition list_decisions :: "conn \<Rightarrow> string option \<Rightarrow> Decision list" where
  "list_decisions c cycle_id = (case cycle_id of
     None \<Rightarrow> sort_key (\<lambda>d. - d_decided_at d) (decisions (working c))
   | Some cid \<Rightarrow> sort_key (\<lambda>d. - d_decided_at d)
       (filter (\<lambda>d. d_cycle_id d = cid) (decisions (working c))))"

definition get_decision :: "conn \<Rightarrow> string \<Rightarrow> Decision option" where
  "get_decision c decision_id = find_row d_id decision_id (decisions (working c))"

text \<open>A missing submission time sorts as the empty text, before every timestamp.\<close>

definition submitted_key :: "Order \<Rightarrow> (nat \<times> int) \<times> string" where
  "submitted_key x = ((case o_submitted_at x of None \<Rightarrow> (0, 0) | Some t \<Rightarrow> (1, t)), o_id x)"

definition list_orders :: "conn \<Rightarrow> Order list" where
  "list_orders c = sort_key submitted_key (orders (working c))"

definition list_all_fills :: "conn \<Rightarrow> Fill list" where
  "list_all_fills c = sort_key f_filled_at (fills (working c))"

record FillContext =
  fc_fill :: Fill
  fc_side :: Side
  fc_decision_id :: string

text \<open>
  The joins over the foreign keys: the order of a fill and the decision of an order are found by
  their primary keys.
\<close>

definition fill_context :: "db \<Rightarrow> string \<Rightarrow> Fill \<Rightarrow> FillContext option" where
  "fill_context db ticker f = (case find_row o_id (f_order_id f) (orders db) of
     None \<Rightarrow> None
   | Some x \<Rightarrow> (case find_row d_id (o_decision_id x) (decisions db) of
       None \<Rightarrow> None
     | Some d \<Rightarrow> if d_ticker d = ticker
         then Some \<lparr>fc_fill = f, fc_side = o_side x, fc_decision_id = o_decision_id x\<rparr> else None))"

definition list_fill_context_for_ticker_since :: "conn \<Rightarrow> string \<Rightarrow> datetime \<Rightarrow> FillContext list" where
  "list_fill_context_for_ticker_since c ticker since =
     sort_key (\<lambda>x. f_filled_at (fc_fill x))
       (filter (\<lambda>x. since \<le> f_filled_at (fc_fill x))
         (List.map_filter (fill_context (working c) ticker) (fills (working c))))"

section \<open>What the writes do\<close>

lemma wrap_stmt_Ok [outcome]: "wrap_stmt w v rc = (Ok x, c') \<longleftrightarrow> x = v \<and> (\<exists>u. rc = (Ok u, c'))"
  by (auto simp: wrap_stmt_def split: prod.splits result.splits)

lemma wrap_stmt_Err [outcome]: "wrap_stmt w v rc = (Err e, c') \<longleftrightarrow> (\<exists>m. rc = (Err m, c') \<and> e = w @ m)"
  by (auto simp: wrap_stmt_def split: prod.splits result.splits)

lemma same_store_wrap [frame]: "wrap_stmt w v (run_stmt op c) = (r, c') \<Longrightarrow> same_store c c'"
  by (cases r) (auto simp: wrap_stmt_Ok wrap_stmt_Err dest: same_store_run_stmt)

lemma same_store_insert_decision [frame]: "insert_decision c d = (r, c') \<Longrightarrow> same_store c c'"
  unfolding insert_decision_def by (rule same_store_wrap)

lemma same_store_insert_approval [frame]: "insert_approval c a = (r, c') \<Longrightarrow> same_store c c'"
  unfolding insert_approval_def by (rule same_store_wrap)

lemma same_store_insert_order [frame]: "insert_order c x = (r, c') \<Longrightarrow> same_store c c'"
  unfolding insert_order_def by (rule same_store_wrap)

lemma same_store_insert_fill [frame]: "insert_fill c f = (r, c') \<Longrightarrow> same_store c c'"
  unfolding insert_fill_def by (rule same_store_wrap)

lemma same_store_update_order_status [frame]:
  "update_order_status c i s le b t = (r, c') \<Longrightarrow> same_store c c'"
  by (auto simp: update_order_status_def split: prod.splits result.splits if_splits
      dest: same_store_run_stmt)

lemma insert_decision_Ok [outcome]:
  "insert_decision c d = (Ok x, c') \<longleftrightarrow> x = d \<and> faults c (stmts c) = None
     \<and> \<not> has_key d_id (d_id d) (decisions (working c))
     \<and> has_key cyc_id (d_cycle_id d) (cycles (working c))
     \<and> has_key rsr_sha256 (d_rule_set_sha256 d) (rule_sets (working c))
     \<and> c' = c\<lparr>stmts := Suc (stmts c), working := (working c)\<lparr>decisions := decisions (working c) @ [d]\<rparr>\<rparr>"
  by (auto simp: insert_decision_def wrap_stmt_Ok run_stmt_Ok insert_decision_stmt_def)

lemma insert_approval_Ok [outcome]:
  "insert_approval c a = (Ok x, c') \<longleftrightarrow> x = a \<and> faults c (stmts c) = None
     \<and> \<not> has_key a_id (a_id a) (approvals (working c))
     \<and> has_key d_id (a_decision_id a) (decisions (working c))
     \<and> c' = c\<lparr>stmts := Suc (stmts c), working := (working c)\<lparr>approvals := approvals (working c) @ [a]\<rparr>\<rparr>"
  by (auto simp: insert_approval_def wrap_stmt_Ok run_stmt_Ok insert_approval_stmt_def)

lemma insert_order_Ok [outcome]:
  "insert_order c y = (Ok x, c') \<longleftrightarrow> x = y \<and> faults c (stmts c) = None
     \<and> \<not> has_key o_id (o_id y) (orders (working c))
     \<and> \<not> has_key o_client_order_id (o_client_order_id y) (orders (working c))
     \<and> has_key d_id (o_decision_id y) (decisions (working c))
     \<and> has_key a_id (o_approval_id y) (approvals (working c))
     \<and> c' = c\<lparr>stmts := Suc (stmts c), working := (working c)\<lparr>orders := orders (working c) @ [y]\<rparr>\<rparr>"
  by (auto simp: insert_order_def wrap_stmt_Ok run_stmt_Ok insert_order_stmt_def)

lemma insert_fill_Ok [outcome]:
  "insert_fill c f = (Ok x, c') \<longleftrightarrow> x = f \<and> faults c (stmts c) = None
     \<and> \<not> has_key f_id (f_id f) (fills (working c))
     \<and> has_key o_id (f_order_id f) (orders (working c))
     \<and> c' = c\<lparr>stmts := Suc (stmts c), working := (working c)\<lparr>fills := fills (working c) @ [f]\<rparr>\<rparr>"
  by (auto simp: insert_fill_def wrap_stmt_Ok run_stmt_Ok insert_fill_stmt_def)

lemma update_order_status_Ok [outcome]:
  "update_order_status c i s le b t = (Ok u, c') \<longleftrightarrow> faults c (stmts c) = None
     \<and> has_key o_id i (orders (working c))
     \<and> c' = c\<lparr>stmts := Suc (stmts c),
         working := (working c)\<lparr>orders := change_row o_id i (set_status s le b t) (orders (working c))\<rparr>\<rparr>"
proof -
  have "length (filter (\<lambda>x. o_id x = i) (orders (working c))) = 0 \<longleftrightarrow> \<not> has_key o_id i (orders (working c))"
    by (auto simp: has_key_def filter_empty_conv)
  then show ?thesis
    by (auto simp: update_order_status_def run_stmt_Ok run_stmt_Err update_order_stmt_def
        split: prod.splits result.splits)
qed

lemma set_status_simps [simp]:
  "o_id (set_status s le b t x) = o_id x" "o_decision_id (set_status s le b t x) = o_decision_id x"
  "o_approval_id (set_status s le b t x) = o_approval_id x"
  "o_client_order_id (set_status s le b t x) = o_client_order_id x"
  "o_side (set_status s le b t x) = o_side x" "o_qty (set_status s le b t x) = o_qty x"
  "o_status (set_status s le b t x) = s" "o_mode (set_status s le b t x) = o_mode x"
  by (simp_all add: set_status_def)

section \<open>The writes keep the schema\<close>

lemma schema_insert_decision: "insert_decision_stmt d db = Ok (db', u) \<Longrightarrow> schema_ok db \<Longrightarrow> schema_ok db'"
  by (auto simp: insert_decision_stmt_def schema_ok_def has_key_def image_subset_iff split: if_splits)

lemma schema_insert_approval: "insert_approval_stmt a db = Ok (db', u) \<Longrightarrow> schema_ok db \<Longrightarrow> schema_ok db'"
  by (auto simp: insert_approval_stmt_def schema_ok_def has_key_def image_subset_iff split: if_splits)

lemma schema_insert_order: "insert_order_stmt x db = Ok (db', u) \<Longrightarrow> schema_ok db \<Longrightarrow> schema_ok db'"
  by (auto simp: insert_order_stmt_def schema_ok_def has_key_def image_subset_iff split: if_splits)

lemma schema_insert_fill: "insert_fill_stmt f db = Ok (db', u) \<Longrightarrow> schema_ok db \<Longrightarrow> schema_ok db'"
  by (auto simp: insert_fill_stmt_def schema_ok_def has_key_def image_subset_iff split: if_splits)

lemma change_row_images:
  assumes "\<And>r. g (f r) = g r"
  shows "map g (change_row key k f rs) = map g rs" "g ` set (change_row key k f rs) = g ` set rs"
proof -
  show "map g (change_row key k f rs) = map g rs" using assms by (simp add: change_row_def)
  then show "g ` set (change_row key k f rs) = g ` set rs" by (metis set_map)
qed

lemma schema_update_order:
  "update_order_stmt i (set_status s le b t) db = Ok (db', n) \<Longrightarrow> schema_ok db \<Longrightarrow> schema_ok db'"
  by (clarsimp simp: update_order_stmt_def schema_ok_def change_row_images)

section \<open>Approvals found are valid\<close>

lemma find_valid_approval_Some:
  assumes "find_valid_approval c decision_id now = Some a"
  shows "a \<in> set (approvals (working c))" "a_decision_id a = decision_id" "now < a_expires_at a"
  using find_Some_mem [OF assms [unfolded find_valid_approval_def]] by auto

lemma find_valid_approval_None:
  "find_valid_approval c decision_id now = None \<longleftrightarrow>
     (\<forall>a \<in> set (approvals (working c)). a_decision_id a = decision_id \<longrightarrow> a_expires_at a \<le> now)"
  by (auto simp: find_valid_approval_def find_None_iff_none not_less)

text \<open>Of the valid approvals, the one found was given last.\<close>

lemma find_sorted_min:
  fixes g :: "'a \<Rightarrow> int"
  shows "sorted (map g xs) \<Longrightarrow> find P xs = Some x \<Longrightarrow> y \<in> set xs \<Longrightarrow> P y \<Longrightarrow> g x \<le> g y"
  by (induction xs) (auto split: if_splits)

lemma find_valid_approval_latest:
  assumes "find_valid_approval c decision_id now = Some a"
    and "b \<in> set (approvals (working c))" "a_decision_id b = decision_id" "now < a_expires_at b"
  shows "a_approved_at b \<le> a_approved_at a"
  using find_sorted_min [OF sorted_sort_key assms(1) [unfolded find_valid_approval_def], of b] assms(2-4)
  by simp

end
