(* ===== verification/Market.thy ===== *)
theory Market
  imports Domain_Models Result_Type
begin

text \<open>
  market/data_provider.py: the interface to prices, bars and market hours, and market/fake_data.py,
  the in-memory provider. A provider is a record of its operations on the state of the outside
  world. The locale \<open>market_laws\<close> states what the provider promises of daily bars: at most as
  many as asked for, taken from the ticker's history, which reading does not change.
\<close>

type_synonym MarketError = string

record Bar =
  bar_ticker :: string
  bar_date :: day
  bar_open :: Price
  bar_high :: Price
  bar_low :: Price
  bar_close :: Price
  bar_volume :: int

record MarketClock =
  mc_is_open :: bool
  mc_next_open :: datetime
  mc_next_close :: datetime

record 'x MarketDataProvider =
  daily_bars :: "string \<Rightarrow> nat \<Rightarrow> 'x \<Rightarrow> (Bar list, MarketError) result \<times> 'x"
  latest_price :: "string \<Rightarrow> 'x \<Rightarrow> (Price, MarketError) result \<times> 'x"
  market_clock :: "'x \<Rightarrow> (MarketClock, MarketError) result \<times> 'x"

definition average_volume :: "Bar list \<Rightarrow> int" where
  "average_volume bars = (if bars = [] then 0
     else sum_list (map bar_volume bars) div int (length bars))"

text \<open>
  What a client needs of every provider, and what a provider with a fixed store of bars promises
  beyond that.
\<close>

locale bar_source =
  fixes m :: "'x MarketDataProvider"
  assumes bars_at_most: "0 < n \<Longrightarrow> daily_bars m ticker n x = (Ok bs, x') \<Longrightarrow> length bs \<le> n"
begin

lemma traded_volume_at_most:
  assumes "0 < n" "daily_bars m ticker n x = (Ok bs, x')" "\<And>b. b \<in> set bs \<Longrightarrow> bar_volume b \<le> hi" "0 \<le> hi"
  shows "sum_list (map bar_volume bs) \<le> int n * hi"
proof -
  have "sum_list (map bar_volume bs) \<le> sum_list (map (\<lambda>_. hi) bs)" using assms(3) by (rule sum_list_map_le)
  also have "\<dots> = int (length bs) * hi" by (simp add: sum_list_triv)
  also have "\<dots> \<le> int n * hi" using bars_at_most [OF assms(1,2)] assms(4) by (simp add: mult_right_mono)
  finally show ?thesis .
qed

end

locale market_laws = bar_source m
  for m :: "'x MarketDataProvider"
    and bars_of :: "'x \<Rightarrow> string \<Rightarrow> Bar list option" +
  assumes bars_from: "daily_bars m ticker n x = (Ok bs, x') \<Longrightarrow>
      \<exists>all. bars_of x ticker = Some all \<and> set bs \<subseteq> set all"
    and reads_keep: "daily_bars m ticker n x = (r, x') \<Longrightarrow> bars_of x' = bars_of x"
begin

lemma bars_known: "daily_bars m ticker n x = (Ok bs, x') \<Longrightarrow> bars_of x' ticker \<noteq> None"
  using bars_from reads_keep by fastforce

end

lemma average_volume_bounds:
  assumes "bars \<noteq> []" "\<And>b. b \<in> set bars \<Longrightarrow> lo \<le> bar_volume b \<and> bar_volume b \<le> hi"
  shows "lo \<le> average_volume bars \<and> average_volume bars \<le> hi"
proof -
  let ?n = "int (length bars)" and ?s = "sum_list (map bar_volume bars)"
  have n: "0 < ?n" using assms(1) by simp
  have "sum_list (map (\<lambda>_. lo) bars) \<le> ?s" "?s \<le> sum_list (map (\<lambda>_. hi) bars)"
    using assms(2) by (auto intro: sum_list_map_le)
  then have "lo * ?n \<le> ?s" "?s \<le> hi * ?n"
    by (simp_all add: sum_list_triv mult.commute)
  then have "lo * ?n div ?n \<le> ?s div ?n" "?s div ?n \<le> hi * ?n div ?n"
    using n by (simp_all only: zdiv_mono1)
  then show ?thesis using n assms(1) by (simp add: average_volume_def)
qed

section \<open>The fake provider\<close>

record FakeMarketData =
  fm_prices :: "string \<Rightarrow> Price option"
  fm_bars :: "string \<Rightarrow> Bar list option"
  fm_clock :: MarketClock
  fm_errors :: "string list"

definition fake_daily_bars :: "string \<Rightarrow> nat \<Rightarrow> FakeMarketData \<Rightarrow> (Bar list, MarketError) result \<times> FakeMarketData" where
  "fake_daily_bars ticker n s =
    (if ''daily_bars'' \<in> set (fm_errors s) then Err ''daily_bars is set to fail''
     else (case fm_bars s ticker of
         None \<Rightarrow> Err (''no bars configured for ticker '' @ ticker)
       | Some bars \<Rightarrow> Ok (if n = 0 then bars else last_n n bars)), s)"

definition fake_latest_price :: "string \<Rightarrow> FakeMarketData \<Rightarrow> (Price, MarketError) result \<times> FakeMarketData" where
  "fake_latest_price ticker s =
    (if ''latest_price'' \<in> set (fm_errors s) then Err ''latest_price is set to fail''
     else (case fm_prices s ticker of
         None \<Rightarrow> Err (''no price configured for ticker '' @ ticker)
       | Some p \<Rightarrow> Ok p), s)"

definition fake_market_clock :: "FakeMarketData \<Rightarrow> (MarketClock, MarketError) result \<times> FakeMarketData" where
  "fake_market_clock s =
    (if ''market_clock'' \<in> set (fm_errors s) then Err ''market_clock is set to fail''
     else Ok (fm_clock s), s)"

definition fake_market :: "FakeMarketData MarketDataProvider" where
  "fake_market = \<lparr>daily_bars = fake_daily_bars, latest_price = fake_latest_price,
     market_clock = fake_market_clock\<rparr>"

interpretation fake_feed: market_laws fake_market fm_bars
  by unfold_locales
    (auto simp: fake_market_def fake_daily_bars_def split: if_splits option.splits
      dest: subsetD [OF set_last_n])

definition with_price :: "string \<Rightarrow> Price \<Rightarrow> FakeMarketData \<Rightarrow> FakeMarketData" where
  "with_price ticker price s = s\<lparr>fm_prices := (fm_prices s)(ticker \<mapsto> price)\<rparr>"

definition with_bars :: "string \<Rightarrow> Bar list \<Rightarrow> FakeMarketData \<Rightarrow> FakeMarketData" where
  "with_bars ticker bars s = s\<lparr>fm_bars := (fm_bars s)(ticker \<mapsto> bars)\<rparr>"

definition with_clock :: "MarketClock \<Rightarrow> FakeMarketData \<Rightarrow> FakeMarketData" where
  "with_clock clk s = s\<lparr>fm_clock := clk\<rparr>"

definition failing :: "string list \<Rightarrow> FakeMarketData \<Rightarrow> FakeMarketData" where
  "failing names s = s\<lparr>fm_errors := names\<rparr>"

end
