(* ===== verification/Approval_Engine.thy ===== *)
theory Approval_Engine
  imports Repository Entry_Checks Market
begin

text \<open>
  engine/approval.py: the resolution of the approval of a rule-checked decision, the only way to an
  \<open>ApprovedOrderRequest\<close>, and the recording of a human approval. Reading the clock and drawing a
  UUID are operations of the outside world. The private token of the request class is not
  modelled: the theorems are about what \<open>resolve_approval\<close> returns.
\<close>

type_synonym ApprovalError = string

record ApprovedOrderRequest =
  req_decision :: Decision
  req_approval :: Approval
  req_side :: Side
  req_qty :: Quantity
  req_client_order_id :: string

definition half_cent :: decimal where
  "half_cent = Dec False 5 (- 3)"

definition make_request :: "Decision \<Rightarrow> Approval \<Rightarrow> Side \<Rightarrow> Quantity \<Rightarrow> ApprovedOrderRequest" where
  "make_request decision approval side qty = \<lparr>req_decision = decision, req_approval = approval,
     req_side = side, req_qty = qty, req_client_order_id = ''order_'' @ d_id decision\<rparr>"

definition order_side :: "Decision \<Rightarrow> (Side, ApprovalError) result" where
  "order_side decision = (case d_action decision of
     Action_buy \<Rightarrow> Ok Side_buy
   | Action_sell \<Rightarrow> Ok Side_sell
   | a \<Rightarrow> Err (''decision '' @ d_id decision @ '' action '' @ quoted (action_value a)
       @ '' is not buy/sell''))"

definition order_qty :: "Decision \<Rightarrow> (Quantity, ApprovalError) result" where
  "order_qty decision = (case (d_proposed_notional decision, d_reference_price decision) of
     (Some notional, Some price) \<Rightarrow>
       if dle (price_amount price) (dec_of_int 0) then
         Err (''decision '' @ d_id decision @ '' reference_price must be positive'')
       else
         let n = dfloor (dquot (dadd (money_amount notional) half_cent) (price_amount price)) in
         if n \<le> 0 then Err (''decision '' @ d_id decision @ '' sizes to zero shares'')
         else Ok (Quantity n)
   | _ \<Rightarrow> Err (''decision '' @ d_id decision
       @ '' has no proposed_notional/reference_price to size an order''))"

definition resolve_approval :: "('x \<Rightarrow> string \<times> 'x) \<Rightarrow> 'x Clock \<Rightarrow> Decision \<Rightarrow> TradingMode \<Rightarrow> conn
    \<Rightarrow> MarketClock \<Rightarrow> 'x \<Rightarrow> (ApprovedOrderRequest, ApprovalError) result \<times> 'x" where
  "resolve_approval uuid4 clock decision mode c mclock x =
    (if d_rule_check decision \<noteq> RC_passed then
       (Err (''decision '' @ d_id decision @ '' did not pass rule checks''), x)
     else (case order_side decision of
       Err e \<Rightarrow> (Err e, x)
     | Ok side \<Rightarrow> (case order_qty decision of
         Err e \<Rightarrow> (Err e, x)
       | Ok qty \<Rightarrow>
         let (now, x1) = clock x in
         if mode = Mode_paper then
           let (u, x2) = uuid4 x1 in
           (Ok (make_request decision \<lparr>a_id = ''appr_'' @ u, a_decision_id = d_id decision,
              a_approver = Approver_system, a_approved_at = now,
              a_expires_at = mc_next_close mclock\<rparr> side qty), x2)
         else (case find_valid_approval c (d_id decision) now of
             None \<Rightarrow> (Err (''no valid (unexpired, kyo-approved) approval for decision '' @ d_id decision), x1)
           | Some existing \<Rightarrow>
               if a_approver existing \<noteq> Approver_kyo then
                 (Err (''approval for decision '' @ d_id decision @ '' is not from kyo''), x1)
               else (Ok (make_request decision existing side qty), x1)))))"

text \<open>
  The early return inside the \<open>with\<close> block leaves it normally, so it commits; the approval is only
  returned when the commit succeeds.
\<close>

definition record_human_approval :: "('x \<Rightarrow> string \<times> 'x) \<Rightarrow> 'x Clock \<Rightarrow> conn \<Rightarrow> string \<Rightarrow> MarketClock \<Rightarrow> 'x
    \<Rightarrow> (Approval, ApprovalError) result \<times> conn \<times> 'x" where
  "record_human_approval uuid4 clock c decision_id mclock x = (case get_decision c decision_id of
     None \<Rightarrow> (Err (''no such decision: '' @ decision_id), c, x)
   | Some decision \<Rightarrow>
     if d_rule_check decision \<noteq> RC_passed then
       (Err (''decision '' @ decision_id @ '' did not pass rule checks''), c, x)
     else
       let (u, x1) = uuid4 x; (now, x2) = clock x1;
           approval = \<lparr>a_id = ''appr_'' @ u, a_decision_id = decision_id, a_approver = Approver_kyo,
             a_approved_at = now, a_expires_at = mc_next_close mclock\<rparr> in
       (case insert_approval c approval of
         (r, c1) \<Rightarrow> (case commit c1 of
           (Err e, c2) \<Rightarrow> (Err (''could not record approval: '' @ e), c2, x2)
         | (Ok _, c2) \<Rightarrow> (case r of
             Err e \<Rightarrow> (Err e, c2, x2)
           | Ok _ \<Rightarrow> (Ok approval, c2, x2)))))"

section \<open>What an approved request is\<close>

lemma order_side_Ok [outcome]:
  "order_side d = Ok s \<longleftrightarrow> d_action d = Action_buy \<and> s = Side_buy \<or> d_action d = Action_sell \<and> s = Side_sell"
  by (auto simp: order_side_def split: Action.splits)

lemma make_request_simps [simp]:
  "req_decision (make_request d a s q) = d" "req_approval (make_request d a s q) = a"
  "req_side (make_request d a s q) = s" "req_qty (make_request d a s q) = q"
  "req_client_order_id (make_request d a s q) = ''order_'' @ d_id d"
  by (simp_all add: make_request_def)

lemma order_qty_pos: "order_qty d = Ok q \<Longrightarrow> 0 < shares q"
  by (auto simp: order_qty_def Let_def split: option.splits if_splits)

lemma resolve_approval_Ok [outcome]:
  assumes "resolve_approval uuid4 clock d mode c mclock x = (Ok req, x')"
  shows "d_rule_check d = RC_passed \<and> order_side d = Ok (req_side req) \<and> order_qty d = Ok (req_qty req)
    \<and> req_decision req = d \<and> req_client_order_id req = ''order_'' @ d_id d
    \<and> a_decision_id (req_approval req) = d_id d
    \<and> (mode = Mode_paper \<longrightarrow> a_approver (req_approval req) = Approver_system
         \<and> a_approved_at (req_approval req) = fst (clock x)
         \<and> a_id (req_approval req) = ''appr_'' @ fst (uuid4 (snd (clock x)))
         \<and> x' = snd (uuid4 (snd (clock x))))
    \<and> (mode = Mode_live \<longrightarrow> a_approver (req_approval req) = Approver_kyo
         \<and> find_valid_approval c (d_id d) (fst (clock x)) = Some (req_approval req) \<and> x' = snd (clock x))"
proof (cases mode)
  case Mode_paper
  then show ?thesis using assms
    by (auto simp: resolve_approval_def Let_def split: result.splits if_splits prod.splits)
next
  case Mode_live
  then show ?thesis using assms find_valid_approval_Some(2) [of c "d_id d"]
    by (auto simp: resolve_approval_def Let_def split: result.splits if_splits prod.splits option.splits)
qed

section \<open>The size of the order\<close>

text \<open>
  The rounding of a notional to the cent is undone: above one cent per share, the order is for the
  number of shares the notional was computed from.
\<close>

lemma notional_cents:
  assumes "0 < ticks p" "0 < n" "ticks p * n < 10 ^ 24"
  shows "\<bar>100 * cents (mk_Money (price_times p n)) - ticks p * n\<bar> \<le> 50"
proof -
  have pos: "0 < ticks p * n" using assms by simp
  then have "\<bar>ticks p * n\<bar> < 10 ^ 28" using assms(3) by simp
  then have "dval (price_times p n) = of_int (ticks p * n) * 10 powi (- 4)" by (rule dval_price_times)
  then have "dval (price_times p n) / 10 powi (- 2) = of_int (ticks p * n) / 100" by simp
  then have "cents (mk_Money (price_times p n)) = rhe (of_int (ticks p * n) / 100)"
    by (simp only: money.units_mk_rhe)
  moreover have "\<bar>of_int (ticks p * n) / 100 - of_int (rhe (of_int (ticks p * n) / 100))\<bar> \<le> (1 / 2 :: rat)"
    by (rule rhe_error)
  ultimately have "\<bar>of_int (ticks p * n) / 100 - of_int (cents (mk_Money (price_times p n)))\<bar> \<le> (1 / 2 :: rat)"
    by simp
  moreover have "\<bar>x / 100 - y\<bar> \<le> 1 / 2 \<Longrightarrow> \<bar>100 * y - x\<bar> \<le> 50" for x y :: rat
    unfolding abs_le_iff by linarith
  ultimately have "\<bar>100 * of_int (cents (mk_Money (price_times p n))) - of_int (ticks p * n)\<bar> \<le> (50 :: rat)"
    by blast
  then have "of_int \<bar>100 * cents (mk_Money (price_times p n)) - ticks p * n\<bar> \<le> (of_int 50 :: rat)"
    by simp
  then show ?thesis by (simp only: of_int_le_iff)
qed

lemma sized_quotient:
  assumes p: "100 < ticks p" and n: "0 < n" and m: "ticks p * n < 10 ^ 24"
    and c: "\<bar>100 * c - ticks p * n\<bar> \<le> 50"
  shows "dfloor (dquot (dadd (money_amount (Money c)) half_cent) (price_amount p)) = n"
proof -
  let ?a = "dadd (money_amount (Money c)) half_cent"
  have tn: "ticks p * 1 \<le> ticks p * n" using p n by (intro mult_left_mono) simp_all
  have bounds: "ticks p * n \<le> 100 * c + 50" "100 * c + 50 \<le> ticks p * n + 100" "0 < 100 * c + 50"
    using c tn p by linarith+
  have s: "dval (money_amount (Money c)) + dval half_cent = of_int (100 * c + 50) * 10 powi (- 4)"
  proof -
    have "dval half_cent = 5 / 1000" by (simp add: half_cent_def dval_def dsint_def)
    then show ?thesis by (simp add: money.dval_amount)
  qed
  have "\<bar>100 * c + 50\<bar> < 10 ^ 28" using bounds m by simp
  with s have "representable (dval (money_amount (Money c)) + dval half_cent)" by (rule representableI)
  then have a: "dval ?a = of_int (100 * c + 50) * 10 powi (- 4)" by (simp only: dadd_exact s)
  have b: "dval (price_amount p) = of_int (ticks p) * 10 powi (- 4)" by (rule price.dval_amount)
  have pos: "0 < dval ?a" "0 < dval (price_amount p)"
    unfolding a b using bounds(3) p
    by (simp_all only: zero_less_mult_iff powi10_pos of_int_0_less_iff simp_thms) simp
  have x: "dval ?a / dval (price_amount p) = of_int (100 * c + 50) / of_int (ticks p)"
    unfolding a b by (rule mult_divide_mult_cancel_right) simp
  have tp: "(0 :: rat) < of_int (ticks p)" using p by simp
  have lower: "of_int n \<le> dval ?a / dval (price_amount p)"
  proof -
    have "of_int (n * ticks p) \<le> (of_int (100 * c + 50) :: rat)"
      using bounds(1) by (simp only: of_int_le_iff mult.commute)
    then show ?thesis unfolding x by (simp only: pos_le_divide_eq [OF tp] of_int_mult)
  qed
  have upper: "dval ?a / dval (price_amount p) \<le> of_int n + 100 / 101"
  proof -
    have "(of_int (100 * c + 50) :: rat) \<le> of_int (ticks p * n + 100)"
      using bounds(2) by (simp only: of_int_le_iff)
    also have "\<dots> \<le> (of_int n + 100 / 101) * of_int (ticks p)"
    proof -
      have "(101 :: rat) \<le> of_int (ticks p)" using p by simp
      then have "100 \<le> (100 / 101 :: rat) * of_int (ticks p)" by simp
      then show ?thesis by (simp only: distrib_right of_int_add of_int_mult of_int_numeral
            mult.commute [of "of_int n" "of_int (ticks p)"] add_le_cancel_left)
    qed
    finally show ?thesis unfolding x by (simp only: pos_divide_le_eq [OF tp])
  qed
  have n24: "n < 10 ^ 24"
  proof -
    have "1 * n \<le> ticks p * n" using p n by (intro mult_right_mono) simp_all
    then show ?thesis using m by simp
  qed
  have "of_int n \<le> dval (dquot ?a (price_amount p))"
    using pos lower n24 by (intro dquot_ge_int) simp_all
  moreover have "dval (dquot ?a (price_amount p)) < of_int n + 1"
  proof -
    have "dval (dquot ?a (price_amount p)) \<le> dval ?a / dval (price_amount p) * (1 + 1 / 10 ^ 27)"
      using pos by (rule dquot_upper)
    also have "\<dots> \<le> (of_int n + 100 / 101) * (1 + 1 / 10 ^ 27)"
      using upper by (rule mult_right_mono) simp
    also have "\<dots> < of_int n + 1"
    proof -
      have "(of_int n :: rat) < of_int (10 ^ 24)" using n24 by (simp only: of_int_less_iff)
      then have "(of_int n + 100 / 101) * (1 / 10 ^ 27) < (1 / 101 :: rat)" by simp
      then show ?thesis by (simp only: distrib_left mult_1_right)
    qed
    finally show ?thesis .
  qed
  ultimately show ?thesis unfolding dfloor_floor by (simp add: floor_eq_iff)
qed

lemma order_qty_sized:
  assumes "d_proposed_notional d = Some (mk_Money (price_times p n))" "d_reference_price d = Some p"
    and "100 < ticks p" "0 < n" "ticks p * n < 10 ^ 24"
  shows "order_qty d = Ok (Quantity n)"
proof -
  have "\<bar>100 * cents (mk_Money (price_times p n)) - ticks p * n\<bar> \<le> 50"
    using assms by (intro notional_cents) simp_all
  then have q: "dfloor (dquot (dadd (money_amount (mk_Money (price_times p n))) half_cent) (price_amount p)) = n"
    using sized_quotient [OF assms(3-5)] by (metis Money.collapse)
  have "\<not> dle (price_amount p) (dec_of_int 0)"
    using assms(3) by (simp add: dle_dval price.dval_amount)
  then show ?thesis using assms(1,2,4) q by (simp add: order_qty_def Let_def)
qed

section \<open>Properties\<close>

text \<open>
  C14: an approved request exists only for a decision that passed the rules and buys or sells; its
  client order id is determined by the decision, its quantity is positive, and its approval is
  the decision's own: the system's in paper mode, and in live mode a stored approval by kyo that
  has not expired.
\<close>

theorem approved_only_after_rules:
  assumes "resolve_approval uuid4 clock d mode c mclock x = (Ok req, x')"
  shows "d_rule_check d = RC_passed \<and> (d_action d = Action_buy \<or> d_action d = Action_sell)
    \<and> req_decision req = d \<and> req_client_order_id req = ''order_'' @ d_id d \<and> 0 < shares (req_qty req)
    \<and> a_decision_id (req_approval req) = d_id d
    \<and> (if mode = Mode_paper then a_approver (req_approval req) = Approver_system
       else a_approver (req_approval req) = Approver_kyo \<and> req_approval req \<in> set (approvals (working c))
         \<and> fst (clock x) < a_expires_at (req_approval req))"
  using resolve_approval_Ok [OF assms] order_qty_pos [of d "req_qty req"]
    find_valid_approval_Some [of c "d_id d" "fst (clock x)" "req_approval req"]
  by (cases mode) (auto simp: order_side_Ok)

definition entry_decision :: Decision where
  "entry_decision = \<lparr>d_id = ''dec_1'', d_cycle_id = ''cycle_1'', d_decided_at = 0, d_mode = ''paper'',
     d_ticker = ''AXTI'', d_action = Action_buy, d_origin = Origin_llm, d_confidence = None,
     d_rationale = '''', d_evidence_mention_ids = [], d_llm_model = None, d_prompt_sha256 = None,
     d_response_sha256 = None, d_rule_set_sha256 = ''ab12'', d_rule_check = RC_passed,
     d_rule_check_reason = '''', d_proposed_notional = Some (Money 37020),
     d_reference_price = Some (Price 123400)\<rparr>"

definition sample_hours :: MarketClock where
  "sample_hours = \<lparr>mc_is_open = True, mc_next_open = 90000000, mc_next_close = 60000000\<rparr>"

lemma mk_Money_entry: "mk_Money (price_times (Price 123400) 30) = Money 37020"
  by (simp add: decimal_eval)

lemma entry_decision_qty: "order_qty entry_decision = Ok (Quantity 30)"
  by (rule order_qty_sized [of _ "Price 123400"]) (simp_all add: entry_decision_def mk_Money_entry)

theorem approved_only_after_rules_witness:
  "\<exists>req. fst (resolve_approval (\<lambda>x. (''u'', x)) (\<lambda>x. (7, x)) entry_decision Mode_paper
      (open_conn empty_db (\<lambda>_. None)) sample_hours ()) = Ok req \<and> 0 < shares (req_qty req)"
proof -
  have "order_side entry_decision = Ok Side_buy" "d_rule_check entry_decision = RC_passed"
    by (simp_all add: order_side_Ok entry_decision_def)
  then obtain req where r: "resolve_approval (\<lambda>x. (''u'', x)) (\<lambda>x. (7, x)) entry_decision Mode_paper
      (open_conn empty_db (\<lambda>_. None)) sample_hours () = (Ok req, ())"
    by (simp add: resolve_approval_def entry_decision_qty Let_def)
  show ?thesis using approved_only_after_rules [OF r] r by simp
qed



text \<open>
  At or below one cent per share the added half cent buys back too much: ten shares at half a
  cent are ordered as eleven, one more than the notional was computed from.
\<close>

theorem penny_order_oversized:
  assumes "d_proposed_notional d = Some (mk_Money (price_times (Price 50) 10))"
    "d_reference_price d = Some (Price 50)"
  shows "order_qty d = Ok (Quantity 11)"
  using assms by (simp add: order_qty_def half_cent_def decimal_eval)

theorem penny_order_oversized_witness:
  "order_qty (entry_decision\<lparr>d_proposed_notional := Some (mk_Money (price_times (Price 50) 10)),
     d_reference_price := Some (Price 50)\<rparr>) = Ok (Quantity 11)"
  by (rule penny_order_oversized) simp_all

text \<open>The approval found for a decision is a stored, unexpired one, and no later one was given.\<close>

theorem valid_approval_is_latest:
  assumes "find_valid_approval c decision_id now = Some a"
  shows "a \<in> set (approvals (working c)) \<and> a_decision_id a = decision_id \<and> now < a_expires_at a
    \<and> (\<forall>b \<in> set (approvals (working c)). a_decision_id b = decision_id \<longrightarrow> now < a_expires_at b
        \<longrightarrow> a_approved_at b \<le> a_approved_at a)"
  using find_valid_approval_Some [OF assms] find_valid_approval_latest [OF assms] by blast

definition approvals_db :: db where
  "approvals_db = empty_db\<lparr>approvals :=
     [\<lparr>a_id = ''appr_1'', a_decision_id = ''dec_1'', a_approver = Approver_kyo, a_approved_at = 1, a_expires_at = 100\<rparr>,
      \<lparr>a_id = ''appr_2'', a_decision_id = ''dec_1'', a_approver = Approver_kyo, a_approved_at = 2, a_expires_at = 90\<rparr>,
      \<lparr>a_id = ''appr_3'', a_decision_id = ''dec_1'', a_approver = Approver_kyo, a_approved_at = 3, a_expires_at = 10\<rparr>]\<rparr>"

theorem valid_approval_is_latest_witness:
  "\<exists>a. find_valid_approval (open_conn approvals_db (\<lambda>_. None)) ''dec_1'' 50 = Some a
     \<and> a_approved_at a = 2 \<and> 50 < a_expires_at a"
proof -
  obtain a where a: "find_valid_approval (open_conn approvals_db (\<lambda>_. None)) ''dec_1'' 50 = Some a"
    using find_valid_approval_None [of "open_conn approvals_db (\<lambda>_. None)" "''dec_1''" 50]
    by (cases "find_valid_approval (open_conn approvals_db (\<lambda>_. None)) ''dec_1'' 50")
      (auto simp: open_conn_def approvals_db_def)
  from valid_approval_is_latest [OF this] have "a_approved_at a = 2 \<and> 50 < a_expires_at a"
    by (auto simp: open_conn_def approvals_db_def)
  with a show ?thesis by blast
qed

end
