(* ===== verification/Portfolio_Repository.thy ===== *)
theory Portfolio_Repository
  imports Repository
begin

text \<open>
  ledger/portfolio_repository.py: positions, trades, equity snapshots, engine state, cycles and
  rule sets. The upserted tables share one contract, the locale \<open>keyed_store\<close>, which is
  interpreted for positions, snapshots and the engine state.

  A snapshot date is the day its ISO text names. Deleting a position or a key is taken to succeed
  where the code does not guard it.
\<close>

section \<open>Keyed stores\<close>

locale keyed_store =
  fixes get :: "'k \<Rightarrow> 's \<Rightarrow> 'v option"
    and put :: "'v \<Rightarrow> 's \<Rightarrow> 's"
    and del :: "'k \<Rightarrow> 's \<Rightarrow> 's"
    and key :: "'v \<Rightarrow> 'k"
  assumes get_put: "get k (put v s) = (if k = key v then Some v else get k s)"
    and get_del: "get k (del k' s) = (if k = k' then None else get k s)"
begin

lemma get_put_same: "get (key v) (put v s) = Some v"
  by (simp add: get_put)

lemma get_put_other: "k \<noteq> key v \<Longrightarrow> get k (put v s) = get k s"
  by (simp add: get_put)

lemma get_fold_del: "get k (fold del ks s) = (if k \<in> set ks then None else get k s)"
  by (induction ks arbitrary: s) (auto simp: get_del)

lemma get_fold_put_other:
  "k \<notin> key ` set vs \<Longrightarrow> get k (fold put vs s) = get k s"
  by (induction vs arbitrary: s) (auto simp: get_put)

lemma get_fold_put:
  "distinct (map key vs) \<Longrightarrow> v \<in> set vs \<Longrightarrow> get (key v) (fold put vs s) = Some v"
proof (induction vs arbitrary: s)
  case (Cons w vs)
  show ?case
  proof (cases "v = w")
    case True
    then have "key v \<notin> key ` set vs" using Cons.prems(1) by simp
    then show ?thesis by (simp add: get_fold_put_other True get_put)
  next
    case False
    then show ?thesis using Cons by simp
  qed
qed simp

lemma get_put_twice: "key v = key w \<Longrightarrow> get k (put w (put v s)) = get k (put w s)"
  by (simp add: get_put)

end

section \<open>Positions\<close>

definition put_position :: "Position \<Rightarrow> db \<Rightarrow> db" where
  "put_position p d = d\<lparr>positions := put_row p_ticker p (positions d)\<rparr>"

definition del_position :: "string \<Rightarrow> db \<Rightarrow> db" where
  "del_position ticker d = d\<lparr>positions := drop_row p_ticker ticker (positions d)\<rparr>"

definition position_of :: "string \<Rightarrow> db \<Rightarrow> Position option" where
  "position_of ticker d = find_row p_ticker ticker (positions d)"

interpretation position_store: keyed_store position_of put_position del_position p_ticker
  by unfold_locales
    (simp_all add: position_of_def put_position_def del_position_def find_row_put find_row_drop)

definition upsert_position :: "conn \<Rightarrow> Position \<Rightarrow> (Position, LedgerError) result \<times> conn" where
  "upsert_position c p = wrap_stmt ''could not upsert position: '' p
     (run_stmt (\<lambda>d. Ok (put_position p d, ())) c)"

definition get_position :: "conn \<Rightarrow> string \<Rightarrow> Position option" where
  "get_position c ticker = position_of ticker (working c)"

definition list_positions :: "conn \<Rightarrow> Position list" where
  "list_positions c = sort_key p_ticker (positions (working c))"

definition delete_position :: "conn \<Rightarrow> string \<Rightarrow> conn" where
  "delete_position c ticker = c\<lparr>stmts := Suc (stmts c), working := del_position ticker (working c)\<rparr>"

section \<open>Trades\<close>

definition insert_trade_stmt :: "Trade \<Rightarrow> db \<Rightarrow> (db \<times> unit, string) result" where
  "insert_trade_stmt t db =
    (if has_key t_id (t_id t) (trades db) then Err (unique_failed ''trades.id'')
     else if \<not> has_key d_id (t_entry_decision_id t) (decisions db) then Err foreign_key_failed
     else Ok (db\<lparr>trades := trades db @ [t]\<rparr>, ()))"

definition insert_trade :: "conn \<Rightarrow> Trade \<Rightarrow> (Trade, LedgerError) result \<times> conn" where
  "insert_trade c t = wrap_stmt ''could not insert trade: '' t (run_stmt (insert_trade_stmt t) c)"

definition list_trades :: "conn \<Rightarrow> Trade list" where
  "list_trades c = sort_key t_closed_at (trades (working c))"

section \<open>Equity snapshots\<close>

definition put_snapshot :: "EquitySnapshot \<Rightarrow> db \<Rightarrow> db" where
  "put_snapshot s d = d\<lparr>equity_snapshots := put_row s_snapshot_date s (equity_snapshots d)\<rparr>"

definition del_snapshot :: "day \<Rightarrow> db \<Rightarrow> db" where
  "del_snapshot k d = d\<lparr>equity_snapshots := drop_row s_snapshot_date k (equity_snapshots d)\<rparr>"

definition snapshot_of :: "day \<Rightarrow> db \<Rightarrow> EquitySnapshot option" where
  "snapshot_of k d = find_row s_snapshot_date k (equity_snapshots d)"

interpretation snapshot_store: keyed_store snapshot_of put_snapshot del_snapshot s_snapshot_date
  by unfold_locales
    (simp_all add: snapshot_of_def put_snapshot_def del_snapshot_def find_row_put find_row_drop)

definition upsert_equity_snapshot :: "conn \<Rightarrow> day \<Rightarrow> string \<Rightarrow> Money \<Rightarrow> Money \<Rightarrow> Money \<Rightarrow> decimal
    \<Rightarrow> datetime \<Rightarrow> (unit, LedgerError) result \<times> conn" where
  "upsert_equity_snapshot c snapshot_date mode cash positions_value peak_equity drawdown_pct taken_at =
    (let equity = money_add cash positions_value in
     wrap_stmt ''could not upsert equity snapshot: '' () (run_stmt (\<lambda>d. Ok (put_snapshot
       \<lparr>s_snapshot_date = snapshot_date, s_mode = mode, s_cash = cash,
        s_positions_value = positions_value, s_equity = equity, s_peak_equity = peak_equity,
        s_drawdown_pct = drawdown_pct, s_taken_at = taken_at\<rparr> d, ())) c))"

definition list_equity_snapshots :: "conn \<Rightarrow> EquitySnapshot list" where
  "list_equity_snapshots c = sort_key s_snapshot_date (equity_snapshots (working c))"

section \<open>Engine state\<close>

definition put_state :: "string \<times> string option \<Rightarrow> db \<Rightarrow> db" where
  "put_state kv d = d\<lparr>engine_state := put_row fst kv (engine_state d)\<rparr>"

definition del_state :: "string \<Rightarrow> db \<Rightarrow> db" where
  "del_state k d = d\<lparr>engine_state := drop_row fst k (engine_state d)\<rparr>"

definition state_of :: "string \<Rightarrow> db \<Rightarrow> (string \<times> string option) option" where
  "state_of k d = find_row fst k (engine_state d)"

interpretation state_store: keyed_store state_of put_state del_state fst
  by unfold_locales
    (simp_all add: state_of_def put_state_def del_state_def find_row_put find_row_drop)

definition get_engine_state :: "conn \<Rightarrow> string \<Rightarrow> string option" where
  "get_engine_state c k = (case state_of k (working c) of None \<Rightarrow> None | Some kv \<Rightarrow> snd kv)"

definition set_engine_state :: "conn \<Rightarrow> string \<Rightarrow> string \<Rightarrow> (unit, LedgerError) result \<times> conn" where
  "set_engine_state c k v = wrap_stmt ''could not set engine state: '' ()
     (run_stmt (\<lambda>d. Ok (put_state (k, Some v) d, ())) c)"

text \<open>An unguarded delete: the failed statement raises, which is \<open>Err\<close> here.\<close>

definition delete_engine_state :: "conn \<Rightarrow> string \<Rightarrow> (unit, string) result \<times> conn" where
  "delete_engine_state c k = run_stmt (\<lambda>d. Ok (del_state k d, ())) c"

section \<open>Cycles and rule sets\<close>

definition insert_cycle_stmt :: "cycle_row \<Rightarrow> db \<Rightarrow> (db \<times> unit, string) result" where
  "insert_cycle_stmt r db = (if has_key cyc_id (cyc_id r) (cycles db) then Err (unique_failed ''cycles.id'')
     else Ok (db\<lparr>cycles := cycles db @ [r]\<rparr>, ()))"

definition insert_cycle :: "conn \<Rightarrow> string \<Rightarrow> datetime \<Rightarrow> string \<Rightarrow> (unit, LedgerError) result \<times> conn" where
  "insert_cycle c cycle_id started_at mode = wrap_stmt ''could not insert cycle: '' ()
     (run_stmt (insert_cycle_stmt \<lparr>cyc_id = cycle_id, cyc_started_at = started_at,
       cyc_finished_at = None, cyc_mode = mode, cyc_outcome = None, cyc_error_summary = None\<rparr>) c)"

definition finish_row :: "datetime \<Rightarrow> string \<Rightarrow> string option \<Rightarrow> cycle_row \<Rightarrow> cycle_row" where
  "finish_row finished_at outc error_summary r =
     r\<lparr>cyc_finished_at := Some finished_at, cyc_outcome := Some outc, cyc_error_summary := error_summary\<rparr>"

definition finish_cycle :: "conn \<Rightarrow> string \<Rightarrow> datetime \<Rightarrow> string \<Rightarrow> string option
    \<Rightarrow> (unit, LedgerError) result \<times> conn" where
  "finish_cycle c cycle_id finished_at outc error_summary =
    (case run_stmt (\<lambda>d. Ok (d\<lparr>cycles := change_row cyc_id cycle_id
          (finish_row finished_at outc error_summary) (cycles d)\<rparr>,
        length (filter (\<lambda>r. cyc_id r = cycle_id) (cycles d)))) c of
       (Err e, c') \<Rightarrow> (Err (''could not finish cycle: '' @ e), c')
     | (Ok n, c') \<Rightarrow> if n = 0 then (Err (''no such cycle: '' @ cycle_id), c') else (Ok (), c'))"

definition insert_rule_set_stmt :: "rule_set_row \<Rightarrow> db \<Rightarrow> (db \<times> unit, string) result" where
  "insert_rule_set_stmt r db =
    (if has_key rsr_sha256 (rsr_sha256 r) (rule_sets db) then Err (unique_failed ''rule_sets.sha256'')
     else Ok (db\<lparr>rule_sets := rule_sets db @ [r]\<rparr>, ()))"

definition insert_rule_set :: "conn \<Rightarrow> string \<Rightarrow> string \<Rightarrow> string \<Rightarrow> Money \<Rightarrow> string
    \<Rightarrow> (unit, LedgerError) result \<times> conn" where
  "insert_rule_set c sha256 approved_by approved_at capital_usd content_yaml =
     wrap_stmt ''could not insert rule set: '' ()
       (run_stmt (insert_rule_set_stmt \<lparr>rsr_sha256 = sha256, rsr_approved_by = approved_by,
         rsr_approved_at = approved_at, rsr_capital_usd = capital_usd,
         rsr_content_yaml = content_yaml\<rparr>) c)"

definition get_rule_set :: "conn \<Rightarrow> string \<Rightarrow> rule_set_row option" where
  "get_rule_set c sha256 = find_row rsr_sha256 sha256 (rule_sets (working c))"

section \<open>What the writes do\<close>

lemma same_store_upsert_position [frame]: "upsert_position c p = (r, c') \<Longrightarrow> same_store c c'"
  unfolding upsert_position_def by (rule same_store_wrap)

lemma same_store_delete_position [frame]: "same_store c (delete_position c t)"
  by (simp add: delete_position_def same_store_def)

lemma same_store_insert_trade [frame]: "insert_trade c t = (r, c') \<Longrightarrow> same_store c c'"
  unfolding insert_trade_def by (rule same_store_wrap)

lemma same_store_upsert_equity_snapshot [frame]:
  "upsert_equity_snapshot c dt m ca pv pk dd ta = (r, c') \<Longrightarrow> same_store c c'"
  unfolding upsert_equity_snapshot_def Let_def by (rule same_store_wrap)

lemma same_store_set_engine_state [frame]: "set_engine_state c k v = (r, c') \<Longrightarrow> same_store c c'"
  unfolding set_engine_state_def by (rule same_store_wrap)

lemma same_store_delete_engine_state [frame]: "delete_engine_state c k = (r, c') \<Longrightarrow> same_store c c'"
  unfolding delete_engine_state_def by (rule same_store_run_stmt)

lemma same_store_insert_cycle [frame]: "insert_cycle c i t m = (r, c') \<Longrightarrow> same_store c c'"
  unfolding insert_cycle_def by (rule same_store_wrap)

lemma same_store_finish_cycle [frame]: "finish_cycle c i t u e = (r, c') \<Longrightarrow> same_store c c'"
  by (auto simp: finish_cycle_def split: prod.splits result.splits if_splits dest: same_store_run_stmt)

lemma upsert_position_Ok [outcome]:
  "upsert_position c p = (Ok x, c') \<longleftrightarrow> x = p \<and> faults c (stmts c) = None
     \<and> c' = c\<lparr>stmts := Suc (stmts c), working := put_position p (working c)\<rparr>"
  by (auto simp: upsert_position_def wrap_stmt_Ok run_stmt_Ok)

lemma insert_trade_Ok [outcome]:
  "insert_trade c t = (Ok x, c') \<longleftrightarrow> x = t \<and> faults c (stmts c) = None
     \<and> \<not> has_key t_id (t_id t) (trades (working c))
     \<and> has_key d_id (t_entry_decision_id t) (decisions (working c))
     \<and> c' = c\<lparr>stmts := Suc (stmts c), working := (working c)\<lparr>trades := trades (working c) @ [t]\<rparr>\<rparr>"
  by (auto simp: insert_trade_def wrap_stmt_Ok run_stmt_Ok insert_trade_stmt_def)

lemma set_engine_state_Ok [outcome]:
  "set_engine_state c k v = (Ok u, c') \<longleftrightarrow> faults c (stmts c) = None
     \<and> c' = c\<lparr>stmts := Suc (stmts c), working := put_state (k, Some v) (working c)\<rparr>"
  by (auto simp: set_engine_state_def wrap_stmt_Ok run_stmt_Ok)

lemma delete_engine_state_Ok [outcome]:
  "delete_engine_state c k = (Ok u, c') \<longleftrightarrow> faults c (stmts c) = None
     \<and> c' = c\<lparr>stmts := Suc (stmts c), working := del_state k (working c)\<rparr>"
  by (auto simp: delete_engine_state_def run_stmt_Ok)

lemma finish_cycle_Ok [outcome]:
  "finish_cycle c i t u e = (Ok v, c') \<longleftrightarrow> faults c (stmts c) = None \<and> has_key cyc_id i (cycles (working c))
     \<and> c' = c\<lparr>stmts := Suc (stmts c),
          working := (working c)\<lparr>cycles := change_row cyc_id i (finish_row t u e) (cycles (working c))\<rparr>\<rparr>"
proof -
  have "length (filter (\<lambda>r. cyc_id r = i) (cycles (working c))) = 0 \<longleftrightarrow> \<not> has_key cyc_id i (cycles (working c))"
    by (auto simp: has_key_def filter_empty_conv)
  then show ?thesis
    by (auto simp: finish_cycle_def run_stmt_Ok run_stmt_Err split: prod.splits result.splits)
qed

text \<open>What an upsert of one table leaves alone.\<close>

lemma put_frame [simp]:
  "decisions (put_position p d) = decisions d" "orders (put_position p d) = orders d"
  "fills (put_position p d) = fills d" "approvals (put_position p d) = approvals d"
  "trades (put_position p d) = trades d" "cycles (put_position p d) = cycles d"
  "rule_sets (put_position p d) = rule_sets d" "engine_state (put_position p d) = engine_state d"
  "decisions (del_position k d) = decisions d" "orders (del_position k d) = orders d"
  "fills (del_position k d) = fills d" "trades (del_position k d) = trades d"
  "approvals (del_position k d) = approvals d" "cycles (del_position k d) = cycles d"
  "engine_state (del_position k d) = engine_state d"
  "decisions (put_state kv d) = decisions d" "orders (put_state kv d) = orders d"
  "positions (put_state kv d) = positions d" "equity_snapshots (put_state kv d) = equity_snapshots d"
  "positions (del_state k d) = positions d" "equity_snapshots (del_state k d) = equity_snapshots d"
  "trades (put_state kv d) = trades d" "trades (del_state k d) = trades d"
  by (simp_all add: put_position_def del_position_def put_state_def del_state_def)

lemma schema_put_position: "schema_ok d \<Longrightarrow> schema_ok (put_position p d)"
  by (clarsimp simp: schema_ok_def put_position_def distinct_put)

lemma schema_del_position: "schema_ok d \<Longrightarrow> schema_ok (del_position t d)"
  by (clarsimp simp: schema_ok_def del_position_def distinct_drop)

lemma schema_put_snapshot: "schema_ok d \<Longrightarrow> schema_ok (put_snapshot s d)"
  by (clarsimp simp: schema_ok_def put_snapshot_def distinct_put)

lemma schema_put_state: "schema_ok d \<Longrightarrow> schema_ok (put_state kv d)"
  by (clarsimp simp: schema_ok_def put_state_def distinct_put)

lemma schema_del_state: "schema_ok d \<Longrightarrow> schema_ok (del_state k d)"
  by (clarsimp simp: schema_ok_def del_state_def distinct_drop)

lemma schema_insert_trade: "insert_trade_stmt t db = Ok (db', u) \<Longrightarrow> schema_ok db \<Longrightarrow> schema_ok db'"
  by (auto simp: insert_trade_stmt_def schema_ok_def has_key_def image_subset_iff split: if_splits)

lemma schema_insert_cycle: "insert_cycle_stmt r db = Ok (db', u) \<Longrightarrow> schema_ok db \<Longrightarrow> schema_ok db'"
  by (auto simp: insert_cycle_stmt_def schema_ok_def has_key_def image_subset_iff split: if_splits)

lemma schema_insert_rule_set: "insert_rule_set_stmt r db = Ok (db', u) \<Longrightarrow> schema_ok db \<Longrightarrow> schema_ok db'"
  by (auto simp: insert_rule_set_stmt_def schema_ok_def has_key_def image_subset_iff split: if_splits)

lemma position_unique: "schema_ok (working c) \<Longrightarrow> p \<in> set (positions (working c)) \<Longrightarrow> get_position c (p_ticker p) = Some p"
  by (simp add: get_position_def position_of_def schema_ok_def find_row_unique)

end
