(* ===== verification/Broker.thy ===== *)
theory Broker
  imports Domain_Models Result_Type
begin

text \<open>
  broker/broker.py: the interface order execution goes through. A broker is a record of its
  operations, each a function of the state of the outside world; the contract the engine relies
  on is the locale \<open>broker_laws\<close>, stated over the orders the broker has accepted.
\<close>

type_synonym BrokerError = string

record OrderRequest =
  or_client_order_id :: string
  or_ticker :: string
  or_side :: Side
  or_qty :: Quantity

record BrokerOrder =
  bo_broker_order_id :: string
  bo_client_order_id :: string
  bo_status :: OrderStatus
  bo_filled_qty :: Quantity
  bo_filled_avg_price :: "Price option"
  bo_updated_at :: datetime

record BrokerPosition =
  bp_ticker :: string
  bp_qty :: Quantity
  bp_avg_cost :: Price

record BrokerAccount =
  ba_cash :: Money
  ba_equity :: Money

record 'x Broker =
  submit_market_order :: "OrderRequest \<Rightarrow> 'x \<Rightarrow> (BrokerOrder, BrokerError) result \<times> 'x"
  cancel_all_open :: "'x \<Rightarrow> (int, BrokerError) result \<times> 'x"
  broker_get_order :: "string \<Rightarrow> 'x \<Rightarrow> (BrokerOrder, BrokerError) result \<times> 'x"
  broker_positions :: "'x \<Rightarrow> (BrokerPosition list, BrokerError) result \<times> 'x"
  broker_account :: "'x \<Rightarrow> (BrokerAccount, BrokerError) result \<times> 'x"

text \<open>
  \<open>accepted\<close> maps the client order ids the broker has accepted to their requests, and \<open>sane\<close> is
  the broker's own invariant. Submitting adds the order, and a failed submission may have added it
  all the same (a timeout); every other operation leaves the orders; what the broker reports of an
  order is about an accepted one, and never fills more than was requested.
\<close>

locale broker_laws =
  fixes b :: "'x Broker"
    and accepted :: "'x \<Rightarrow> string \<Rightarrow> OrderRequest option"
    and sane :: "'x \<Rightarrow> bool"
  assumes submit_ok: "submit_market_order b req x = (Ok bo, x') \<Longrightarrow>
      accepted x' = (accepted x)(or_client_order_id req \<mapsto> req)
      \<and> bo_client_order_id bo = or_client_order_id req"
    and submit_err: "submit_market_order b req x = (Err e, x') \<Longrightarrow>
      accepted x' = accepted x \<or> accepted x' = (accepted x)(or_client_order_id req \<mapsto> req)"
    and submit_sane: "sane x \<Longrightarrow> 0 \<le> shares (or_qty req) \<Longrightarrow> submit_market_order b req x = (r, x') \<Longrightarrow> sane x'"
    and get_ok: "sane x \<Longrightarrow> broker_get_order b cid x = (Ok bo, x') \<Longrightarrow>
      \<exists>req. accepted x cid = Some req \<and> 0 \<le> shares (bo_filled_qty bo)
        \<and> shares (bo_filled_qty bo) \<le> shares (or_qty req)"
    and get_keeps: "broker_get_order b cid x = (r', x') \<Longrightarrow> accepted x' = accepted x \<and> (sane x \<longrightarrow> sane x')"
    and cancel_keeps: "cancel_all_open b x = (n, x') \<Longrightarrow> accepted x' = accepted x \<and> (sane x \<longrightarrow> sane x')"
    and account_keeps: "broker_account b x = (a, x') \<Longrightarrow> accepted x' = accepted x \<and> (sane x \<longrightarrow> sane x')"
    and positions_keeps: "broker_positions b x = (ps, x') \<Longrightarrow> accepted x' = accepted x \<and> (sane x \<longrightarrow> sane x')"
begin

lemma submit_cases:
  "submit_market_order b req x = (r, x') \<Longrightarrow>
    accepted x' = accepted x \<or> accepted x' = (accepted x)(or_client_order_id req \<mapsto> req)"
  using submit_ok submit_err by (cases r) blast+

lemma accepted_only_submitted:
  assumes "submit_market_order b req x = (r, x')" "accepted x' cid = Some q" "accepted x cid = None"
  shows "q = req \<and> cid = or_client_order_id req"
  using submit_cases [OF assms(1)] assms(2,3) by (auto split: if_splits)

lemma get_filled_le:
  assumes "sane x" "broker_get_order b cid x = (Ok bo, x')" "accepted x cid = Some req"
  shows "0 \<le> shares (bo_filled_qty bo) \<and> shares (bo_filled_qty bo) \<le> shares (or_qty req)"
  using get_ok [OF assms(1,2)] assms(3) by auto

end

end
