(* ===== verification/Fake_Broker.thy ===== *)
theory Fake_Broker
  imports Broker
begin

text \<open>
  broker/fake_broker.py: the in-memory broker. Its state is the record \<open>FakeBroker\<close>, whose
  configuration methods return a changed copy and whose broker operations change it; the time
  stamp of an order is the current time, which is part of the state.
\<close>

record FakeBroker =
  fb_submitted :: "OrderRequest list"
  fb_fail_next_submit :: bool
  fb_fill_plans :: "string \<Rightarrow> (Quantity \<times> Price) list option"
  fb_call_counts :: "string \<Rightarrow> nat option"
  fb_orders :: "string \<Rightarrow> OrderRequest option"
  fb_open_order_count :: int
  fb_account_value :: BrokerAccount
  fb_positions_value :: "BrokerPosition list"
  fb_now :: datetime

definition zero_account :: BrokerAccount where
  "zero_account = \<lparr>ba_cash = zero_money, ba_equity = zero_money\<rparr>"

definition fake_broker :: "datetime \<Rightarrow> FakeBroker" where
  "fake_broker now = \<lparr>fb_submitted = [], fb_fail_next_submit = False, fb_fill_plans = Map.empty,
     fb_call_counts = Map.empty, fb_orders = Map.empty, fb_open_order_count = 0,
     fb_account_value = zero_account, fb_positions_value = [], fb_now = now\<rparr>"

definition order_from_fills :: "OrderRequest \<Rightarrow> Quantity \<Rightarrow> Price option \<Rightarrow> datetime \<Rightarrow> BrokerOrder" where
  "order_from_fills req filled_qty filled_avg_price now =
    (let status = (if 0 < shares filled_qty then
          if shares (or_qty req) \<le> shares filled_qty then OS_filled else OS_partially_filled
        else OS_submitted) in
     \<lparr>bo_broker_order_id = ''broker_'' @ or_client_order_id req,
      bo_client_order_id = or_client_order_id req, bo_status = status,
      bo_filled_qty = filled_qty, bo_filled_avg_price = filled_avg_price, bo_updated_at = now\<rparr>)"

section \<open>Configuration\<close>

definition fail_next_submit :: "FakeBroker \<Rightarrow> FakeBroker" where
  "fail_next_submit s = s\<lparr>fb_fail_next_submit := True\<rparr>"

definition with_fill_plan :: "string \<Rightarrow> (Quantity \<times> Price) list \<Rightarrow> FakeBroker \<Rightarrow> FakeBroker" where
  "with_fill_plan cid plan s = s\<lparr>fb_fill_plans := (fb_fill_plans s)(cid \<mapsto> plan)\<rparr>"

definition with_open_orders :: "int \<Rightarrow> FakeBroker \<Rightarrow> FakeBroker" where
  "with_open_orders n s = s\<lparr>fb_open_order_count := n\<rparr>"

definition with_account :: "BrokerAccount \<Rightarrow> FakeBroker \<Rightarrow> FakeBroker" where
  "with_account a s = s\<lparr>fb_account_value := a\<rparr>"

definition with_positions :: "BrokerPosition list \<Rightarrow> FakeBroker \<Rightarrow> FakeBroker" where
  "with_positions ps s = s\<lparr>fb_positions_value := ps\<rparr>"

definition submit_call_count :: "FakeBroker \<Rightarrow> nat" where
  "submit_call_count s = length (fb_submitted s)"

section \<open>The broker operations\<close>

definition fake_submit :: "OrderRequest \<Rightarrow> FakeBroker \<Rightarrow> (BrokerOrder, BrokerError) result \<times> FakeBroker" where
  "fake_submit req s =
    (if fb_fail_next_submit s then (Err ''simulated submit failure'', s\<lparr>fb_fail_next_submit := False\<rparr>)
     else let cid = or_client_order_id req in
       (Ok (order_from_fills req (Quantity 0) None (fb_now s)),
        s\<lparr>fb_submitted := fb_submitted s @ [req], fb_orders := (fb_orders s)(cid \<mapsto> req),
          fb_call_counts := (case fb_call_counts s cid of
             None \<Rightarrow> (fb_call_counts s)(cid \<mapsto> 0) | Some _ \<Rightarrow> fb_call_counts s)\<rparr>))"

definition fake_get_order :: "string \<Rightarrow> FakeBroker \<Rightarrow> (BrokerOrder, BrokerError) result \<times> FakeBroker" where
  "fake_get_order cid s = (case fb_orders s cid of
     None \<Rightarrow> (Err (''no such order: '' @ cid), s)
   | Some req \<Rightarrow>
       let count = (case fb_call_counts s cid of None \<Rightarrow> 0 | Some n \<Rightarrow> n) + 1;
           plan = (case fb_fill_plans s cid of None \<Rightarrow> [] | Some p \<Rightarrow> p);
           revealed = take count plan;
           filled_shares = min (sum_list (map (shares \<circ> fst) revealed)) (shares (or_qty req));
           filled_avg_price = (if revealed = [] then None else Some (snd (last revealed))) in
       (Ok (order_from_fills req (Quantity filled_shares) filled_avg_price (fb_now s)),
        s\<lparr>fb_call_counts := (fb_call_counts s)(cid \<mapsto> count)\<rparr>))"

definition fake_ops :: "FakeBroker Broker" where
  "fake_ops = \<lparr>submit_market_order = fake_submit,
     cancel_all_open = (\<lambda>s. (Ok (fb_open_order_count s), s)),
     broker_get_order = fake_get_order,
     broker_positions = (\<lambda>s. (Ok (fb_positions_value s), s)),
     broker_account = (\<lambda>s. (Ok (fb_account_value s), s))\<rparr>"

section \<open>The contract\<close>

text \<open>
  The fake keeps the broker's contract as long as its fill plans and its orders are of
  non-negative share counts.
\<close>

definition plan_sane :: "(Quantity \<times> Price) list \<Rightarrow> bool" where
  "plan_sane plan = (\<forall>e \<in> set plan. 0 \<le> shares (fst e))"

definition fake_sane :: "FakeBroker \<Rightarrow> bool" where
  "fake_sane s \<longleftrightarrow>
     (\<forall>cid plan. fb_fill_plans s cid = Some plan \<longrightarrow> plan_sane plan)
     \<and> (\<forall>cid req. fb_orders s cid = Some req \<longrightarrow> 0 \<le> shares (or_qty req))"

lemma order_from_fills_simps [simp]:
  "bo_client_order_id (order_from_fills req q p t) = or_client_order_id req"
  "bo_filled_qty (order_from_fills req q p t) = q"
  "bo_filled_avg_price (order_from_fills req q p t) = p"
  by (simp_all add: order_from_fills_def Let_def)

lemma revealed_nonneg:
  "plan_sane plan \<Longrightarrow> 0 \<le> sum_list (map (shares \<circ> fst) (take n plan))"
  by (rule sum_list_nonneg) (auto simp: plan_sane_def dest: in_set_takeD)

lemma fake_get_order_Ok:
  assumes "fake_sane s" "fake_get_order cid s = (Ok bo, s')"
  shows "\<exists>req. fb_orders s cid = Some req \<and> 0 \<le> shares (bo_filled_qty bo)
    \<and> shares (bo_filled_qty bo) \<le> shares (or_qty req)"
proof -
  obtain req where req: "fb_orders s cid = Some req"
    using assms(2) by (auto simp: fake_get_order_def split: option.splits)
  define plan where "plan = (case fb_fill_plans s cid of None \<Rightarrow> [] | Some p \<Rightarrow> p)"
  have "plan_sane plan"
    using assms(1) by (auto simp: plan_def fake_sane_def plan_sane_def [of "[]"] split: option.splits)
  then have nonneg: "0 \<le> sum_list (map (shares \<circ> fst) (take n plan))" for n
    by (rule revealed_nonneg)
  have "0 \<le> shares (or_qty req)" using assms(1) req by (auto simp: fake_sane_def)
  moreover have "\<exists>n. shares (bo_filled_qty bo) = min (sum_list (map (shares \<circ> fst) (take n plan))) (shares (or_qty req))"
    using assms(2) req by (auto simp: fake_get_order_def Let_def plan_def)
  ultimately show ?thesis using req nonneg by (metis min.cobounded2 min.boundedI)
qed

interpretation fake: broker_laws fake_ops fb_orders fake_sane
proof
  fix x x' :: FakeBroker and req cid bo e r r' n a ps
  show "submit_market_order fake_ops req x = (Ok bo, x') \<Longrightarrow>
      fb_orders x' = (fb_orders x)(or_client_order_id req \<mapsto> req)
      \<and> bo_client_order_id bo = or_client_order_id req"
    by (auto simp: fake_ops_def fake_submit_def Let_def split: if_splits)
  show "submit_market_order fake_ops req x = (Err e, x') \<Longrightarrow>
      fb_orders x' = fb_orders x \<or> fb_orders x' = (fb_orders x)(or_client_order_id req \<mapsto> req)"
    by (auto simp: fake_ops_def fake_submit_def Let_def split: if_splits)
  show "fake_sane x \<Longrightarrow> 0 \<le> shares (or_qty req) \<Longrightarrow> submit_market_order fake_ops req x = (r, x') \<Longrightarrow> fake_sane x'"
    by (auto simp: fake_ops_def fake_submit_def Let_def fake_sane_def split: if_splits)
  show "fake_sane x \<Longrightarrow> broker_get_order fake_ops cid x = (Ok bo, x') \<Longrightarrow>
      \<exists>req. fb_orders x cid = Some req \<and> 0 \<le> shares (bo_filled_qty bo)
        \<and> shares (bo_filled_qty bo) \<le> shares (or_qty req)"
    using fake_get_order_Ok [of x cid bo x'] by (simp add: fake_ops_def)
  show "broker_get_order fake_ops cid x = (r', x') \<Longrightarrow> fb_orders x' = fb_orders x \<and> (fake_sane x \<longrightarrow> fake_sane x')"
    by (auto simp: fake_ops_def fake_get_order_def fake_sane_def Let_def split: option.splits)
qed (simp_all add: fake_ops_def)

end
