(* ===== verification/Trade_Closer.thy ===== *)
theory Trade_Closer
  imports Domain_Models Result_Type
begin

text \<open>
  ledger/trade_closer.py: what one fill does to a position. A buy opens the position or averages
  its cost; a sell reduces it, or closes it into a trade that carries the realized profit and the
  fees of every fill. The division by the total number of shares is of positive counts: a fill is
  only built for a positive quantity (engine/fills.py).
\<close>

section \<open>Updates\<close>

datatype PositionUpdate = OpenPosition Position | ClosedTrade Trade

type_synonym TradeCloserError = string

definition average_cost :: "Price \<Rightarrow> int \<Rightarrow> Price \<Rightarrow> int \<Rightarrow> Price" where
  "average_cost avg_cost qty price fill_qty =
     mk_Price (dquot (dadd (price_times avg_cost qty) (price_times price fill_qty))
       (dec_of_int (qty + fill_qty)))"

definition apply_buy :: "Position option \<Rightarrow> Fill \<Rightarrow> Decision \<Rightarrow> PositionUpdate" where
  "apply_buy position fill decision = (case position of
     None \<Rightarrow> OpenPosition \<lparr>p_ticker = d_ticker decision, p_qty = f_qty fill, p_avg_cost = f_price fill,
       p_opened_at = f_filled_at fill, p_high_watermark = f_price fill, p_partial_tp_done = False\<rparr>
   | Some p \<Rightarrow>
       OpenPosition (p\<lparr>p_qty := Quantity (shares (p_qty p) + shares (f_qty fill)),
         p_avg_cost := average_cost (p_avg_cost p) (shares (p_qty p)) (f_price fill) (shares (f_qty fill)),
         p_high_watermark := mk_Price (dmax (price_amount (p_high_watermark p)) (price_amount (f_price fill)))\<rparr>))"

definition fill_pnl :: "Price \<Rightarrow> Fill \<Rightarrow> Money" where
  "fill_pnl avg_cost fill =
     money_sub (mk_Money (dmul (dsub (price_amount (f_price fill)) (price_amount avg_cost))
       (dec_of_int (shares (f_qty fill))))) (f_fee fill)"

definition resolve_reason :: "ExitReason option \<Rightarrow> Decision \<Rightarrow> ExitReason option" where
  "resolve_reason exit_reason decision = (case exit_reason of
     Some r \<Rightarrow> Some r
   | None \<Rightarrow> if d_origin decision = Origin_llm then Some ER_llm else None)"

definition apply_sell :: "Position option \<Rightarrow> Fill \<Rightarrow> Decision \<Rightarrow> ExitReason option \<Rightarrow> string option
    \<Rightarrow> string list \<Rightarrow> Money \<Rightarrow> Money \<Rightarrow> (PositionUpdate, TradeCloserError) result" where
  "apply_sell position fill decision exit_reason entry_decision_id exit_decision_ids
      realized_so_far fees_so_far = (case position of
     None \<Rightarrow> Err (''cannot sell '' @ d_ticker decision @ '': no open position'')
   | Some p \<Rightarrow>
       if shares (p_qty p) < shares (f_qty fill) then
         Err (''cannot sell '' @ show_int (shares (f_qty fill)) @ '' shares of '' @ d_ticker decision
           @ '': only '' @ show_int (shares (p_qty p)) @ '' held'')
       else
         let cumulative_realized = money_add realized_so_far (fill_pnl (p_avg_cost p) fill);
             cumulative_fees = money_add fees_so_far (f_fee fill);
             remaining_shares = shares (p_qty p) - shares (f_qty fill);
             resolved_reason = resolve_reason exit_reason decision in
         if 0 < remaining_shares then
           Ok (OpenPosition (p\<lparr>p_qty := Quantity remaining_shares,
             p_partial_tp_done := p_partial_tp_done p \<or> resolved_reason = Some ER_partial_take_profit\<rparr>))
         else (case resolved_reason of
             None \<Rightarrow> Err ''closing sell needs a rule exit_reason or an LLM-origin decision''
           | Some reason \<Rightarrow>
               let entry = (case entry_decision_id of Some e \<Rightarrow> e | None \<Rightarrow> d_id decision) in
               Ok (ClosedTrade \<lparr>t_id = entry @ '':'' @ d_id decision, t_ticker = p_ticker p,
                 t_opened_at = p_opened_at p, t_closed_at = f_filled_at fill,
                 t_entry_decision_id = entry, t_exit_decision_ids = exit_decision_ids @ [d_id decision],
                 t_exit_reason = reason, t_realized_pnl = cumulative_realized,
                 t_fees = cumulative_fees,
                 t_holding_days = utc_date (f_filled_at fill) - utc_date (p_opened_at p)\<rparr>)))"

definition apply_fill :: "Position option \<Rightarrow> Fill \<Rightarrow> Decision \<Rightarrow> Side \<Rightarrow> ExitReason option \<Rightarrow> string option
    \<Rightarrow> string list \<Rightarrow> Money \<Rightarrow> Money \<Rightarrow> (PositionUpdate, TradeCloserError) result" where
  "apply_fill position fill decision side exit_reason entry_decision_id exit_decision_ids
      realized_so_far fees_so_far =
    (if side = Side_buy then Ok (apply_buy position fill decision)
     else apply_sell position fill decision exit_reason entry_decision_id exit_decision_ids
       realized_so_far fees_so_far)"

section \<open>The average cost\<close>

text \<open>The shares and prices for which the average is computed without a rounded intermediate.\<close>

definition average_fits :: "Price \<Rightarrow> int \<Rightarrow> Price \<Rightarrow> int \<Rightarrow> bool" where
  "average_fits a q p f \<longleftrightarrow> 0 < ticks a \<and> 0 < ticks p \<and> 0 < q \<and> 0 < f
     \<and> ticks a * q + ticks p * f < 10 ^ 26"

lemma average_numerator:
  assumes "average_fits a q p f"
  shows "dval (dadd (price_times a q) (price_times p f)) = of_int (ticks a * q + ticks p * f) * 10 powi (- 4)"
proof -
  have pos: "0 < ticks a * q" "0 < ticks p * f"
    using assms by (simp_all add: average_fits_def)
  moreover have "ticks a * q + ticks p * f < 10 ^ 26" using assms by (simp add: average_fits_def)
  ultimately have lt: "\<bar>ticks a * q\<bar> < 10 ^ 28" "\<bar>ticks p * f\<bar> < 10 ^ 28"
    "\<bar>ticks a * q + ticks p * f\<bar> < 10 ^ 28"
    by simp_all
  have v: "dval (price_times a q) + dval (price_times p f)
      = of_int (ticks a * q + ticks p * f) * 10 powi (- 4)"
    unfolding dval_price_times [OF lt(1)] dval_price_times [OF lt(2)] of_int_add
    by (rule distrib_right [symmetric])
  then have "representable (dval (price_times a q) + dval (price_times p f))"
    using lt(3) by (rule representableI)
  then show ?thesis by (simp only: dadd_exact v)
qed

lemma mk_Price_upper:
  assumes "dval d < (of_int k + 1 / 2) * 10 powi (- 4)"
  shows "ticks (mk_Price d) \<le> k"
proof -
  have "dval d / 10 powi (- 4) < of_int k + 1 / 2"
    using assms by (simp only: pos_divide_less_eq powi10_pos)
  then have "rhe (dval d / 10 powi (- 4)) < k + 1"
    using rhe_error [of "dval d / 10 powi (- 4)"] by linarith
  then show ?thesis by (simp only: price.units_mk_rhe zle_add1_eq_le)
qed

lemma weighted_mean_bounds:
  fixes a p q f :: int
  assumes "0 < q" "0 < f"
  shows "min a p * (q + f) \<le> a * q + p * f \<and> a * q + p * f \<le> max a p * (q + f)"
proof -
  have "min a p * q \<le> a * q" "min a p * f \<le> p * f" "a * q \<le> max a p * q" "p * f \<le> max a p * f"
    using assms by (simp_all add: mult_right_mono)
  then show ?thesis by (simp add: distrib_left)
qed

lemma average_cost_between:
  assumes fit: "average_fits a q p f"
  shows "min (ticks a) (ticks p) \<le> ticks (average_cost a q p f)
    \<and> ticks (average_cost a q p f) \<le> max (ticks a) (ticks p)"
proof -
  let ?num = "dadd (price_times a q) (price_times p f)" and ?den = "dec_of_int (q + f)"
  let ?N = "ticks a * q + ticks p * f" and ?lo = "min (ticks a) (ticks p)" and ?hi = "max (ticks a) (ticks p)"
  have pos: "0 < q" "0 < f" "0 < ?lo" "0 < ?hi" "0 < q + f" "?N < 10 ^ 26" "0 < ?N"
    using fit by (auto simp: average_fits_def add_pos_pos less_max_iff_disj)
  have num: "dval ?num = of_int ?N * 10 powi (- 4)" using fit by (rule average_numerator)
  have den: "dval ?den = of_int (q + f)" by simp
  have np: "0 < dval ?num" "0 < dval ?den"
    unfolding num den using pos by (simp_all only: zero_less_mult_iff powi10_pos of_int_0_less_iff simp_thms)
  note wm = weighted_mean_bounds [OF pos(1,2), of "ticks a" "ticks p"]
  have quot: "dval ?num / dval ?den = of_int ?N / of_int (q + f) * 10 powi (- 4)"
    by (simp only: num den times_divide_eq_left)
  have lo: "(of_int ?lo :: rat) \<le> of_int ?N / of_int (q + f)"
    and hi: "of_int ?N / of_int (q + f) \<le> (of_int ?hi :: rat)"
  proof -
    have "of_int (?lo * (q + f)) \<le> (of_int ?N :: rat)" "of_int ?N \<le> (of_int (?hi * (q + f)) :: rat)"
      using wm by (simp_all only: of_int_le_iff)
    moreover have "(0 :: rat) < of_int (q + f)" using pos(5) by (simp only: of_int_0_less_iff)
    ultimately show "(of_int ?lo :: rat) \<le> of_int ?N / of_int (q + f)"
      "of_int ?N / of_int (q + f) \<le> (of_int ?hi :: rat)"
      by (simp_all only: pos_le_divide_eq pos_divide_le_eq of_int_mult)
  qed
  have lo27: "?lo \<le> 10 ^ 27" and hi26: "?hi < 10 ^ 26"
  proof -
    have "ticks a * 1 \<le> ticks a * q" "ticks p * 1 \<le> ticks p * f"
      using fit by (intro mult_left_mono; simp add: average_fits_def)+
    moreover have "0 < ticks a * q" "0 < ticks p * f" using fit by (simp_all add: average_fits_def)
    ultimately show "?lo \<le> 10 ^ 27" "?hi < 10 ^ 26" using pos(6) by simp_all
  qed
  have "of_int ?lo * 10 powi (- 4) \<le> dval ?num / dval ?den"
    unfolding quot using lo by (rule mult_right_mono) simp
  then have "of_int ?lo * 10 powi (- 4) \<le> dval (dquot ?num ?den)"
    using np lo27 by (intro dquot_ge_grid)
  then have 1: "?lo \<le> ticks (average_cost a q p f)"
    unfolding average_cost_def by (rule price.mk_ge_grid)
  have "dval (dquot ?num ?den) \<le> dval ?num / dval ?den * (1 + 1 / 10 ^ 27)"
    using np by (rule dquot_upper)
  also have "\<dots> \<le> of_int ?hi * 10 powi (- 4) * (1 + 1 / 10 ^ 27)"
    unfolding quot using hi by (intro mult_right_mono) simp_all
  also have "\<dots> < (of_int ?hi + 1 / 2) * 10 powi (- 4)"
  proof -
    have "(of_int ?hi :: rat) < of_int (10 ^ 26)" using hi26 by (simp only: of_int_less_iff)
    then have "of_int ?hi * (1 / 10 ^ 27) < (1 / 2 :: rat)" by simp
    then have "of_int ?hi * (1 + 1 / 10 ^ 27) < (of_int ?hi + 1 / 2 :: rat)"
      by (simp only: distrib_left mult_1_right add_less_cancel_left)
    then have "of_int ?hi * (1 + 1 / 10 ^ 27) * 10 powi (- 4) < (of_int ?hi + 1 / 2 :: rat) * 10 powi (- 4)"
      by (rule mult_strict_right_mono) simp
    then show ?thesis by (simp only: mult.assoc mult.commute [of "10 powi (- 4)"])
  qed
  finally have 2: "ticks (average_cost a q p f) \<le> ?hi"
    unfolding average_cost_def by (rule mk_Price_upper)
  show ?thesis using 1 2 by simp
qed

section \<open>Profit\<close>

lemma cents_fill_pnl:
  assumes "\<bar>(ticks (f_price fill) - ticks avg) * shares (f_qty fill)\<bar> < 10 ^ 28"
    "\<bar>ticks (f_price fill) - ticks avg\<bar> < 10 ^ 28"
  shows "cents (fill_pnl avg fill) =
    rhe (of_int ((ticks (f_price fill) - ticks avg) * shares (f_qty fill)) / 100) - cents (f_fee fill)"
proof -
  let ?d = "dsub (price_amount (f_price fill)) (price_amount avg)"
  have s: "dval (price_amount (f_price fill)) - dval (price_amount avg)
      = of_int (ticks (f_price fill) - ticks avg) * 10 powi (- 4)"
    by (simp only: price.dval_amount of_int_diff left_diff_distrib)
  then have d: "dval ?d = of_int (ticks (f_price fill) - ticks avg) * 10 powi (- 4)"
    using assms(2) by (simp only: dsub_exact representableI)
  have "dval ?d * dval (dec_of_int (shares (f_qty fill)))
      = of_int ((ticks (f_price fill) - ticks avg) * shares (f_qty fill)) * 10 powi (- 4)"
    by (simp only: d dval_of_int of_int_mult mult.assoc mult.commute [of "10 powi (- 4)"])
  moreover from this have "representable (dval ?d * dval (dec_of_int (shares (f_qty fill))))"
    using assms(1) by (rule representableI)
  ultimately have "dval (dmul ?d (dec_of_int (shares (f_qty fill))))
      = of_int ((ticks (f_price fill) - ticks avg) * shares (f_qty fill)) * 10 powi (- 4)"
    by (simp only: dmul_exact)
  then have "dval (dmul ?d (dec_of_int (shares (f_qty fill)))) / 10 powi (- 2)
      = of_int ((ticks (f_price fill) - ticks avg) * shares (f_qty fill)) / 100"
    by simp
  then show ?thesis by (simp only: fill_pnl_def cents_simps money.units_mk_rhe)
qed

section \<open>Branches\<close>

lemma apply_sell_open [outcome]:
  "apply_sell pos fill dec er entry exits rs fs = Ok (OpenPosition p') \<longleftrightarrow>
     (\<exists>p. pos = Some p \<and> shares (f_qty fill) < shares (p_qty p)
        \<and> p' = p\<lparr>p_qty := Quantity (shares (p_qty p) - shares (f_qty fill)),
             p_partial_tp_done := p_partial_tp_done p \<or> resolve_reason er dec = Some ER_partial_take_profit\<rparr>)"
  by (auto simp: apply_sell_def Let_def split: option.splits if_splits)

lemma apply_sell_closed [outcome]:
  "apply_sell pos fill dec er entry exits rs fs = Ok (ClosedTrade t) \<Longrightarrow>
     \<exists>p reason. pos = Some p \<and> shares (f_qty fill) = shares (p_qty p) \<and> resolve_reason er dec = Some reason
       \<and> t_exit_reason t = reason \<and> t_ticker t = p_ticker p
       \<and> t_realized_pnl t = money_add rs (fill_pnl (p_avg_cost p) fill)
       \<and> t_fees t = money_add fs (f_fee fill) \<and> t_exit_decision_ids t = exits @ [d_id dec]
       \<and> t_entry_decision_id t = (case entry of Some e \<Rightarrow> e | None \<Rightarrow> d_id dec)
       \<and> t_opened_at t = p_opened_at p \<and> t_closed_at t = f_filled_at fill
       \<and> t_id t = t_entry_decision_id t @ '':'' @ d_id dec"
  by (auto simp: apply_sell_def Let_def split: option.splits if_splits)

lemma apply_sell_err_iff:
  "is_err (apply_sell pos fill dec er entry exits rs fs) \<longleftrightarrow>
     (case pos of None \<Rightarrow> True
      | Some p \<Rightarrow> shares (p_qty p) < shares (f_qty fill)
          \<or> shares (f_qty fill) = shares (p_qty p) \<and> resolve_reason er dec = None)"
  by (auto simp: apply_sell_def Let_def split: option.splits if_splits)

lemma resolve_reason_None: "resolve_reason er dec = None \<longleftrightarrow> er = None \<and> d_origin dec \<noteq> Origin_llm"
  by (auto simp: resolve_reason_def split: option.splits)

section \<open>Properties\<close>


definition sample_fill :: Fill where
  "sample_fill = \<lparr>f_id = ''fill_1'', f_order_id = ''order_dec_1'', f_filled_at = 60000000,
     f_qty = Quantity 30, f_price = Price 200000, f_fee = Money 0\<rparr>"

definition sample_decision :: Decision where
  "sample_decision = \<lparr>d_id = ''dec_1'', d_cycle_id = ''cycle_1'', d_decided_at = 0, d_mode = ''paper'',
     d_ticker = ''AXTI'', d_action = Action_sell, d_origin = Origin_rule_exit, d_confidence = None,
     d_rationale = '''', d_evidence_mention_ids = [], d_llm_model = None, d_prompt_sha256 = None,
     d_response_sha256 = None, d_rule_set_sha256 = ''ab12'', d_rule_check = RC_passed,
     d_rule_check_reason = '''', d_proposed_notional = Some (Money 60000),
     d_reference_price = Some (Price 200000)\<rparr>"

definition open_sample :: Position where
  "open_sample = \<lparr>p_ticker = ''AXTI'', p_qty = Quantity 30, p_avg_cost = Price 123400,
     p_opened_at = 0, p_high_watermark = Price 150000, p_partial_tp_done = False\<rparr>"


text \<open>
  C20: a sell is refused exactly when there is no position, when it is for more shares than are
  held, or when it would close the position without a reason; otherwise it sells exactly the
  fill's shares.
\<close>

theorem sell_never_oversells:
  "(is_err (apply_fill pos fill dec Side_sell er entry exits rs fs) \<longleftrightarrow>
      (case pos of None \<Rightarrow> True
       | Some p \<Rightarrow> shares (p_qty p) < shares (f_qty fill)
           \<or> shares (f_qty fill) = shares (p_qty p) \<and> er = None \<and> d_origin dec \<noteq> Origin_llm))
    \<and> (\<forall>p'. apply_fill pos fill dec Side_sell er entry exits rs fs = Ok (OpenPosition p') \<longrightarrow>
        (\<exists>p. pos = Some p \<and> shares (p_qty p') = shares (p_qty p) - shares (f_qty fill)
           \<and> 0 < shares (p_qty p') \<and> p_avg_cost p' = p_avg_cost p))
    \<and> (\<forall>t. apply_fill pos fill dec Side_sell er entry exits rs fs = Ok (ClosedTrade t) \<longrightarrow>
        (\<exists>p. pos = Some p \<and> shares (f_qty fill) = shares (p_qty p)))"
  by (auto simp: apply_fill_def apply_sell_err_iff apply_sell_open resolve_reason_None
      dest: apply_sell_closed split: option.splits)

theorem sell_never_oversells_witness:
  "is_err (apply_fill (Some open_sample) (sample_fill\<lparr>f_qty := Quantity 31\<rparr>) sample_decision Side_sell
      (Some ER_stop_loss) None [] zero_money zero_money)
    \<and> (\<exists>p'. apply_fill (Some open_sample) (sample_fill\<lparr>f_qty := Quantity 10\<rparr>) sample_decision Side_sell
      (Some ER_stop_loss) None [] zero_money zero_money = Ok (OpenPosition p') \<and> shares (p_qty p') = 20)"
proof -
  obtain p' where p': "apply_fill (Some open_sample) (sample_fill\<lparr>f_qty := Quantity 10\<rparr>) sample_decision
      Side_sell (Some ER_stop_loss) None [] zero_money zero_money = Ok (OpenPosition p')"
    by (simp add: apply_fill_def apply_sell_def Let_def resolve_reason_def open_sample_def)
  have "shares (p_qty p') = 20"
    using sell_never_oversells [of "Some open_sample" "sample_fill\<lparr>f_qty := Quantity 10\<rparr>"
        sample_decision "Some ER_stop_loss" None "[]" zero_money zero_money] p'
    by (auto simp: open_sample_def)
  moreover have "is_err (apply_fill (Some open_sample) (sample_fill\<lparr>f_qty := Quantity 31\<rparr>) sample_decision
      Side_sell (Some ER_stop_loss) None [] zero_money zero_money)"
    using sell_never_oversells [of "Some open_sample" "sample_fill\<lparr>f_qty := Quantity 31\<rparr>"
        sample_decision "Some ER_stop_loss" None "[]" zero_money zero_money]
    by (simp add: open_sample_def)
  ultimately show ?thesis using p' by blast
qed

text \<open>
  C26: a closed trade carries the profit of every fill: what earlier sells realized plus this
  fill's exact difference to the average cost, rounded once to the cent, less its fee.
\<close>

theorem closed_trade_profit:
  assumes close: "apply_fill (Some p) fill dec Side_sell er entry exits rs fs = Ok (ClosedTrade t)"
    and fit: "\<bar>(ticks (f_price fill) - ticks (p_avg_cost p)) * shares (f_qty fill)\<bar> < 10 ^ 28"
      "\<bar>ticks (f_price fill) - ticks (p_avg_cost p)\<bar> < 10 ^ 28"
  shows "cents (t_realized_pnl t) = cents rs
      + rhe (of_int ((ticks (f_price fill) - ticks (p_avg_cost p)) * shares (p_qty p)) / 100)
      - cents (f_fee fill)
    \<and> cents (t_fees t) = cents fs + cents (f_fee fill)
    \<and> t_exit_decision_ids t = exits @ [d_id dec] \<and> t_ticker t = p_ticker p
    \<and> t_opened_at t = p_opened_at p \<and> t_closed_at t = f_filled_at fill"
proof -
  have "apply_sell (Some p) fill dec er entry exits rs fs = Ok (ClosedTrade t)"
    using close by (simp add: apply_fill_def)
  from apply_sell_closed [OF this] have
    c: "shares (f_qty fill) = shares (p_qty p)" "t_realized_pnl t = money_add rs (fill_pnl (p_avg_cost p) fill)"
      "t_fees t = money_add fs (f_fee fill)" "t_exit_decision_ids t = exits @ [d_id dec]"
      "t_ticker t = p_ticker p" "t_opened_at t = p_opened_at p" "t_closed_at t = f_filled_at fill"
    by blast+
  show ?thesis using cents_fill_pnl [OF fit] c by simp
qed

theorem closed_trade_profit_witness:
  "\<exists>t. apply_fill (Some open_sample) sample_fill sample_decision Side_sell (Some ER_trailing_stop) None []
      zero_money zero_money = Ok (ClosedTrade t) \<and> cents (t_realized_pnl t) = 22980"
proof -
  obtain t where t: "apply_fill (Some open_sample) sample_fill sample_decision Side_sell
      (Some ER_trailing_stop) None [] zero_money zero_money = Ok (ClosedTrade t)"
    by (simp add: apply_fill_def apply_sell_def Let_def resolve_reason_def open_sample_def sample_fill_def)
  have "rhe (2298000 / 100) = 22980" by (simp add: rhe_def)
  then show ?thesis
    using closed_trade_profit [OF t] t by (simp add: open_sample_def sample_fill_def)
qed

end
