(* ===== verification/Order_Executor.thy ===== *)
theory Order_Executor
  imports Approval_Engine Portfolio_Repository Fake_Broker Trade_Closer
begin

text \<open>
  engine/order_executor.py: record, then submit. The state of the engine is its connection, the
  outside world, and a log, kept for the statements only: every call of \<open>submit_market_order\<close> with
  the database as it was committed at that moment.
\<close>

type_synonym ExecError = string

record 'x engine =
  eng_conn :: conn
  eng_world :: 'x
  eng_log :: "(OrderRequest \<times> db) list"

definition new_order :: "ApprovedOrderRequest \<Rightarrow> TradingMode \<Rightarrow> Order" where
  "new_order req mode =
     \<lparr>o_id = ''order_'' @ d_id (req_decision req), o_decision_id = d_id (req_decision req),
      o_approval_id = a_id (req_approval req), o_client_order_id = req_client_order_id req,
      o_broker_order_id = None, o_mode = mode_value mode, o_side = req_side req,
      o_qty = req_qty req, o_order_type = ''market'', o_status = OS_recorded,
      o_submitted_at = None, o_last_error = None\<rparr>"

definition broker_request :: "ApprovedOrderRequest \<Rightarrow> OrderRequest" where
  "broker_request req = \<lparr>or_client_order_id = req_client_order_id req,
     or_ticker = d_ticker (req_decision req), or_side = req_side req, or_qty = req_qty req\<rparr>"

text \<open>The body of the transaction: an insert that fails raises, which rolls back.\<close>

definition record_decision :: "Decision \<Rightarrow> conn \<Rightarrow> (unit, string) result \<times> conn" where
  "record_decision d c = (case get_decision c (d_id d) of
     Some _ \<Rightarrow> (Ok (), c)
   | None \<Rightarrow> (case insert_decision c d of (Err e, c') \<Rightarrow> (Err e, c') | (Ok _, c') \<Rightarrow> (Ok (), c')))"

definition record_order :: "ApprovedOrderRequest \<Rightarrow> Order \<Rightarrow> conn \<Rightarrow> (unit, string) result \<times> conn" where
  "record_order req x c = (case record_decision (req_decision req) c of
     (Err e, c1) \<Rightarrow> (Err e, c1)
   | (Ok _, c1) \<Rightarrow> (case insert_approval c1 (req_approval req) of
       (Err e, c2) \<Rightarrow> (Err e, c2)
     | (Ok _, c2) \<Rightarrow> (case insert_order c2 x of
         (Err e, c3) \<Rightarrow> (Err e, c3)
       | (Ok _, c3) \<Rightarrow> (Ok (), c3))))"

definition submit :: "'x Broker \<Rightarrow> OrderRequest \<Rightarrow> 'x engine \<Rightarrow> (BrokerOrder, BrokerError) result \<times> 'x engine" where
  "submit broker r s = (case submit_market_order broker r (eng_world s) of
     (res, x') \<Rightarrow> (res, s\<lparr>eng_world := x', eng_log := eng_log s @ [(r, committed (eng_conn s))]\<rparr>))"

definition execute :: "'x Broker \<Rightarrow> 'x Clock \<Rightarrow> TradingMode \<Rightarrow> ApprovedOrderRequest \<Rightarrow> 'x engine
    \<Rightarrow> (Order, ExecError) result \<times> 'x engine" where
  "execute broker clock mode req s =
    (let order = new_order req mode in
     case transaction (record_order req order) (eng_conn s) of
       (Err e, c1) \<Rightarrow> (Err e, s\<lparr>eng_conn := c1\<rparr>)
     | (Ok _, c1) \<Rightarrow> (case submit broker (broker_request req) (s\<lparr>eng_conn := c1\<rparr>) of
         (Err failure_message, s2) \<Rightarrow>
           (case update_order_status (eng_conn s2) (o_id order) OS_failed (Some failure_message) None None of
              (Err e, c3) \<Rightarrow> (Err e, s2\<lparr>eng_conn := c3\<rparr>)
            | (Ok _, c3) \<Rightarrow> (Err failure_message, s2\<lparr>eng_conn := c3\<rparr>))
       | (Ok bo, s2) \<Rightarrow>
           let (submitted_at, x3) = clock (eng_world s2); s3 = s2\<lparr>eng_world := x3\<rparr> in
           (case update_order_status (eng_conn s3) (o_id order) OS_submitted None
                (Some (bo_broker_order_id bo)) (Some submitted_at) of
              (Err e, c4) \<Rightarrow> (Err e, s3\<lparr>eng_conn := c4\<rparr>)
            | (Ok _, c4) \<Rightarrow>
                (Ok (order\<lparr>o_status := OS_submitted, o_broker_order_id := Some (bo_broker_order_id bo),
                   o_submitted_at := Some submitted_at\<rparr>), s3\<lparr>eng_conn := c4\<rparr>))))"

section \<open>What the transaction records\<close>

lemma new_order_simps [simp]:
  "o_id (new_order req mode) = ''order_'' @ d_id (req_decision req)"
  "o_decision_id (new_order req mode) = d_id (req_decision req)"
  "o_approval_id (new_order req mode) = a_id (req_approval req)"
  "o_client_order_id (new_order req mode) = req_client_order_id req"
  "o_status (new_order req mode) = OS_recorded" "o_qty (new_order req mode) = req_qty req"
  "o_side (new_order req mode) = req_side req"
  by (simp_all add: new_order_def)

lemma record_decision_Ok [outcome]:
  "record_decision d c = (Ok u, c') \<Longrightarrow> has_key d_id (d_id d) (decisions (working c'))
     \<and> approvals (working c') = approvals (working c) \<and> orders (working c') = orders (working c)
     \<and> set (decisions (working c)) \<subseteq> set (decisions (working c'))
     \<and> set (decisions (working c')) \<subseteq> insert d (set (decisions (working c)))"
  by (auto simp: record_decision_def get_decision_def insert_decision_Ok has_key_append
      split: option.splits prod.splits result.splits dest: find_row_has_key)

lemma same_store_record_decision [frame]: "record_decision d c = (r, c') \<Longrightarrow> same_store c c'"
  by (auto simp: record_decision_def split: option.splits prod.splits result.splits
      dest: same_store_insert_decision)

lemma same_store_record_order [frame]:
  assumes "record_order req x c = (r, c')" shows "same_store c c'"
proof -
  obtain r1 c1 where 1: "record_decision (req_decision req) c = (r1, c1)" by fastforce
  obtain r2 c2 where 2: "insert_approval c1 (req_approval req) = (r2, c2)" by fastforce
  obtain r3 c3 where 3: "insert_order c2 x = (r3, c3)" by fastforce
  have "same_store c c1" "same_store c c2" "same_store c c3"
    using same_store_record_decision [OF 1] same_store_insert_approval [OF 2]
      same_store_insert_order [OF 3] by (blast intro: same_store_trans)+
  then show ?thesis using assms
    by (auto simp: record_order_def 1 2 3 split: result.splits)
qed

lemma record_order_Ok [outcome]:
  assumes "record_order req x c = (Ok u, c')"
  shows "has_key d_id (d_id (req_decision req)) (decisions (working c'))
    \<and> req_approval req \<in> set (approvals (working c')) \<and> x \<in> set (orders (working c'))
    \<and> orders (working c') = orders (working c) @ [x]
    \<and> approvals (working c') = approvals (working c) @ [req_approval req]
    \<and> \<not> has_key o_client_order_id (o_client_order_id x) (orders (working c))
    \<and> \<not> has_key a_id (a_id (req_approval req)) (approvals (working c))"
proof -
  obtain u1 c1 u2 c2 u3 where
    1: "record_decision (req_decision req) c = (Ok u1, c1)" and
    2: "insert_approval c1 (req_approval req) = (Ok u2, c2)" and
    3: "insert_order c2 x = (Ok u3, c')"
    using assms by (auto simp: record_order_def split: prod.splits result.splits)
  show ?thesis
    using record_decision_Ok [OF 1] 2 3 by (auto simp: insert_approval_Ok insert_order_Ok)
qed

lemma schema_transaction:
  assumes "\<And>r c1. body c = (r, c1) \<Longrightarrow> schema_ok (working c1)"
    and "schema_ok (committed c)" "\<And>r c1. body c = (r, c1) \<Longrightarrow> same_store c c1"
    and "transaction body c = (r, c')"
  shows "schema_ok (committed c') \<and> schema_ok (working c')"
proof (cases r)
  case (Ok v)
  then obtain c1 where "body c = (Ok v, c1)" "c' = c1\<lparr>stmts := Suc (stmts c1), committed := working c1\<rparr>"
    using transaction_Ok [of body c v c'] assms(4) by auto
  then show ?thesis using assms(1) by simp
next
  case (Err e)
  then show ?thesis using transaction_Err [of body c e c'] assms(2-4) by simp
qed

section \<open>Submissions\<close>

lemma submit_frame [simp]:
  assumes "submit broker r s = (res, s')"
  shows "eng_conn s' = eng_conn s" "eng_log s' = eng_log s @ [(r, committed (eng_conn s))]"
    "eng_world s' = snd (submit_market_order broker r (eng_world s))"
    "res = fst (submit_market_order broker r (eng_world s))"
  using assms by (auto simp: submit_def split: prod.splits)

text \<open>The three ways \<open>execute\<close> can go.\<close>

lemma execute_cases:
  assumes "execute broker clock mode req s = (r, s')"
  obtains (not_recorded) e c1 where "transaction (record_order req (new_order req mode)) (eng_conn s) = (Err e, c1)"
      "r = Err e" "s' = s\<lparr>eng_conn := c1\<rparr>"
  | (refused) u c1 m s2 ur c3 where "transaction (record_order req (new_order req mode)) (eng_conn s) = (Ok u, c1)"
      "submit broker (broker_request req) (s\<lparr>eng_conn := c1\<rparr>) = (Err m, s2)"
      "update_order_status c1 (o_id (new_order req mode)) OS_failed (Some m) None None = (ur, c3)"
      "s' = s2\<lparr>eng_conn := c3\<rparr>" "r = (case ur of Ok _ \<Rightarrow> Err m | Err e \<Rightarrow> Err e)"
  | (accepted) u c1 bo s2 ur c4 t x3 where "transaction (record_order req (new_order req mode)) (eng_conn s) = (Ok u, c1)"
      "submit broker (broker_request req) (s\<lparr>eng_conn := c1\<rparr>) = (Ok bo, s2)"
      "clock (eng_world s2) = (t, x3)"
      "update_order_status c1 (o_id (new_order req mode)) OS_submitted None
        (Some (bo_broker_order_id bo)) (Some t) = (ur, c4)"
      "s' = s2\<lparr>eng_world := x3, eng_conn := c4\<rparr>"
      "r = (case ur of Err e \<Rightarrow> Err e
        | Ok _ \<Rightarrow> Ok ((new_order req mode)\<lparr>o_status := OS_submitted,
            o_broker_order_id := Some (bo_broker_order_id bo), o_submitted_at := Some t\<rparr>))"
proof -
  obtain tr c1 where t: "transaction (record_order req (new_order req mode)) (eng_conn s) = (tr, c1)"
    by fastforce
  show thesis
  proof (cases tr)
    case (Err e)
    then show thesis using assms t not_recorded by (simp add: execute_def Let_def)
  next
    case (Ok u)
    obtain br s2 where b: "submit broker (broker_request req) (s\<lparr>eng_conn := c1\<rparr>) = (br, s2)" by fastforce
    then have c2: "eng_conn s2 = c1" by simp
    show thesis
    proof (cases br)
      case (Err m)
      obtain ur c3 where u: "update_order_status c1 (o_id (new_order req mode)) OS_failed (Some m) None None = (ur, c3)"
        by fastforce
      then have "s' = s2\<lparr>eng_conn := c3\<rparr>" "r = (case ur of Ok _ \<Rightarrow> Err m | Err e \<Rightarrow> Err e)"
        using assms t Ok b Err c2
        by (auto simp: execute_def Let_def simp del: new_order_simps split: result.splits)
      then show thesis using refused t Ok b Err u by blast
    next
      case bo: (Ok bo)
      obtain ts x3 where ck: "clock (eng_world s2) = (ts, x3)" by fastforce
      obtain ur c4 where u: "update_order_status c1 (o_id (new_order req mode)) OS_submitted None
          (Some (bo_broker_order_id bo)) (Some ts) = (ur, c4)" by fastforce
      then have "s' = s2\<lparr>eng_world := x3, eng_conn := c4\<rparr>"
        "r = (case ur of Err e \<Rightarrow> Err e | Ok _ \<Rightarrow> Ok ((new_order req mode)\<lparr>o_status := OS_submitted,
            o_broker_order_id := Some (bo_broker_order_id bo), o_submitted_at := Some ts\<rparr>))"
        using assms t Ok b bo c2 ck
        by (auto simp: execute_def Let_def simp del: new_order_simps split: result.splits)
      then show thesis using accepted t Ok b bo ck u by blast
    qed
  qed
qed

lemma committed_update_order:
  "update_order_status c i os msg bid t = (r, c') \<Longrightarrow> committed c' = committed c \<and> faults c' = faults c"
  using same_store_update_order_status [of c i os msg bid t r c'] by (simp add: same_store_def)

lemma committed_record:
  assumes "transaction (record_order req (new_order req mode)) c = (Ok u, c1)"
  shows "has_key d_id (d_id (req_decision req)) (decisions (committed c1))
    \<and> req_approval req \<in> set (approvals (committed c1)) \<and> new_order req mode \<in> set (orders (committed c1))"
  using transaction_Ok [OF assms] record_order_Ok by fastforce

text \<open>
  Whatever happens, the log grows by at most the one request, and what it grows by was recorded
  and committed before.
\<close>

lemma execute_log:
  assumes "execute broker clock mode req s = (r, s')"
  shows "eng_log s' = eng_log s \<or>
    (eng_log s' = eng_log s @ [(broker_request req, committed (eng_conn s'))]
      \<and> has_key d_id (d_id (req_decision req)) (decisions (committed (eng_conn s')))
      \<and> req_approval req \<in> set (approvals (committed (eng_conn s')))
      \<and> new_order req mode \<in> set (orders (committed (eng_conn s'))))"
  using assms
proof (cases rule: execute_cases)
  case (not_recorded e c1)
  then show ?thesis by simp
next
  case (refused u c1 m s2 ur c3)
  then show ?thesis
    using committed_update_order [OF refused(3)] committed_record [OF refused(1)] by simp
next
  case (accepted u c1 bo s2 ur c4 t x3)
  then show ?thesis
    using committed_update_order [OF accepted(4)] committed_record [OF accepted(1)] by simp
qed

text \<open>An order whose client id is stored already is never submitted again.\<close>

lemma record_order_duplicate:
  assumes "has_key o_client_order_id (o_client_order_id x) (orders (working c))"
  shows "\<exists>e c'. record_order req x c = (Err e, c')"
proof (cases "record_order req x c")
  case (Pair r c')
  then show ?thesis using record_order_Ok [of req x c _ c'] assms by (cases r) auto
qed

lemma transaction_record_duplicate:
  assumes "has_key o_client_order_id (o_client_order_id x) (orders (working c))"
  shows "\<exists>e c'. transaction (record_order req x) c = (Err e, c')"
  using record_order_duplicate [OF assms, of req] by (auto simp: transaction_def)

lemma record_order_known_approval:
  assumes "has_key a_id (a_id (req_approval req)) (approvals (working c))"
  shows "\<exists>e c'. transaction (record_order req x) c = (Err e, c')"
proof (cases "record_order req x c")
  case (Pair r c')
  then show ?thesis using record_order_Ok [of req x c _ c'] assms
    by (cases r) (auto simp: transaction_def)
qed

section \<open>Properties\<close>

text \<open>
  C2: record before submit. Whatever statements and commits fail, the broker is asked to submit at
  most one order, the request's own, and when it is asked, the decision, the approval and the
  order row with status recorded are in the database as committed at that moment.
\<close>

theorem record_before_submit:
  assumes "execute broker clock mode req s = (r, s')"
  shows "\<exists>new. eng_log s' = eng_log s @ new \<and> length new \<le> 1
    \<and> list_all (\<lambda>(q, d). q = broker_request req
        \<and> has_key d_id (d_id (req_decision req)) (decisions d)
        \<and> req_approval req \<in> set (approvals d) \<and> new_order req mode \<in> set (orders d)) new"
  using execute_log [OF assms]
proof
  assume "eng_log s' = eng_log s"
  then show ?thesis by (intro exI [of _ "[]"]) simp
next
  assume "eng_log s' = eng_log s @ [(broker_request req, committed (eng_conn s'))]
      \<and> has_key d_id (d_id (req_decision req)) (decisions (committed (eng_conn s')))
      \<and> req_approval req \<in> set (approvals (committed (eng_conn s')))
      \<and> new_order req mode \<in> set (orders (committed (eng_conn s')))"
  then show ?thesis by (intro exI [of _ "[(broker_request req, committed (eng_conn s'))]"]) simp
qed

text \<open>
  C13: if recording fails, nothing happens outside: the broker is not called, the outside world is
  untouched, and the connection is back at the last commit, which has not moved.
\<close>

theorem unrecorded_not_submitted:
  assumes "transaction (record_order req (new_order req mode)) (eng_conn s) = (Err e, c1)"
    and "execute broker clock mode req s = (r, s')"
  shows "r = Err e \<and> eng_world s' = eng_world s \<and> eng_log s' = eng_log s
    \<and> committed (eng_conn s') = committed (eng_conn s) \<and> working (eng_conn s') = committed (eng_conn s)"
proof -
  have "r = Err e" "s' = s\<lparr>eng_conn := c1\<rparr>" using assms by (simp_all add: execute_def Let_def)
  then show ?thesis
    using transaction_Err [OF assms(1) same_store_record_order] by simp
qed

text \<open>
  C12: a decision is submitted at most once. When an order with the request's client order id is
  already recorded, \<open>execute\<close> returns an error and the broker is not called.
\<close>

theorem no_duplicate_submission:
  assumes "has_key o_client_order_id (req_client_order_id req) (orders (working (eng_conn s)))"
    and "execute broker clock mode req s = (r, s')"
  shows "is_err r \<and> eng_log s' = eng_log s \<and> eng_world s' = eng_world s"
proof -
  obtain e c1 where t: "transaction (record_order req (new_order req mode)) (eng_conn s) = (Err e, c1)"
    using transaction_record_duplicate [of "new_order req mode" "eng_conn s" req] assms(1) by auto
  then have "r = Err e" "s' = s\<lparr>eng_conn := c1\<rparr>" using assms(2) by (simp_all add: execute_def Let_def)
  then show ?thesis by simp
qed

text \<open>
  When \<open>execute\<close> returns an order, the broker accepted exactly one submission and the order
  row carries the status submitted, the broker's id and the time.
\<close>

theorem executed_order_recorded:
  assumes "execute broker clock mode req s = (Ok ord, s')"
  shows "\<exists>bo t. fst (submit_market_order broker (broker_request req) (eng_world s)) = Ok bo
    \<and> ord = (new_order req mode)\<lparr>o_status := OS_submitted, o_broker_order_id := Some (bo_broker_order_id bo),
        o_submitted_at := Some t\<rparr>
    \<and> ord \<in> set (orders (working (eng_conn s')))
    \<and> eng_log s' = eng_log s @ [(broker_request req, committed (eng_conn s'))]"
  using assms
proof (cases rule: execute_cases)
  case (accepted u c1 bo s2 ur c4 t x3)
  obtain v where ur: "ur = Ok v" using accepted(6) by (cases ur) simp_all
  have ord: "ord = (new_order req mode)\<lparr>o_status := OS_submitted,
      o_broker_order_id := Some (bo_broker_order_id bo), o_submitted_at := Some t\<rparr>"
    using accepted(6) ur by simp
  obtain c0 where c0: "record_order req (new_order req mode) (eng_conn s) = (Ok u, c0)"
      "c1 = c0\<lparr>stmts := Suc (stmts c0), committed := working c0\<rparr>"
    using transaction_Ok [OF accepted(1)] by blast
  have "new_order req mode \<in> set (orders (working c1))" using record_order_Ok [OF c0(1)] c0(2) by simp
  moreover have c4: "orders (working c4) = change_row o_id (o_id (new_order req mode))
      (set_status OS_submitted None (Some (bo_broker_order_id bo)) (Some t)) (orders (working c1))"
    using accepted(4) unfolding ur update_order_status_Ok by auto
  moreover have "set_status OS_submitted None (Some (bo_broker_order_id bo)) (Some t) (new_order req mode) = ord"
    by (simp add: ord set_status_def new_order_def coalesce_def)
  ultimately have "ord \<in> set (orders (working c4))" by (force simp: change_row_def)
  moreover have "fst (submit_market_order broker (broker_request req) (eng_world s)) = Ok bo"
    using submit_frame(4) [OF accepted(2)] by simp
  ultimately show ?thesis
    using ord accepted committed_update_order [OF accepted(4)] by auto
qed (auto split: result.splits)

text \<open>
  C40: a live approval can never be executed. The approval \<open>resolve_approval\<close> returns in live mode is
  already stored, and \<open>execute\<close> inserts it again, so recording fails, the transaction is rolled
  back with every uncommitted row of the connection, and nothing is submitted.
\<close>

theorem live_order_never_submitted:
  assumes "resolve_approval uuid4 clock d Mode_live (eng_conn s) mclock (eng_world s) = (Ok req, x)"
    and "execute broker clock' Mode_live req s = (r, s')"
  shows "is_err r \<and> eng_log s' = eng_log s \<and> working (eng_conn s') = committed (eng_conn s)"
proof -
  have "req_approval req \<in> set (approvals (working (eng_conn s)))"
    using resolve_approval_Ok [OF assms(1)] find_valid_approval_Some(1) by blast
  then have "has_key a_id (a_id (req_approval req)) (approvals (working (eng_conn s)))"
    by (auto simp: has_key_def)
  then obtain e c1 where t: "transaction (record_order req (new_order req Mode_live)) (eng_conn s) = (Err e, c1)"
    using record_order_known_approval by blast
  then have "r = Err e" "s' = s\<lparr>eng_conn := c1\<rparr>" using assms(2) by (simp_all add: execute_def Let_def)
  then show ?thesis using transaction_Err [OF t same_store_record_order] by simp
qed

section \<open>Concrete runs\<close>

definition sample_db :: db where
  "sample_db = empty_db\<lparr>
     rule_sets := [\<lparr>rsr_sha256 = ''ab12'', rsr_approved_by = ''kyo'', rsr_approved_at = ''2026-09-17'',
       rsr_capital_usd = Money 250000, rsr_content_yaml = ''''\<rparr>],
     cycles := [\<lparr>cyc_id = ''cycle_1'', cyc_started_at = 0, cyc_finished_at = None, cyc_mode = ''paper'',
       cyc_outcome = None, cyc_error_summary = None\<rparr>]\<rparr>"

definition sample_request :: ApprovedOrderRequest where
  "sample_request = make_request entry_decision \<lparr>a_id = ''appr_1'', a_decision_id = ''dec_1'',
     a_approver = Approver_kyo, a_approved_at = 0, a_expires_at = 60000000\<rparr> Side_buy (Quantity 30)"

definition sample_engine :: "FakeBroker engine" where
  "sample_engine = \<lparr>eng_conn = open_conn sample_db (\<lambda>_. None), eng_world = fake_broker 0, eng_log = []\<rparr>"

lemmas run_defs = sample_engine_def sample_request_def sample_db_def entry_decision_def empty_db_def
  open_conn_def execute_def record_order_def record_decision_def get_decision_def find_row_def
  insert_decision_def insert_approval_def insert_order_def wrap_stmt_def run_stmt_def
  insert_decision_stmt_def insert_approval_stmt_def insert_order_stmt_def has_key_def
  transaction_def commit_def submit_def fake_ops_def fake_submit_def fake_broker_def
  update_order_status_def update_order_stmt_def change_row_def make_request_def

lemma sample_run_ok: "is_ok (fst (execute fake_ops (\<lambda>x. (5, x)) Mode_paper sample_request sample_engine))"
  by code_simp

lemma sample_run:
  "\<exists>ord s'. execute fake_ops (\<lambda>x. (5, x)) Mode_paper sample_request sample_engine = (Ok ord, s')"
  using sample_run_ok
  by (cases "execute fake_ops (\<lambda>x. (5, x)) Mode_paper sample_request sample_engine") (auto simp: is_ok_def split: result.splits)

theorem record_before_submit_witness:
  "\<exists>new. eng_log (snd (execute fake_ops (\<lambda>x. (5, x)) Mode_paper sample_request sample_engine)) = new
    \<and> length new \<le> 1
    \<and> list_all (\<lambda>(q, d). new_order sample_request Mode_paper \<in> set (orders d)) new"
proof -
  obtain ord s' where "execute fake_ops (\<lambda>x. (5, x)) Mode_paper sample_request sample_engine = (Ok ord, s')"
    using sample_run by blast
  from record_before_submit [OF this] this show ?thesis
    by (auto simp: sample_engine_def list_all_iff split: prod.splits)
qed

theorem executed_order_recorded_witness:
  "\<exists>ord. fst (execute fake_ops (\<lambda>x. (5, x)) Mode_paper sample_request sample_engine) = Ok ord
    \<and> o_status ord = OS_submitted"
proof -
  obtain ord s' where e: "execute fake_ops (\<lambda>x. (5, x)) Mode_paper sample_request sample_engine = (Ok ord, s')"
    using sample_run by blast
  from executed_order_recorded [OF this] have "o_status ord = OS_submitted" by auto
  with e show ?thesis by simp
qed

text \<open>The first statement of the transaction fails: nothing is submitted.\<close>

definition failing_engine :: "FakeBroker engine" where
  "failing_engine = sample_engine\<lparr>eng_conn := open_conn sample_db (\<lambda>i. if i = 1 then Some ''disk full'' else None)\<rparr>"

theorem unrecorded_not_submitted_witness:
  "eng_log (snd (execute fake_ops (\<lambda>x. (5, x)) Mode_paper sample_request failing_engine)) = []
    \<and> working (eng_conn (snd (execute fake_ops (\<lambda>x. (5, x)) Mode_paper sample_request failing_engine))) = sample_db"
proof -
  obtain e c1 where t: "transaction (record_order sample_request (new_order sample_request Mode_paper))
      (eng_conn failing_engine) = (Err e, c1)"
    by (simp add: failing_engine_def run_defs Let_def)
  obtain r s' where x: "execute fake_ops (\<lambda>x. (5, x)) Mode_paper sample_request failing_engine = (r, s')"
    by fastforce
  from unrecorded_not_submitted [OF t x] x show ?thesis
    by (simp add: failing_engine_def sample_engine_def open_conn_def)
qed

text \<open>The order of the sample request is already in the ledger.\<close>

definition ordered_engine :: "FakeBroker engine" where
  "ordered_engine = snd (execute fake_ops (\<lambda>x. (5, x)) Mode_paper sample_request sample_engine)"

theorem no_duplicate_submission_witness:
  "eng_log (snd (execute fake_ops (\<lambda>x. (5, x)) Mode_paper sample_request ordered_engine))
    = eng_log ordered_engine"
proof -
  have "has_key o_client_order_id (req_client_order_id sample_request) (orders (working (eng_conn ordered_engine)))"
    by code_simp
  moreover obtain r s' where x: "execute fake_ops (\<lambda>x. (5, x)) Mode_paper sample_request ordered_engine = (r, s')"
    by fastforce
  ultimately show ?thesis using no_duplicate_submission [OF _ x] by simp
qed

text \<open>A live approval that is stored, as the live mode requires.\<close>

definition approved_engine :: "FakeBroker engine" where
  "approved_engine = sample_engine\<lparr>eng_conn := open_conn (sample_db\<lparr>decisions := [entry_decision],
     approvals := [req_approval sample_request]\<rparr>) (\<lambda>_. None)\<rparr>"

theorem live_order_never_submitted_witness:
  "\<exists>req. fst (resolve_approval (\<lambda>x. (''u'', x)) (\<lambda>x. (5, x)) entry_decision Mode_live
        (eng_conn approved_engine) sample_hours (eng_world approved_engine)) = Ok req
     \<and> is_err (fst (execute fake_ops (\<lambda>x. (5, x)) Mode_live req approved_engine))"
proof -
  have "find_valid_approval (eng_conn approved_engine) ''dec_1'' 5 = Some (req_approval sample_request)"
    by (simp add: approved_engine_def find_valid_approval_def open_conn_def sample_request_def make_request_def)
  moreover have "order_side entry_decision = Ok Side_buy" "d_rule_check entry_decision = RC_passed"
    "d_id entry_decision = ''dec_1''"
    by (simp_all add: order_side_Ok entry_decision_def)
  ultimately obtain req x where req: "resolve_approval (\<lambda>x. (''u'', x)) (\<lambda>x. (5, x)) entry_decision Mode_live
      (eng_conn approved_engine) sample_hours (eng_world approved_engine) = (Ok req, x)"
    by (simp add: resolve_approval_def entry_decision_qty Let_def) (simp add: sample_request_def)
  obtain r s' where "execute fake_ops (\<lambda>x. (5, x)) Mode_live req approved_engine = (r, s')" by fastforce
  from live_order_never_submitted [OF req this] this req show ?thesis by auto
qed

end
