(* ===== verification/Holdings.thy ===== *)
theory Holdings
  imports Order_Executor Exit_Checks
begin

text \<open>
  engine/holdings.py: every held position is marked to the latest price, its high watermark is
  raised, and the exit rules are asked whether to sell. A ticker without a price is skipped and
  reported. Reading prices, the clock and random ids are operations of the outside world.
\<close>

type_synonym HoldingsError = string

record HoldingsOutcome =
  ho_positions_value :: Money
  ho_unrealized_pnl :: Money
  ho_decisions :: "Decision list"
  ho_exit_reasons :: "string \<Rightarrow> ExitReason option"
  ho_market_errors :: "string list"

definition no_holdings :: HoldingsOutcome where
  "no_holdings = \<lparr>ho_positions_value = zero_money, ho_unrealized_pnl = zero_money,
     ho_decisions = [], ho_exit_reasons = Map.empty, ho_market_errors = []\<rparr>"

definition sell_qty :: "Position \<Rightarrow> decimal \<Rightarrow> Quantity" where
  "sell_qty position fraction =
     Quantity (max 1 (dfloor (dmul (dec_of_int (shares (p_qty position))) fraction)))"

text \<open>What the evaluation of the holdings is given, beside the positions.\<close>

record 'x holdings_args =
  ha_market :: "'x MarketDataProvider"
  ha_rules :: RuleSet
  ha_clock :: "'x Clock"
  ha_uuid4 :: "'x \<Rightarrow> string \<times> 'x"
  ha_cycle_id :: string
  ha_rule_set_sha256 :: string
  ha_mode :: string

definition exit_decision :: "'x holdings_args \<Rightarrow> datetime \<Rightarrow> Position \<Rightarrow> Price \<Rightarrow> ExitSignal \<Rightarrow> string \<Rightarrow> Decision" where
  "exit_decision a now position price sig u =
    (let qty = sell_qty position (x_fraction sig) in
     \<lparr>d_id = ''dec_'' @ u, d_cycle_id = ha_cycle_id a, d_decided_at = now, d_mode = ha_mode a,
      d_ticker = p_ticker position, d_action = Action_sell, d_origin = Origin_rule_exit,
      d_confidence = None,
      d_rationale = exit_reason_value (x_reason sig) @ '' triggered at ''
        @ dstr (price_amount (x_trigger_price sig)) @ '' (sell '' @ show_int (shares qty) @ '' of ''
        @ show_int (shares (p_qty position)) @ '' shares)'',
      d_evidence_mention_ids = [], d_llm_model = None, d_prompt_sha256 = None,
      d_response_sha256 = None, d_rule_set_sha256 = ha_rule_set_sha256 a, d_rule_check = RC_passed,
      d_rule_check_reason = ''rule exit: '' @ exit_reason_value (x_reason sig) @ '' at ''
        @ dstr (price_amount (x_trigger_price sig)),
      d_proposed_notional = Some (mk_Money (price_times price (shares qty))),
      d_reference_price = Some price\<rparr>)"

definition raise_watermark :: "Price \<Rightarrow> Position \<Rightarrow> Position" where
  "raise_watermark price position = position\<lparr>p_high_watermark :=
     (if dlt (price_amount (p_high_watermark position)) (price_amount price) then price
      else p_high_watermark position)\<rparr>"

definition mark_value :: "Price \<Rightarrow> Position \<Rightarrow> HoldingsOutcome \<Rightarrow> HoldingsOutcome" where
  "mark_value price position h =
     h\<lparr>ho_positions_value := money_add (ho_positions_value h)
         (mk_Money (price_times price (shares (p_qty position)))),
       ho_unrealized_pnl := money_add (ho_unrealized_pnl h)
         (mk_Money (dmul (dsub (price_amount price) (price_amount (p_avg_cost position)))
           (dec_of_int (shares (p_qty position)))))\<rparr>"

definition add_exit :: "Decision \<Rightarrow> ExitReason \<Rightarrow> HoldingsOutcome \<Rightarrow> HoldingsOutcome" where
  "add_exit d reason h = h\<lparr>ho_decisions := ho_decisions h @ [d],
     ho_exit_reasons := (ho_exit_reasons h)(d_id d \<mapsto> reason)\<rparr>"

text \<open>One iteration of the loop over the positions.\<close>

definition evaluate_holding :: "'x holdings_args \<Rightarrow> datetime \<Rightarrow> Position \<Rightarrow> HoldingsOutcome \<Rightarrow> 'x engine
    \<Rightarrow> (HoldingsOutcome, HoldingsError) result \<times> 'x engine" where
  "evaluate_holding a now position h s =
    (case latest_price (ha_market a) (p_ticker position) (eng_world s) of
       (Err e, x1) \<Rightarrow>
         (Ok (h\<lparr>ho_market_errors := ho_market_errors h @ [p_ticker position]\<rparr>), s\<lparr>eng_world := x1\<rparr>)
     | (Ok price, x1) \<Rightarrow>
       let h1 = mark_value price position h; updated = raise_watermark price position in
       (case upsert_position (eng_conn s) updated of
          (Err e, c1) \<Rightarrow> (Err e, s\<lparr>eng_world := x1, eng_conn := c1\<rparr>)
        | (Ok _, c1) \<Rightarrow>
          (case check_exit updated price (ha_rules a) now of
             None \<Rightarrow> (Ok h1, s\<lparr>eng_world := x1, eng_conn := c1\<rparr>)
           | Some sig \<Rightarrow>
             let (u, x2) = ha_uuid4 a x1; decision = exit_decision a now updated price sig u in
             (case insert_decision c1 decision of
                (Err e, c2) \<Rightarrow> (Err e, s\<lparr>eng_world := x2, eng_conn := c2\<rparr>)
              | (Ok _, c2) \<Rightarrow> (Ok (add_exit decision (x_reason sig) h1),
                  s\<lparr>eng_world := x2, eng_conn := c2\<rparr>)))))"

fun holdings_loop :: "'x holdings_args \<Rightarrow> datetime \<Rightarrow> Position list \<Rightarrow> HoldingsOutcome \<Rightarrow> 'x engine
    \<Rightarrow> (HoldingsOutcome, HoldingsError) result \<times> 'x engine" where
  "holdings_loop a now [] h s = (Ok h, s)"
| "holdings_loop a now (p # ps) h s = (case evaluate_holding a now p h s of
     (Err e, s') \<Rightarrow> (Err e, s')
   | (Ok h', s') \<Rightarrow> holdings_loop a now ps h' s')"

definition evaluate_holdings :: "'x holdings_args \<Rightarrow> Position list \<Rightarrow> 'x engine
    \<Rightarrow> (HoldingsOutcome, HoldingsError) result \<times> 'x engine" where
  "evaluate_holdings a ps s = (case ha_clock a (eng_world s) of
     (now, x1) \<Rightarrow> holdings_loop a now ps no_holdings (s\<lparr>eng_world := x1\<rparr>))"

section \<open>One position\<close>

lemma raise_watermark_simps [simp]:
  "p_ticker (raise_watermark price p) = p_ticker p" "p_qty (raise_watermark price p) = p_qty p"
  "p_avg_cost (raise_watermark price p) = p_avg_cost p" "p_opened_at (raise_watermark price p) = p_opened_at p"
  "p_partial_tp_done (raise_watermark price p) = p_partial_tp_done p"
  "p_high_watermark (raise_watermark price p) = max (p_high_watermark p) price"
  by (auto simp: raise_watermark_def dlt_price_amount max_def)

lemma exit_decision_simps [simp]:
  "d_ticker (exit_decision a now p price sig u) = p_ticker p"
  "d_action (exit_decision a now p price sig u) = Action_sell"
  "d_origin (exit_decision a now p price sig u) = Origin_rule_exit"
  "d_rule_check (exit_decision a now p price sig u) = RC_passed"
  "d_id (exit_decision a now p price sig u) = ''dec_'' @ u"
  "d_cycle_id (exit_decision a now p price sig u) = ha_cycle_id a"
  "d_proposed_notional (exit_decision a now p price sig u)
    = Some (mk_Money (price_times price (shares (sell_qty p (x_fraction sig)))))"
  "d_reference_price (exit_decision a now p price sig u) = Some price"
  by (simp_all add: exit_decision_def Let_def)

lemma sell_qty_watermark [simp]: "sell_qty (raise_watermark price p) f = sell_qty p f"
  by (simp add: sell_qty_def)

text \<open>The fraction of a rule set's signal sells at least one share and no more than are held.\<close>

lemma sell_qty_bounds:
  assumes "0 < shares (p_qty p)" "0 < dval f" "dval f \<le> 1" "nat (shares (p_qty p)) * dcoef f < 10 ^ 28"
  shows "1 \<le> shares (sell_qty p f) \<and> shares (sell_qty p f) \<le> shares (p_qty p)"
proof -
  let ?n = "shares (p_qty p)"
  have "dcoef (dec_of_int ?n) = nat ?n" using assms(1) by (simp add: dec_of_int_def)
  then have "dval (dmul (dec_of_int ?n) f) = of_int ?n * dval f"
    using assms(4) by (simp add: dval_dmul)
  moreover have "of_int ?n * dval f \<le> of_int ?n" using assms(1,3) mult_left_mono [of "dval f" 1 "of_int ?n"] by simp
  ultimately have "dfloor (dmul (dec_of_int ?n) f) \<le> ?n" by (simp add: dfloor_floor floor_le_iff)
  then show ?thesis using assms(1) by (simp add: sell_qty_def)
qed

text \<open>The ways the evaluation of one position can go.\<close>

lemma evaluate_holding_cases:
  assumes "evaluate_holding a now p h s = (r, s')"
  obtains (unpriced) e x1 where "latest_price (ha_market a) (p_ticker p) (eng_world s) = (Err e, x1)"
      "r = Ok (h\<lparr>ho_market_errors := ho_market_errors h @ [p_ticker p]\<rparr>)" "s' = s\<lparr>eng_world := x1\<rparr>"
  | (not_marked) price x1 e c1 where "latest_price (ha_market a) (p_ticker p) (eng_world s) = (Ok price, x1)"
      "upsert_position (eng_conn s) (raise_watermark price p) = (Err e, c1)"
      "r = Err e" "s' = s\<lparr>eng_world := x1, eng_conn := c1\<rparr>"
  | (kept) price x1 c1 where "latest_price (ha_market a) (p_ticker p) (eng_world s) = (Ok price, x1)"
      "upsert_position (eng_conn s) (raise_watermark price p) = (Ok (raise_watermark price p), c1)"
      "check_exit (raise_watermark price p) price (ha_rules a) now = None"
      "r = Ok (mark_value price p h)" "s' = s\<lparr>eng_world := x1, eng_conn := c1\<rparr>"
  | (sold) price x1 c1 sig u x2 dr c2 where "latest_price (ha_market a) (p_ticker p) (eng_world s) = (Ok price, x1)"
      "upsert_position (eng_conn s) (raise_watermark price p) = (Ok (raise_watermark price p), c1)"
      "check_exit (raise_watermark price p) price (ha_rules a) now = Some sig" "ha_uuid4 a x1 = (u, x2)"
      "insert_decision c1 (exit_decision a now (raise_watermark price p) price sig u) = (dr, c2)"
      "s' = s\<lparr>eng_world := x2, eng_conn := c2\<rparr>"
      "r = (case dr of Err e \<Rightarrow> Err e | Ok _ \<Rightarrow>
         Ok (add_exit (exit_decision a now (raise_watermark price p) price sig u) (x_reason sig) (mark_value price p h)))"
proof -
  obtain pr x1 where pr: "latest_price (ha_market a) (p_ticker p) (eng_world s) = (pr, x1)" by fastforce
  show thesis
  proof (cases pr)
    case (Err e)
    then show thesis using assms pr unpriced by (simp add: evaluate_holding_def)
  next
    case price: (Ok price)
    obtain ur c1 where up: "upsert_position (eng_conn s) (raise_watermark price p) = (ur, c1)" by fastforce
    show thesis
    proof (cases ur)
      case (Err e)
      then show thesis using assms pr price up not_marked by (simp add: evaluate_holding_def Let_def)
    next
      case (Ok v)
      then have v: "v = raise_watermark price p" using up by (simp add: upsert_position_Ok)
      show thesis
      proof (cases "check_exit (raise_watermark price p) price (ha_rules a) now")
        case None
        then show thesis using assms pr price up Ok v kept by (simp add: evaluate_holding_def Let_def)
      next
        case (Some sig)
        obtain u x2 where u: "ha_uuid4 a x1 = (u, x2)" by fastforce
        obtain dr c2 where dr: "insert_decision c1 (exit_decision a now (raise_watermark price p) price sig u) = (dr, c2)"
          by fastforce
        have "(r, s') = (case dr of Err e \<Rightarrow> (Err e, s\<lparr>eng_world := x2, eng_conn := c2\<rparr>)
          | Ok _ \<Rightarrow> (Ok (add_exit (exit_decision a now (raise_watermark price p) price sig u) (x_reason sig)
              (mark_value price p h)), s\<lparr>eng_world := x2, eng_conn := c2\<rparr>))"
          unfolding assms [symmetric]
          by (simp add: evaluate_holding_def Let_def pr price up Ok Some u dr split: result.split)
        then show thesis using sold pr price up Ok v Some u dr by (cases dr) simp_all
      qed
    qed
  qed
qed

section \<open>What evaluating holdings leaves alone\<close>

definition same_books :: "db \<Rightarrow> db \<Rightarrow> bool" where
  "same_books d d' \<longleftrightarrow> orders d' = orders d \<and> approvals d' = approvals d \<and> fills d' = fills d
     \<and> trades d' = trades d \<and> cycles d' = cycles d \<and> rule_sets d' = rule_sets d
     \<and> engine_state d' = engine_state d \<and> equity_snapshots d' = equity_snapshots d
     \<and> mentions d' = mentions d \<and> sources d' = sources d
     \<and> set (decisions d) \<subseteq> set (decisions d')"

lemma same_books_refl [simp, intro]: "same_books d d"
  by (simp add: same_books_def)

lemma same_books_trans [trans]: "same_books a b \<Longrightarrow> same_books b c \<Longrightarrow> same_books a c"
  by (auto simp: same_books_def)

text \<open>Evaluating touches positions and decisions, commits nothing and submits nothing.\<close>

definition quiet_step :: "'x engine \<Rightarrow> 'x engine \<Rightarrow> bool" where
  "quiet_step s s' \<longleftrightarrow> eng_log s' = eng_log s \<and> same_store (eng_conn s) (eng_conn s')
     \<and> same_books (working (eng_conn s)) (working (eng_conn s'))
     \<and> (schema_ok (working (eng_conn s)) \<longrightarrow> schema_ok (working (eng_conn s')))"

lemma quiet_step_refl [simp, intro]: "quiet_step s s"
  by (simp add: quiet_step_def)

lemma quiet_step_world [simp]: "quiet_step s (s\<lparr>eng_world := x\<rparr>)"
  by (simp add: quiet_step_def)

lemma quiet_step_trans [trans]: "quiet_step a b \<Longrightarrow> quiet_step b c \<Longrightarrow> quiet_step a c"
  by (auto simp: quiet_step_def intro: same_store_trans same_books_trans)

lemma quiet_step_conn:
  assumes "same_store (eng_conn s) c" "same_books (working (eng_conn s)) (working c)"
    and "schema_ok (working (eng_conn s)) \<Longrightarrow> schema_ok (working c)"
  shows "quiet_step s (s\<lparr>eng_world := x, eng_conn := c\<rparr>)"
  using assms by (simp add: quiet_step_def)

lemma same_books_put_position: "same_books d (put_position p d)"
  by (simp add: same_books_def put_position_def)

lemma upsert_position_effect:
  assumes "upsert_position c p = (r, c')"
  shows "same_books (working c) (working c') \<and> (schema_ok (working c) \<longrightarrow> schema_ok (working c'))"
  using assms
  by (auto simp: upsert_position_def wrap_stmt_def run_stmt_def Let_def same_books_put_position
      schema_put_position split: option.splits prod.splits result.splits)

lemma insert_decision_effect:
  assumes "insert_decision c d = (r, c')"
  shows "same_books (working c) (working c') \<and> positions (working c') = positions (working c)
    \<and> (schema_ok (working c) \<longrightarrow> schema_ok (working c'))"
proof (cases r)
  case (Ok v)
  then have w: "working c' = (working c)\<lparr>decisions := decisions (working c) @ [d]\<rparr>"
    and "insert_decision_stmt d (working c) = Ok (working c', ())"
    using assms by (auto simp: insert_decision_Ok insert_decision_stmt_def)
  then show ?thesis using schema_insert_decision [of d "working c" "working c'" "()"]
    by (simp add: w same_books_def subset_insertI)
next
  case (Err e)
  then have "working c' = working c"
    using assms by (auto simp: insert_decision_def wrap_stmt_Err run_stmt_Err)
  then show ?thesis by simp
qed

lemma quiet_evaluate_holding:
  assumes "evaluate_holding a now p h s = (r, s')"
  shows "quiet_step s s'"
  using assms
proof (cases rule: evaluate_holding_cases)
  case (not_marked price x1 e c1)
  then show ?thesis using upsert_position_effect [OF not_marked(2)]
    by (auto intro!: quiet_step_conn same_store_upsert_position)
next
  case (kept price x1 c1)
  then show ?thesis using upsert_position_effect [OF kept(2)]
    by (auto intro!: quiet_step_conn same_store_upsert_position)
next
  case (sold price x1 c1 sig u x2 dr c2)
  note effects = upsert_position_effect [OF sold(2)] insert_decision_effect [OF sold(5)]
  have "same_store (eng_conn s) c2"
    using same_store_upsert_position [OF sold(2)] same_store_insert_decision [OF sold(5)]
    by (rule same_store_trans)
  then show ?thesis unfolding sold(6)
    using effects by (intro quiet_step_conn) (auto intro: same_books_trans)
qed simp

lemma quiet_holdings_loop:
  "holdings_loop a now ps h s = (r, s') \<Longrightarrow> quiet_step s s'"
proof (induction ps arbitrary: h s)
  case (Cons p ps)
  obtain r1 s1 where 1: "evaluate_holding a now p h s = (r1, s1)" by fastforce
  note q = quiet_evaluate_holding [OF 1]
  show ?case
  proof (cases r1)
    case (Ok h1)
    then have "quiet_step s1 s'" using Cons 1 by simp
    with q show ?thesis by (rule quiet_step_trans)
  next
    case (Err e)
    then show ?thesis using Cons.prems 1 q by simp
  qed
qed simp

lemma quiet_evaluate_holdings [frame]:
  assumes "evaluate_holdings a ps s = (r, s')" shows "quiet_step s s'"
proof -
  obtain now x1 where "ha_clock a (eng_world s) = (now, x1)" by fastforce
  then have "holdings_loop a now ps no_holdings (s\<lparr>eng_world := x1\<rparr>) = (r, s')"
    using assms by (simp add: evaluate_holdings_def)
  then show ?thesis by (rule quiet_step_trans [OF quiet_step_world quiet_holdings_loop])
qed

section \<open>Positions are only marked\<close>

definition position_marked :: "Position \<Rightarrow> Position \<Rightarrow> bool" where
  "position_marked p p' \<longleftrightarrow> p_high_watermark p \<le> p_high_watermark p'
     \<and> p_ticker p' = p_ticker p \<and> p_qty p' = p_qty p \<and> p_avg_cost p' = p_avg_cost p
     \<and> p_opened_at p' = p_opened_at p \<and> p_partial_tp_done p' = p_partial_tp_done p"

lemma position_marked_refl [simp]: "position_marked p p"
  by (simp add: position_marked_def)

lemma position_marked_raise: "position_marked p (raise_watermark price p)"
  by (simp add: position_marked_def)

lemma evaluate_holding_positions:
  assumes "evaluate_holding a now p h s = (r, s')"
    and "position_of (p_ticker p) (working (eng_conn s)) = Some p"
  shows "rel_option position_marked (position_of t (working (eng_conn s))) (position_of t (working (eng_conn s')))
    \<and> (t \<noteq> p_ticker p \<longrightarrow> position_of t (working (eng_conn s')) = position_of t (working (eng_conn s)))"
proof -
  have refl: "rel_option position_marked x x" for x by (rule option.rel_refl) simp
  have put: "rel_option position_marked (position_of t (working (eng_conn s)))
      (position_of t (put_position (raise_watermark price p) (working (eng_conn s))))
    \<and> (t \<noteq> p_ticker p \<longrightarrow> position_of t (put_position (raise_watermark price p) (working (eng_conn s)))
         = position_of t (working (eng_conn s)))" for price
    using assms(2) by (auto simp: position_store.get_put refl position_marked_raise)
  from assms(1) show ?thesis
  proof (cases rule: evaluate_holding_cases)
    case (not_marked price x1 e c1)
    then have "working c1 = working (eng_conn s)"
      by (auto simp: upsert_position_def wrap_stmt_Err run_stmt_Err)
    then show ?thesis using not_marked refl by simp
  next
    case (kept price x1 c1)
    then show ?thesis using put by (simp add: upsert_position_Ok)
  next
    case (sold price x1 c1 sig u x2 dr c2)
    have "positions (working c2) = positions (put_position (raise_watermark price p) (working (eng_conn s)))"
      using insert_decision_effect [OF sold(5)] sold(2) by (simp add: upsert_position_Ok)
    then show ?thesis using sold(6) put by (simp add: position_of_def)
  qed (simp add: refl)
qed

lemma position_marked_trans: "position_marked p q \<Longrightarrow> position_marked q r \<Longrightarrow> position_marked p r"
  by (auto simp: position_marked_def)

lemma holdings_loop_positions:
  assumes "holdings_loop a now ps h s = (r, s')" "distinct (map p_ticker ps)"
    and "\<And>p. p \<in> set ps \<Longrightarrow> position_of (p_ticker p) (working (eng_conn s)) = Some p"
  shows "rel_option position_marked (position_of t (working (eng_conn s))) (position_of t (working (eng_conn s')))"
  using assms
proof (induction ps arbitrary: h s)
  case Nil
  then show ?case by (auto intro: option.rel_refl)
next
  case (Cons p ps)
  obtain r1 s1 where 1: "evaluate_holding a now p h s = (r1, s1)" by fastforce
  note m = evaluate_holding_positions [OF 1 Cons.prems(3) [OF list.set_intros(1)]]
  show ?case
  proof (cases r1)
    case (Ok h1)
    have "position_of (p_ticker q) (working (eng_conn s1)) = Some q" if "q \<in> set ps" for q
    proof -
      have "p_ticker q \<in> p_ticker ` set ps" using that by (rule imageI)
      then have "p_ticker q \<noteq> p_ticker p" using Cons.prems(2) by auto
      then show ?thesis using m [of "p_ticker q"] Cons.prems(3) [of q] that by simp
    qed
    then have "rel_option position_marked (position_of t (working (eng_conn s1))) (position_of t (working (eng_conn s')))"
      using Cons.IH Cons.prems Ok 1 by simp
    moreover have "rel_option position_marked (position_of t (working (eng_conn s))) (position_of t (working (eng_conn s1)))"
      using m [of t] by simp
    ultimately show ?thesis
      by (cases "position_of t (working (eng_conn s1))"; cases "position_of t (working (eng_conn s))";
          cases "position_of t (working (eng_conn s'))") (simp_all, erule (1) position_marked_trans)
  next
    case (Err e)
    then show ?thesis using Cons.prems 1 m by simp
  qed
qed

section \<open>Properties\<close>

text \<open>
  C25: evaluating the holdings never loses a position nor changes what is held: every stored position
  keeps its shares, cost and dates, and its high watermark never goes down, whatever prices are
  read, whatever statement fails.
\<close>

theorem watermark_never_falls:
  assumes "schema_ok (working (eng_conn s))"
    and "evaluate_holdings a (list_positions (eng_conn s)) s = (r, s')"
  shows "rel_option position_marked (position_of t (working (eng_conn s))) (position_of t (working (eng_conn s')))"
proof -
  obtain now x1 where ck: "ha_clock a (eng_world s) = (now, x1)" by fastforce
  have "distinct (map p_ticker (list_positions (eng_conn s)))"
    unfolding list_positions_def using assms(1) by (intro distinct_map_sort_key) (simp add: schema_ok_def)
  moreover have "position_of (p_ticker p) (working (eng_conn s)) = Some p"
    if "p \<in> set (list_positions (eng_conn s))" for p
    using position_unique [OF assms(1)] that by (simp add: list_positions_def get_position_def)
  moreover have "holdings_loop a now (list_positions (eng_conn s)) no_holdings (s\<lparr>eng_world := x1\<rparr>) = (r, s')"
    using assms(2) by (simp add: evaluate_holdings_def ck)
  ultimately show ?thesis
    using holdings_loop_positions [of a now "list_positions (eng_conn s)" no_holdings "s\<lparr>eng_world := x1\<rparr>" r s' t]
    by simp
qed

text \<open>Where the decisions of an evaluation come from.\<close>

definition exit_of :: "'x holdings_args \<Rightarrow> datetime \<Rightarrow> Position list \<Rightarrow> Decision \<Rightarrow> bool" where
  "exit_of a now ps d \<longleftrightarrow> (\<exists>p \<in> set ps. \<exists>price sig u.
     check_exit (raise_watermark price p) price (ha_rules a) now = Some sig
     \<and> d = exit_decision a now (raise_watermark price p) price sig u)"

lemma evaluate_holding_decisions:
  assumes "evaluate_holding a now p h s = (Ok h', s')"
  shows "ho_decisions h' = ho_decisions h \<or> (\<exists>d. ho_decisions h' = ho_decisions h @ [d]
    \<and> exit_of a now [p] d \<and> d \<in> set (decisions (working (eng_conn s'))) \<and> ho_exit_reasons h' (d_id d) \<noteq> None)"
  using assms
proof (cases rule: evaluate_holding_cases)
  case (sold price x1 c1 sig u x2 dr c2)
  let ?d = "exit_decision a now (raise_watermark price p) price sig u"
  obtain v where dr: "dr = Ok v" using sold(7) by (cases dr) simp_all
  then have "?d \<in> set (decisions (working c2))" using sold(5) by (auto simp: insert_decision_Ok)
  moreover have "exit_of a now [p] ?d" using sold(3) by (auto simp: exit_of_def)
  ultimately show ?thesis using sold(6,7) dr by (simp add: add_exit_def mark_value_def)
qed (simp_all add: mark_value_def)

lemma holdings_loop_decisions:
  "holdings_loop a now ps h s = (Ok h', s') \<Longrightarrow>
    set (ho_decisions h) \<subseteq> set (ho_decisions h')
    \<and> (\<forall>d \<in> set (ho_decisions h'). d \<in> set (ho_decisions h)
      \<or> exit_of a now ps d \<and> d \<in> set (decisions (working (eng_conn s'))))"
proof (induction ps arbitrary: h s)
  case (Cons p ps)
  obtain h1 s1 where 1: "evaluate_holding a now p h s = (Ok h1, s1)"
    and rest: "holdings_loop a now ps h1 s1 = (Ok h', s')"
    using Cons.prems by (auto split: prod.splits result.splits)
  have "set (decisions (working (eng_conn s1))) \<subseteq> set (decisions (working (eng_conn s')))"
    using quiet_holdings_loop [OF rest] by (simp add: quiet_step_def same_books_def)
  moreover have "exit_of a now [p] d \<Longrightarrow> exit_of a now (p # ps) d"
    "exit_of a now ps d \<Longrightarrow> exit_of a now (p # ps) d" for d
    by (auto simp: exit_of_def)
  ultimately show ?case using evaluate_holding_decisions [OF 1] Cons.IH [OF rest] by fastforce
qed simp

lemma evaluate_holdings_decisions [outcome]:
  assumes "evaluate_holdings a ps s = (Ok h, s')" "d \<in> set (ho_decisions h)"
  shows "exit_of a (fst (ha_clock a (eng_world s))) ps d \<and> d \<in> set (decisions (working (eng_conn s')))"
proof -
  obtain now x1 where ck: "ha_clock a (eng_world s) = (now, x1)" by fastforce
  then have "holdings_loop a now ps no_holdings (s\<lparr>eng_world := x1\<rparr>) = (Ok h, s')"
    using assms(1) by (simp add: evaluate_holdings_def)
  from holdings_loop_decisions [OF this] assms(2) show ?thesis by (auto simp: no_holdings_def ck)
qed


text \<open>A position bought at 12.34 is held while the price falls to 10.00, below its stop.\<close>

definition holding_args :: "FakeMarketData holdings_args" where
  "holding_args = \<lparr>ha_market = fake_market, ha_rules = shipped_rules, ha_clock = (\<lambda>x. (0, x)),
     ha_uuid4 = (\<lambda>x. (''cd34'', x)), ha_cycle_id = ''cycle_1'', ha_rule_set_sha256 = ''ab12'',
     ha_mode = ''paper''\<rparr>"

definition holding_engine :: "FakeMarketData engine" where
  "holding_engine = \<lparr>eng_conn = open_conn (sample_db\<lparr>positions := [sample_position]\<rparr>) (\<lambda>_. None),
     eng_world = \<lparr>fm_prices = [p_ticker sample_position \<mapsto> Price 100000], fm_bars = Map.empty,
       fm_clock = sample_hours, fm_errors = []\<rparr>, eng_log = []\<rparr>"

lemma sample_exit:
  "check_exit (raise_watermark (Price 100000) sample_position) (Price 100000) shipped_rules 0
    = Some (exit_signal (raise_watermark (Price 100000) sample_position) ER_stop_loss (dec_of_int 1) (Price 100000))"
proof -
  have "stop_loss_price shipped_rules (raise_watermark (Price 100000) sample_position) = Price 104890"
    using sample_stop by (simp add: stop_loss_price_def)
  then show ?thesis by (simp add: check_exit_def price_le_ticks)
qed

lemma sample_holdings:
  "\<exists>h s'. evaluate_holdings holding_args (list_positions (eng_conn holding_engine)) holding_engine = (Ok h, s')
    \<and> ho_decisions h = [exit_decision holding_args 0 (raise_watermark (Price 100000) sample_position) (Price 100000)
        (exit_signal (raise_watermark (Price 100000) sample_position) ER_stop_loss (dec_of_int 1) (Price 100000)) ''cd34'']"
proof -
  let ?p = "raise_watermark (Price 100000) sample_position"
  let ?d = "exit_decision holding_args 0 ?p (Price 100000)
        (exit_signal ?p ER_stop_loss (dec_of_int 1) (Price 100000)) ''cd34''"
  have ps: "list_positions (eng_conn holding_engine) = [sample_position]"
    by (simp add: list_positions_def holding_engine_def open_conn_def)
  obtain c1 where up: "upsert_position (eng_conn holding_engine) ?p = (Ok ?p, c1)"
    by (simp add: upsert_position_Ok holding_engine_def open_conn_def)
  have "faults c1 = (\<lambda>_. None)" "decisions (working c1) = []"
    "has_key cyc_id ''cycle_1'' (cycles (working c1))" "has_key rsr_sha256 ''ab12'' (rule_sets (working c1))"
    using up by (auto simp: upsert_position_Ok holding_engine_def open_conn_def sample_db_def empty_db_def has_key_def)
  moreover have "d_cycle_id ?d = ''cycle_1''" "d_rule_set_sha256 ?d = ''ab12''"
    by (simp_all add: exit_decision_def holding_args_def Let_def)
  ultimately obtain c2 where ins: "insert_decision c1 ?d = (Ok ?d, c2)"
    by (simp add: insert_decision_Ok has_key_def)
  have "latest_price (ha_market holding_args) (p_ticker sample_position) (eng_world holding_engine)
      = (Ok (Price 100000), eng_world holding_engine)"
    by (simp add: holding_args_def fake_market_def fake_latest_price_def holding_engine_def)
  moreover have "ha_uuid4 holding_args x = (''cd34'', x)" "ha_clock holding_args x = (0, x)"
    "ha_rules holding_args = shipped_rules" for x by (simp_all add: holding_args_def)
  ultimately show ?thesis
    using up ins sample_exit
    by (simp add: ps evaluate_holdings_def evaluate_holding_def Let_def add_exit_def mark_value_def no_holdings_def)
qed


theorem watermark_never_falls_witness:
  "\<exists>r s'. evaluate_holdings holding_args (list_positions (eng_conn holding_engine)) holding_engine = (r, s')
    \<and> rel_option position_marked (Some sample_position) (position_of ''AXTI'' (working (eng_conn s')))"
proof -
  obtain r s' where run: "evaluate_holdings holding_args (list_positions (eng_conn holding_engine)) holding_engine = (r, s')"
    by fastforce
  have "schema_ok (working (eng_conn holding_engine))"
    by (simp add: holding_engine_def open_conn_def sample_db_def empty_db_def schema_ok_def)
  from watermark_never_falls [OF this run, of "''AXTI''"] run show ?thesis
    by (auto simp: holding_engine_def open_conn_def position_of_def find_row_def sample_position_def)
qed

end
