(* ===== verification/Py_Text.thy ===== *)
theory Py_Text
  imports Rules_Lock
begin

text \<open>
  Python's \<open>str\<close> on UTF-8 text: its code points and their number, slicing by code points, stripping
  of white space, and the first word of a line. Texts are taken to be valid UTF-8.
\<close>

section \<open>UTF-8\<close>

definition utf8_bytes :: "nat \<Rightarrow> string" where
  "utf8_bytes n = map char_of
    (if n < 128 then [n]
     else if n < 2048 then [192 + n div 64, 128 + n mod 64]
     else if n < 65536 then [224 + n div 4096, 128 + n div 64 mod 64, 128 + n mod 64]
     else [240 + n div 262144, 128 + n div 4096 mod 64, 128 + n div 64 mod 64, 128 + n mod 64])"

definition byte :: "char \<Rightarrow> nat" where
  "byte c = of_char c"

text \<open>The code points of valid UTF-8.\<close>

definition lead_length :: "char \<Rightarrow> nat" where
  "lead_length c = (if byte c < 192 then 1 else if byte c < 224 then 2 else if byte c < 240 then 3 else 4)"

definition lead_bits :: "char \<Rightarrow> nat" where
  "lead_bits c = (if byte c < 192 then byte c else if byte c < 224 then byte c - 192
     else if byte c < 240 then byte c - 224 else byte c - 240)"

function code_points :: "string \<Rightarrow> nat list" where
  "code_points [] = []"
| "code_points (c # cs) = foldl (\<lambda>acc d. acc * 64 + byte d mod 64) (lead_bits c) (take (lead_length c - 1) cs)
     # code_points (drop (lead_length c - 1) cs)"
  by pat_completeness auto
termination by (relation "measure length") auto

text \<open>Python's \<open>len\<close> of a text.\<close>

definition text_length :: "string \<Rightarrow> nat" where
  "text_length s = length (code_points s)"

text \<open>Every code point with its bytes, and \<open>text[:n]\<close>.\<close>

function utf8_chars :: "string \<Rightarrow> string list" where
  "utf8_chars [] = []"
| "utf8_chars (c # cs) = (c # take (lead_length c - 1) cs) # utf8_chars (drop (lead_length c - 1) cs)"
  by pat_completeness auto
termination by (relation "measure length") auto

definition take_text :: "nat \<Rightarrow> string \<Rightarrow> string" where
  "take_text n s = concat (take n (utf8_chars s))"

lemma concat_utf8_chars [simp]: "concat (utf8_chars s) = s"
  by (induction s rule: utf8_chars.induct) simp_all

lemma length_utf8_chars: "length (utf8_chars s) = text_length s"
  unfolding text_length_def by (induction s rule: utf8_chars.induct) simp_all

lemma take_text_all: "text_length s \<le> n \<Longrightarrow> take_text n s = s"
  by (simp add: take_text_def length_utf8_chars)

lemma take_text_prefix: "\<exists>r. s = take_text n s @ r"
  by (metis append_take_drop_id concat_append concat_utf8_chars take_text_def)

section \<open>White space\<close>

text \<open>The characters \<open>str.isspace\<close> accepts.\<close>

definition space_points :: "nat list" where
  "space_points = [9, 10, 11, 12, 13, 28, 29, 30, 31, 32, 0x85, 0xA0, 0x1680] @ [0x2000..<0x200B]
     @ [0x2028, 0x2029, 0x202F, 0x205F, 0x3000]"

definition space_words :: "string list" where
  "space_words = map utf8_bytes space_points"

lemma space_words_nonempty: "w \<in> set space_words \<Longrightarrow> w \<noteq> []"
  by (auto simp: space_words_def utf8_bytes_def split: if_splits)

definition starts_with_any :: "string list \<Rightarrow> string \<Rightarrow> string option" where
  "starts_with_any ws s = find (\<lambda>w. w \<noteq> [] \<and> take (length w) s = w) ws"

function drop_words :: "string list \<Rightarrow> string \<Rightarrow> string" where
  "drop_words ws s = (case starts_with_any ws s of None \<Rightarrow> s | Some w \<Rightarrow> drop_words ws (drop (length w) s))"
  by pat_completeness auto
termination
proof (relation "measure (\<lambda>(ws, s). length s)")
  fix ws s w
  assume "starts_with_any ws s = Some w"
  then have w: "w \<noteq> []" "take (length w) s = w"
    by (auto simp: starts_with_any_def dest: find_Some_mem)
  then have "s \<noteq> []" by auto
  then show "((ws, drop (length w) s), (ws, s)) \<in> measure (\<lambda>(ws, s). length s)" using w(1) by simp
qed simp

declare drop_words.simps [simp del]

definition strip_text :: "string \<Rightarrow> string" where
  "strip_text s = rev (drop_words (map rev space_words) (rev (drop_words space_words s)))"

text \<open>\<open>s.split()[0]\<close> of a text that starts with no white space.\<close>

function first_word :: "string \<Rightarrow> string" where
  "first_word [] = []"
| "first_word (c # cs) = (if starts_with_any space_words (c # cs) = None then c # first_word cs else [])"
  by pat_completeness auto
termination by (relation "measure length") auto

lemma drop_words_none [simp]: "starts_with_any ws (drop_words ws s) = None"
proof (induction ws s rule: drop_words.induct)
  case (1 ws s)
  show ?case
  proof (cases "starts_with_any ws s")
    case None
    then have "drop_words ws s = s" by (subst drop_words.simps) simp
    then show ?thesis using None by simp
  next
    case (Some w)
    then have "drop_words ws s = drop_words ws (drop (length w) s)" by (subst drop_words.simps) simp
    then show ?thesis using 1 Some by simp
  qed
qed

text \<open>The character of a code unit is the unit.\<close>

lemma char_of_byte [simp]: "char_of (byte c) = c"
  by (simp add: byte_def)

lemma byte_eq_iff: "byte c = byte d \<longleftrightarrow> c = d"
  by (simp add: byte_def)

section \<open>Plain text\<close>

lemma utf8_bytes_chars:
  assumes "n < 1114112" "c \<in> set (utf8_bytes n)" shows "(byte c = n \<and> n < 128) \<or> 128 \<le> byte c"
proof -
  have "n div 64 < 32" if "n < 2048" using that by simp
  moreover have "n div 4096 < 16" if "n < 65536" using that by simp
  moreover have "n div 262144 < 8" using assms(1) by simp
  moreover have "n mod 64 < 64" "n div 64 mod 64 < 64" "n div 4096 mod 64 < 64" by simp_all
  ultimately show ?thesis using assms(2) by (auto simp: utf8_bytes_def byte_def split: if_splits)
qed

lemma space_word_chars: "w \<in> set space_words \<Longrightarrow> c \<in> set w \<Longrightarrow> byte c < 33 \<or> 128 \<le> byte c"
proof -
  assume "w \<in> set space_words" and c: "c \<in> set w"
  then obtain n where n: "n \<in> set space_points" "w = utf8_bytes n" by (auto simp: space_words_def)
  then have "n < 1114112" "n < 33 \<or> 128 \<le> n" by (auto simp: space_points_def)
  then show ?thesis using utf8_bytes_chars [of n c] c n(2) by auto
qed

text \<open>Text that begins and ends with a visible ASCII character is not stripped.\<close>

definition visible :: "char \<Rightarrow> bool" where
  "visible c = (33 \<le> byte c \<and> byte c < 128)"

lemma no_start:
  assumes "visible c" "\<And>w d. w \<in> set ws \<Longrightarrow> d \<in> set w \<Longrightarrow> \<not> visible d" shows "starts_with_any ws (c # s) = None"
proof -
  have "\<not> (w \<noteq> [] \<and> take (length w) (c # s) = w)" if "w \<in> set ws" for w
    using assms(1) assms(2) [OF that] by (cases w) auto
  then show ?thesis by (simp add: starts_with_any_def find_None_iff)
qed

lemma drop_words_visible:
  assumes "visible c" "\<And>w d. w \<in> set ws \<Longrightarrow> d \<in> set w \<Longrightarrow> \<not> visible d" shows "drop_words ws (c # s) = c # s"
  by (subst drop_words.simps) (simp add: no_start [OF assms])

lemma space_word_invisible: "w \<in> set space_words \<Longrightarrow> d \<in> set w \<Longrightarrow> \<not> visible d"
  using space_word_chars by (fastforce simp: visible_def)

lemma strip_text_visible:
  assumes "s \<noteq> []" "visible (hd s)" "visible (last s)" shows "strip_text s = s"
proof -
  have "drop_words space_words s = s"
    using assms(1,2) drop_words_visible [of "hd s" space_words "tl s"] space_word_invisible by simp
  moreover have "drop_words (map rev space_words) (rev s) = rev s"
  proof -
    have "rev s = last s # tl (rev s)" using assms(1) by (simp add: hd_rev [symmetric])
    moreover have "drop_words (map rev space_words) (last s # tl (rev s)) = last s # tl (rev s)"
      using assms(3) space_word_invisible by (intro drop_words_visible) auto
    ultimately show ?thesis by metis
  qed
  ultimately show ?thesis by (simp add: strip_text_def)
qed

end
