(* ===== verification/Json_Text.thy ===== *)
theory Json_Text
  imports Py_Text Result_Type "HOL-Library.AList"
begin

text \<open>
  Python's \<open>json.loads\<close> and \<open>json.dumps\<close> on UTF-8 text, as the ledger, the tweet archive and the
  LLM's answers use them. An object keeps its keys in the order of their first occurrence and the
  last value of a repeated key. An integer is read as such; any other number is kept as its
  literal. The interpreter's bound on the nesting depth is not modelled.
\<close>

datatype json = JNull | JBool bool | JInt int | JFloat string | JString string
  | JArray "json list" | JObject "(string \<times> json) list"

text \<open>
  \<open>JSONDecodeError\<close>, and the plain \<open>ValueError\<close> of an integer of more than 4300 digits.
  \<open>Out_of_fuel\<close> never occurs with the fuel \<open>json_loads\<close> gives.
\<close>

datatype json_error = JSONDecodeError | IntTooLong | Out_of_fuel

section \<open>Reading\<close>

definition json_ws :: "char \<Rightarrow> bool" where
  "json_ws c = (c \<in> {CHR '' '', CHR 0x09, CHR 0x0A, CHR 0x0D})"

definition skip_ws :: "string \<Rightarrow> string" where
  "skip_ws s = dropWhile json_ws s"

definition hex_value :: "char \<Rightarrow> nat option" where
  "hex_value c = (let n = byte c in
     if 48 \<le> n \<and> n \<le> 57 then Some (n - 48)
     else if 97 \<le> n \<and> n \<le> 102 then Some (n - 87)
     else if 65 \<le> n \<and> n \<le> 70 then Some (n - 55) else None)"

definition read_hex4 :: "string \<Rightarrow> (nat \<times> string) option" where
  "read_hex4 s =
    (if length s < 4 \<or> (\<exists>c \<in> set (take 4 s). hex_value c = None) then None
     else Some (foldl (\<lambda>acc c. 16 * acc + (case hex_value c of Some d \<Rightarrow> d | None \<Rightarrow> 0)) 0 (take 4 s), drop 4 s))"

definition low_surrogate :: "string \<Rightarrow> (nat \<times> string) option" where
  "low_surrogate s = (if take 2 s = [CHR 0x5C, CHR ''u''] then
      (case read_hex4 (drop 2 s) of
         Some (lo, r) \<Rightarrow> if 0xDC00 \<le> lo \<and> lo \<le> 0xDFFF then Some (lo, r) else None
       | None \<Rightarrow> None)
    else None)"

text \<open>What follows a backslash; a high surrogate takes a low one that follows it.\<close>

definition simple_escape :: "char \<Rightarrow> char option" where
  "simple_escape c = map_of [(CHR 0x22, CHR 0x22), (CHR 0x5C, CHR 0x5C), (CHR ''/'', CHR ''/''),
     (CHR ''b'', CHR 0x08), (CHR ''f'', CHR 0x0C), (CHR ''n'', CHR 0x0A), (CHR ''r'', CHR 0x0D),
     (CHR ''t'', CHR 0x09)] c"

definition read_escape :: "string \<Rightarrow> (string \<times> string) option" where
  "read_escape s = (case s of [] \<Rightarrow> None
   | c # cs \<Rightarrow> if c = CHR ''u'' then
       (case read_hex4 cs of None \<Rightarrow> None
        | Some (u, r) \<Rightarrow> (if 0xD800 \<le> u \<and> u \<le> 0xDBFF then
            (case low_surrogate r of
               Some (lo, r') \<Rightarrow> Some (utf8_bytes (0x10000 + (u - 0xD800) * 1024 + (lo - 0xDC00)), r')
             | None \<Rightarrow> Some (utf8_bytes u, r))
          else Some (utf8_bytes u, r)))
     else map_option (\<lambda>d. ([d], cs)) (simple_escape c))"

lemma read_hex4_shorter: "read_hex4 s = Some (n, r) \<Longrightarrow> length r < length s"
  by (auto simp: read_hex4_def split: if_splits)

lemma low_surrogate_shorter: "low_surrogate s = Some (n, r) \<Longrightarrow> length r \<le> length s"
  by (auto simp: low_surrogate_def split: if_splits option.splits prod.splits dest!: read_hex4_shorter)

lemma read_escape_shorter: "read_escape s = Some (bs, r) \<Longrightarrow> length r < length s"
  by (auto simp: read_escape_def split: list.splits if_splits option.splits prod.splits
      dest!: read_hex4_shorter low_surrogate_shorter)

text \<open>The rest of a string after its opening quote; control characters are refused.\<close>

function scan_string :: "string \<Rightarrow> string \<Rightarrow> (string \<times> string, json_error) result" where
  "scan_string acc [] = Err JSONDecodeError"
| "scan_string acc (c # cs) =
    (if c = CHR 0x22 then Ok (rev acc, cs)
     else if c = CHR 0x5C then
       (case read_escape cs of None \<Rightarrow> Err JSONDecodeError
        | Some (bs, r) \<Rightarrow> scan_string (rev bs @ acc) r)
     else if byte c < 32 then Err JSONDecodeError
     else scan_string (c # acc) cs)"
  by pat_completeness auto
termination by (relation "measure (\<lambda>(acc, s). length s)") (auto dest!: read_escape_shorter)

text \<open>Numbers: an integer part without leading zeros, a fraction and an exponent if complete.\<close>

definition take_digits :: "string \<Rightarrow> string \<times> string" where
  "take_digits s = (takeWhile is_digit s, dropWhile is_digit s)"

definition scan_int_part :: "string \<Rightarrow> (string \<times> string) option" where
  "scan_int_part s = (case s of [] \<Rightarrow> None
   | c # cs \<Rightarrow> if c = CHR ''0'' then Some (''0'', cs)
       else if is_digit c then Some (take_digits s) else None)"

definition scan_frac :: "string \<Rightarrow> string \<times> string" where
  "scan_frac s = (case s of [] \<Rightarrow> ('''', s)
   | c # cs \<Rightarrow> (case take_digits cs of (ds, r) \<Rightarrow>
       if c = CHR ''.'' \<and> ds \<noteq> [] then (c # ds, r) else ('''', s)))"

definition scan_exp :: "string \<Rightarrow> string \<times> string" where
  "scan_exp s = (case s of [] \<Rightarrow> ('''', s)
   | c # cs \<Rightarrow>
      (let sgn = takeWhile (\<lambda>c. c \<in> {CHR ''+'', CHR ''-''}) (take 1 cs) in
       case take_digits (drop (length sgn) cs) of (ds, r) \<Rightarrow>
         if c \<in> {CHR ''e'', CHR ''E''} \<and> ds \<noteq> [] then (c # sgn @ ds, r) else ('''', s)))"

definition max_int_digits :: nat where
  "max_int_digits = 4300"

definition scan_number :: "string \<Rightarrow> (json \<times> string, json_error) result" where
  "scan_number s =
    (let sgn = takeWhile (\<lambda>c. c = CHR ''-'') (take 1 s) in
     case scan_int_part (drop (length sgn) s) of
       None \<Rightarrow> Err JSONDecodeError
     | Some (ds, r1) \<Rightarrow>
       (case scan_frac r1 of (fr, r2) \<Rightarrow> (case scan_exp r2 of (ex, r3) \<Rightarrow>
         if fr = '''' \<and> ex = '''' then
           (if max_int_digits < length ds then Err IntTooLong
            else Ok (JInt ((if sgn = '''' then 1 else - 1) * int (read_nat ds)), r3))
         else Ok (JFloat (sgn @ ds @ fr @ ex), r3))))"

definition literals :: "(string \<times> json) list" where
  "literals = [(''null'', JNull), (''true'', JBool True), (''false'', JBool False),
     (''NaN'', JFloat ''NaN''), (''Infinity'', JFloat ''Infinity''), (''-Infinity'', JFloat ''-Infinity'')]"

fun scan_literal :: "(string \<times> json) list \<Rightarrow> string \<Rightarrow> (json \<times> string) option" where
  "scan_literal [] s = None"
| "scan_literal ((w, v) # ws) s = (if take (length w) s = w then Some (v, drop (length w) s) else scan_literal ws s)"

definition scan_atom :: "string \<Rightarrow> (json \<times> string, json_error) result" where
  "scan_atom s = (case scan_literal literals s of Some vr \<Rightarrow> Ok vr | None \<Rightarrow> scan_number s)"

fun scan_value :: "nat \<Rightarrow> string \<Rightarrow> (json \<times> string, json_error) result"
  and scan_elements :: "nat \<Rightarrow> json list \<Rightarrow> string \<Rightarrow> (json \<times> string, json_error) result"
  and scan_members :: "nat \<Rightarrow> (string \<times> json) list \<Rightarrow> string \<Rightarrow> (json \<times> string, json_error) result" where
  "scan_value 0 s = Err Out_of_fuel"
| "scan_value (Suc n) s = (case s of
     [] \<Rightarrow> Err JSONDecodeError
   | c # cs \<Rightarrow>
      if c = CHR 0x22 then (case scan_string [] cs of Err e \<Rightarrow> Err e | Ok (t, r) \<Rightarrow> Ok (JString t, r))
      else if c = CHR ''['' then
        (case skip_ws cs of [] \<Rightarrow> Err JSONDecodeError
         | d # r \<Rightarrow> if d = CHR '']'' then Ok (JArray [], r) else scan_elements n [] (d # r))
      else if c = CHR 0x7B then
        (case skip_ws cs of [] \<Rightarrow> Err JSONDecodeError
         | d # r \<Rightarrow> if d = CHR 0x7D then Ok (JObject [], r) else scan_members n [] (d # r))
      else scan_atom s)"
| "scan_elements 0 acc s = Err Out_of_fuel"
| "scan_elements (Suc n) acc s = (case scan_value n s of
     Err e \<Rightarrow> Err e
   | Ok (v, r) \<Rightarrow> (case skip_ws r of [] \<Rightarrow> Err JSONDecodeError
     | d # r' \<Rightarrow> if d = CHR '']'' then Ok (JArray (acc @ [v]), r')
         else if d = CHR '','' then scan_elements n (acc @ [v]) (skip_ws r')
         else Err JSONDecodeError))"
| "scan_members 0 acc s = Err Out_of_fuel"
| "scan_members (Suc n) acc s = (case s of
     [] \<Rightarrow> Err JSONDecodeError
   | c # cs \<Rightarrow> if c \<noteq> CHR 0x22 then Err JSONDecodeError
     else (case scan_string [] cs of
       Err e \<Rightarrow> Err e
     | Ok (k, r) \<Rightarrow> (case skip_ws r of [] \<Rightarrow> Err JSONDecodeError
       | d # r' \<Rightarrow> if d \<noteq> CHR '':'' then Err JSONDecodeError
         else (case scan_value n (skip_ws r') of
           Err e \<Rightarrow> Err e
         | Ok (v, r2) \<Rightarrow> (case skip_ws r2 of [] \<Rightarrow> Err JSONDecodeError
           | d2 # r3 \<Rightarrow>
               if d2 = CHR 0x7D then Ok (JObject (AList.update k v acc), r3)
               else if d2 = CHR '','' then scan_members n (AList.update k v acc) (skip_ws r3)
               else Err JSONDecodeError)))))"

definition json_loads :: "string \<Rightarrow> (json, json_error) result" where
  "json_loads s = (case scan_value (2 * length s + 1) (skip_ws s) of
     Err e \<Rightarrow> Err e
   | Ok (v, r) \<Rightarrow> if skip_ws r = [] then Ok v else Err JSONDecodeError)"

section \<open>The fuel is enough\<close>

lemma length_skip_ws: "length (skip_ws s) \<le> length s"
  by (simp add: skip_ws_def length_dropWhile_le)

lemma skip_ws_Cons: "skip_ws s = c # r \<Longrightarrow> length r < length s"
  using length_skip_ws [of s] by simp

lemma scan_string_shorter: "scan_string acc s = Ok (t, r) \<Longrightarrow> length r < length s"
proof (induction acc s rule: scan_string.induct)
  case (2 acc c cs)
  show ?case
  proof (cases "c = CHR 0x5C")
    case True
    then obtain bs r' where e: "read_escape cs = Some (bs, r')" "scan_string (rev bs @ acc) r' = Ok (t, r)"
      using 2(3) by (auto split: option.splits)
    have "length r < length r'" using True e by (intro 2(1)) simp_all
    then show ?thesis using read_escape_shorter [OF e(1)] by simp
  next
    case False
    then show ?thesis using 2(2,3) by (auto split: if_splits intro: less_SucI)
  qed
qed simp

lemma scan_string_fuel [simp]: "scan_string acc s \<noteq> Err Out_of_fuel"
  by (induction acc s rule: scan_string.induct) (auto split: option.splits)

lemma take_digits_shorter: "take_digits s = (ds, r) \<Longrightarrow> length r + length ds = length s"
  by (auto simp: take_digits_def) (metis length_append takeWhile_dropWhile_id add.commute)

lemma scan_int_part_shorter: "scan_int_part s = Some (ds, r) \<Longrightarrow> length r < length s"
  by (auto simp: scan_int_part_def take_digits_def split: list.splits if_splits)
    (metis length_dropWhile_le le_imp_less_Suc)

lemma scan_frac_shorter: "scan_frac s = (f, r) \<Longrightarrow> length r \<le> length s"
  by (auto simp: scan_frac_def split: list.splits prod.splits if_splits dest!: take_digits_shorter)

lemma scan_exp_shorter: "scan_exp s = (f, r) \<Longrightarrow> length r \<le> length s"
  by (auto simp: scan_exp_def Let_def split: list.splits prod.splits if_splits dest!: take_digits_shorter)

lemma scan_number_shorter:
  assumes "scan_number s = Ok (v, r)" shows "length r < length s"
proof -
  obtain k ds r1 fr r2 ex where "scan_int_part (drop k s) = Some (ds, r1)" "scan_frac r1 = (fr, r2)" "scan_exp r2 = (ex, r)"
    using assms unfolding scan_number_def Let_def
    by (auto split: option.splits prod.splits if_splits)
  then have "length r1 < length (drop k s)" "length r2 \<le> length r1" "length r \<le> length r2"
    by (blast dest: scan_int_part_shorter scan_frac_shorter scan_exp_shorter)+
  then show ?thesis by simp
qed

lemma scan_literal_shorter:
  assumes "scan_literal ws s = Some (v, r)" "\<forall>w \<in> fst ` set ws. w \<noteq> []" shows "length r < length s"
  using assms
proof (induction ws s rule: scan_literal.induct)
  case (2 w v' ws s)
  show ?case
  proof (cases "take (length w) s = w")
    case True
    then have "length w \<le> length s" by (metis length_take min.cobounded1)
    then show ?thesis using 2 True by (cases w) auto
  qed (use 2 in simp)
qed simp

lemma scan_atom_shorter:
  assumes "scan_atom s = Ok (v, r)" shows "length r < length s"
proof (cases "scan_literal literals s")
  case None
  then show ?thesis using assms scan_number_shorter by (simp add: scan_atom_def)
next
  case (Some vr)
  then have "scan_literal literals s = Some (v, r)" using assms by (simp add: scan_atom_def)
  then show ?thesis by (rule scan_literal_shorter) (simp add: literals_def)
qed

lemma scan_number_fuel [simp]: "scan_number s \<noteq> Err Out_of_fuel"
  by (auto simp: scan_number_def Let_def split: option.splits prod.splits)

lemma scan_atom_fuel [simp]: "scan_atom s \<noteq> Err Out_of_fuel"
  by (auto simp: scan_atom_def split: option.splits)

lemma scan_shorter:
  "scan_value n s = Ok (v, r) \<Longrightarrow> length r < length s"
  "scan_elements n acc s = Ok (v, r) \<Longrightarrow> length r < length s"
  "scan_members n ms s = Ok (v, r) \<Longrightarrow> length r < length s"
proof (induction n s and n acc s and n ms s arbitrary: v r and v r and v r
    rule: scan_value_scan_elements_scan_members.induct)
  case (2 n s)
  then show ?case
    by (auto split: list.splits if_splits result.splits prod.splits
        dest!: scan_string_shorter skip_ws_Cons scan_atom_shorter intro: less_trans) force+
next
  case (4 n acc s)
  then obtain v1 r1 d r2 where v: "scan_value n s = Ok (v1, r1)" and w: "skip_ws r1 = d # r2"
    by (auto split: result.splits list.splits)
  have "length r1 < length s" using 4(1) v by simp
  moreover have "length r2 < length r1" using w by (rule skip_ws_Cons)
  moreover have "r = r2 \<or> length r < length (skip_ws r2)"
    using 4(2,3) v w by (auto split: if_splits)
  ultimately show ?case using length_skip_ws [of r2] by auto
next
  case (6 n ms s)
  then obtain cs k r1 r2 v1 r3 d r4 where s: "s = CHR 0x22 # cs" and k: "scan_string [] cs = Ok (k, r1)"
    and w: "skip_ws r1 = CHR '':'' # r2" and v: "scan_value n (skip_ws r2) = Ok (v1, r3)" and w2: "skip_ws r3 = d # r4"
    by (auto split: result.splits list.splits if_splits)
  have "length r3 < length (skip_ws r2)" using 6(1) s k w v by simp
  moreover have "length r4 < length r3" "length r2 < length r1" "length r1 < length cs"
    using skip_ws_Cons [OF w] skip_ws_Cons [OF w2] scan_string_shorter [OF k] by simp_all
  moreover have "r = r4 \<or> length r < length (skip_ws r4)"
    using 6(2,3) s k w v w2 by (auto split: if_splits)
  ultimately show ?case using length_skip_ws [of r2] length_skip_ws [of r4] s by auto
qed simp_all

lemma scan_fuel:
  "2 * length s < n \<Longrightarrow> scan_value n s \<noteq> Err Out_of_fuel"
  "2 * length s + 1 < n \<Longrightarrow> scan_elements n acc s \<noteq> Err Out_of_fuel"
  "2 * length s + 1 < n \<Longrightarrow> scan_members n ms s \<noteq> Err Out_of_fuel"
proof (induction n s and n acc s and n ms s rule: scan_value_scan_elements_scan_members.induct)
  case (2 n s)
  show ?case
  proof (cases s)
    case (Cons c cs)
    have "scan_elements n [] (d # r) \<noteq> Err Out_of_fuel" if "skip_ws cs = d # r" "c = CHR ''[''" "d \<noteq> CHR '']''" for d r
      using 2(1) [OF Cons _ that(2,1,3)] that(2) 2(3) length_skip_ws [of cs] that(1) Cons by simp
    moreover have "scan_members n [] (d # r) \<noteq> Err Out_of_fuel" if "skip_ws cs = d # r" "c = CHR 0x7B" "d \<noteq> CHR 0x7D" for d r
      using 2(2) [OF Cons _ _ that(2,1,3)] that(2) 2(3) length_skip_ws [of cs] that(1) Cons by simp
    ultimately show ?thesis using Cons by (auto split: list.splits result.splits)
  qed simp
next
  case (4 n acc s)
  show ?case
  proof (cases "scan_value n s")
    case (Err e)
    then show ?thesis using 4(1,3) by simp
  next
    case (Ok vr)
    obtain v r where vr: "vr = (v, r)" by fastforce
    have "scan_elements n (acc @ [v]) (skip_ws r') \<noteq> Err Out_of_fuel" if "skip_ws r = CHR '','' # r'" for r'
      using 4(2) [OF Ok vr [symmetric] that] scan_shorter(1) [OF Ok [unfolded vr]] skip_ws_Cons [OF that]
        length_skip_ws [of r'] 4(3) by simp
    then show ?thesis using Ok vr by (auto split: list.splits)
  qed
next
  case (6 n ms s)
  show ?case
  proof (cases "\<exists>cs k r r'. s = CHR 0x22 # cs \<and> scan_string [] cs = Ok (k, r) \<and> skip_ws r = CHR '':'' # r'")
    case True
    then obtain cs k r r' where s: "s = CHR 0x22 # cs" and k: "scan_string [] cs = Ok (k, r)"
      and w: "skip_ws r = CHR '':'' # r'" by blast
    have len: "length (skip_ws r') + 2 < length s"
      using skip_ws_Cons [OF w] scan_string_shorter [OF k] length_skip_ws [of r'] s by simp
    show ?thesis
    proof (cases "scan_value n (skip_ws r')")
      case (Err e)
      then have "e \<noteq> Out_of_fuel" using 6(1) s k w len 6(3) by auto
      then show ?thesis using s k w Err by simp
    next
      case (Ok vr)
      obtain v r2 where vr: "vr = (v, r2)" by fastforce
      have "scan_members n (AList.update k v ms) (skip_ws r3) \<noteq> Err Out_of_fuel" if "skip_ws r2 = CHR '','' # r3" for r3
      proof -
        have "length (skip_ws r3) < length s"
          using scan_shorter(1) [OF Ok [unfolded vr]] skip_ws_Cons [OF that] length_skip_ws [of r3] len by simp
        then show ?thesis using 6(2) s k w Ok vr that 6(3) by simp
      qed
      then show ?thesis using s k w Ok vr by (auto split: list.splits)
    qed
  next
    case False
    then show ?thesis by (auto split: list.splits if_splits result.splits)
  qed
qed simp_all

text \<open>So \<open>json_loads\<close> never reports it.\<close>

lemma json_loads_fuel: "json_loads s \<noteq> Err Out_of_fuel"
  using scan_fuel(1) [of "skip_ws s" "2 * length s + 1"] length_skip_ws [of s]
  by (auto simp: json_loads_def split: result.splits)

section \<open>Writing a list of texts\<close>

text \<open>\<open>json.dumps\<close> with its default settings writes ASCII; other characters are escaped.\<close>

definition hex_digit :: "nat \<Rightarrow> char" where
  "hex_digit d = char_of (if d < 10 then 48 + d else 87 + d)"

definition hex4 :: "nat \<Rightarrow> string" where
  "hex4 n = map hex_digit [n div 4096 mod 16, n div 256 mod 16, n div 16 mod 16, n mod 16]"

definition escape_char :: "nat \<Rightarrow> string" where
  "escape_char n =
    (if n = 34 then [CHR 0x5C, CHR 0x22] else if n = 92 then [CHR 0x5C, CHR 0x5C]
     else if n = 10 then [CHR 0x5C, CHR ''n''] else if n = 13 then [CHR 0x5C, CHR ''r'']
     else if n = 9 then [CHR 0x5C, CHR ''t''] else if n = 12 then [CHR 0x5C, CHR ''f'']
     else if n = 8 then [CHR 0x5C, CHR ''b'']
     else if 32 \<le> n \<and> n < 127 then [char_of n]
     else if n < 65536 then [CHR 0x5C, CHR ''u''] @ hex4 n
     else [CHR 0x5C, CHR ''u''] @ hex4 (0xD800 + (n - 65536) div 1024)
       @ [CHR 0x5C, CHR ''u''] @ hex4 (0xDC00 + (n - 65536) mod 1024))"

definition dumps_string :: "string \<Rightarrow> string" where
  "dumps_string s = [CHR 0x22] @ concat (map escape_char (code_points s)) @ [CHR 0x22]"

definition json_dumps_strings :: "string list \<Rightarrow> string" where
  "json_dumps_strings xs = ''['' @ join '', '' (map dumps_string xs) @ '']''"

text \<open>Texts of ASCII characters, as the identifiers of the program are.\<close>

definition is_ascii :: "string \<Rightarrow> bool" where
  "is_ascii s = (\<forall>c \<in> set s. byte c < 128)"

lemma code_points_ascii: "is_ascii s \<Longrightarrow> code_points s = map byte s"
  by (induction s) (simp_all add: is_ascii_def lead_length_def lead_bits_def)

lemma hex_value_digit [simp]: "d < 16 \<Longrightarrow> hex_value (hex_digit d) = Some d"
  by (simp add: hex_value_def hex_digit_def byte_def Let_def)

lemma read_hex4_hex4 [simp]: "n < 65536 \<Longrightarrow> read_hex4 (hex4 n @ r) = Some (n, r)"
proof -
  assume n: "n < 65536"
  have "n div 4096 mod 16 = n div 4096" "n div 4096 < 16" using n by simp_all
  moreover have "16 * (16 * (16 * (n div 4096) + n div 256 mod 16) + n div 16 mod 16) + n mod 16 = n"
  proof -
    have "16 * (n div 4096) + n div 256 mod 16 = n div 256"
      using mult_div_mod_eq [of 16 "n div 256"] by (simp add: div_mult2_eq [symmetric])
    moreover have "16 * (n div 256) + n div 16 mod 16 = n div 16"
      using mult_div_mod_eq [of 16 "n div 16"] by (simp add: div_mult2_eq [symmetric])
    ultimately show ?thesis by simp
  qed
  ultimately show ?thesis by (simp add: read_hex4_def hex4_def)
qed

lemma byte_inject [simp]: "byte c = n \<longleftrightarrow> n < 256 \<and> c = char_of n"
  by (auto simp: byte_def)

text \<open>Reading undoes the escape of one character.\<close>

lemma scan_string_escape:
  assumes "byte c < 128"
  shows "scan_string acc (escape_char (byte c) @ r) = scan_string (c # acc) r"
proof -
  have chars: "char_of (34 :: nat) = CHR 0x22" "char_of (92 :: nat) = CHR 0x5C" "char_of (10 :: nat) = CHR 0x0A"
    "char_of (13 :: nat) = CHR 0x0D" "char_of (9 :: nat) = CHR 0x09" "char_of (12 :: nat) = CHR 0x0C"
    "char_of (8 :: nat) = CHR 0x08" by code_simp+
  consider (special) "byte c \<in> {34, 92, 10, 13, 9, 12, 8}" | (plain) "byte c \<notin> {34, 92, 10, 13, 9, 12, 8}" "32 \<le> byte c" "byte c < 127"
    | (control) "byte c \<notin> {34, 92, 10, 13, 9, 12, 8}" "byte c < 32 \<or> 127 \<le> byte c" by linarith
  then show ?thesis
  proof cases
    case special
    then obtain d where "escape_char (byte c) = [CHR 0x5C, d]" "simple_escape d = Some c" "d \<noteq> CHR ''u''"
      by (auto simp: escape_char_def simple_escape_def chars)
    then show ?thesis by (simp add: read_escape_def)
  next
    case plain
    then show ?thesis by (auto simp: escape_char_def chars)
  next
    case control
    then have "escape_char (byte c) = [CHR 0x5C, CHR ''u''] @ hex4 (byte c)"
      using assms by (auto simp: escape_char_def)
    moreover have "read_escape (CHR ''u'' # hex4 (byte c) @ r) = Some ([c], r)"
      using assms by (simp add: read_escape_def utf8_bytes_def)
    ultimately show ?thesis by simp
  qed
qed

lemma scan_string_dumps:
  "is_ascii s \<Longrightarrow> scan_string acc (concat (map escape_char (map byte s)) @ CHR 0x22 # r) = Ok (rev acc @ s, r)"
  by (induction s arbitrary: acc) (simp_all add: is_ascii_def scan_string_escape del: byte_inject)

lemma scan_value_dumps:
  assumes "is_ascii s"
  shows "scan_value (Suc n) (dumps_string s @ r) = Ok (JString s, r)"
  using assms scan_string_dumps [of s "[]" r] by (simp add: dumps_string_def code_points_ascii)

lemma skip_ws_dumps [simp]: "skip_ws (dumps_string s @ r) = dumps_string s @ r"
  by (simp add: skip_ws_def dumps_string_def json_ws_def)

lemma scan_elements_step:
  "scan_value n s = Ok (v, r) \<Longrightarrow> skip_ws r = d # r' \<Longrightarrow> scan_elements (Suc n) acc s =
    (if d = CHR '']'' then Ok (JArray (acc @ [v]), r')
     else if d = CHR '','' then scan_elements n (acc @ [v]) (skip_ws r') else Err JSONDecodeError)"
  by simp

declare scan_value.simps(2) [simp del] scan_elements.simps(2) [simp del]

lemma skip_ws_stop: "\<not> json_ws c \<Longrightarrow> skip_ws (c # r) = c # r"
  by (simp add: skip_ws_def)

lemma skip_ws_join: "skip_ws (join '', '' (map dumps_string (y # ys)) @ r) = join '', '' (map dumps_string (y # ys)) @ r"
  by (cases ys) simp_all

lemma scan_elements_dumps:
  assumes "\<forall>x \<in> set (x # xs). is_ascii x" "length xs + 2 \<le> n"
  shows "scan_elements n acc (join '', '' (map dumps_string (x # xs)) @ '']'' @ r)
    = Ok (JArray (acc @ map JString (x # xs)), r)"
  using assms
proof (induction xs arbitrary: x acc n)
  case Nil
  obtain m where n: "n = Suc (Suc m)" using Nil(2) by (cases n; cases "n - 1") auto
  have "scan_value (Suc m) (dumps_string x @ CHR '']'' # r) = Ok (JString x, CHR '']'' # r)"
    using Nil(1) by (intro scan_value_dumps) simp
  from scan_elements_step [OF this skip_ws_stop] show ?case by (simp add: n json_ws_def)
next
  case (Cons y ys)
  obtain m where n: "n = Suc (Suc m)" using Cons.prems(2) by (cases n; cases "n - 1") auto
  let ?rest = "join '', '' (map dumps_string (y # ys)) @ '']'' @ r"
  have "scan_value (Suc m) (dumps_string x @ CHR '','' # CHR '' '' # ?rest) = Ok (JString x, CHR '','' # CHR '' '' # ?rest)"
    using Cons.prems(1) by (intro scan_value_dumps) simp
  from scan_elements_step [OF this skip_ws_stop]
  have "scan_elements n acc (dumps_string x @ CHR '','' # CHR '' '' # ?rest)
      = scan_elements (Suc m) (acc @ [JString x]) (skip_ws (CHR '' '' # ?rest))"
    by (simp add: n json_ws_def)
  also have "skip_ws (CHR '' '' # ?rest) = ?rest"
    using skip_ws_join [of y ys "'']'' @ r"] by (simp add: skip_ws_def json_ws_def)
  also have "scan_elements (Suc m) (acc @ [JString x]) ?rest = Ok (JArray ((acc @ [JString x]) @ map JString (y # ys)), r)"
    using Cons.prems by (intro Cons.IH) (simp_all add: n)
  finally show ?case by simp
qed

text \<open>What \<open>json.dumps\<close> writes, \<open>json.loads\<close> reads back.\<close>

lemma json_loads_dumps:
  assumes "\<forall>x \<in> set xs. is_ascii x"
  shows "json_loads (json_dumps_strings xs) = Ok (JArray (map JString xs))"
proof (cases xs)
  case Nil
  then show ?thesis by (simp add: json_loads_def json_dumps_strings_def skip_ws_def json_ws_def eval_nat_numeral scan_value.simps(2))
next
  case (Cons x ys)
  have "length ys + 2 \<le> 2 * length (json_dumps_strings xs)"
  proof -
    have "length zs \<le> length (join '', '' (map dumps_string zs))" for zs
      by (induction zs rule: induct_list012) (simp_all add: dumps_string_def)
    from this [of xs] show ?thesis by (simp add: json_dumps_strings_def Cons)
  qed
  then have e: "scan_elements (2 * length (json_dumps_strings xs)) [] (join '', '' (map dumps_string (x # ys)) @ '']'' @ [])
      = Ok (JArray ([] @ map JString (x # ys)), [])"
    using assms Cons by (intro scan_elements_dumps) simp_all
  obtain cs where cs: "join '', '' (map dumps_string (x # ys)) @ '']'' = CHR 0x22 # cs"
    by (cases ys) (simp_all add: dumps_string_def)
  have d: "json_dumps_strings xs = CHR ''['' # CHR 0x22 # cs" by (simp only: json_dumps_strings_def Cons cs append.simps)
  have w: "skip_ws (CHR 0x22 # cs) = CHR 0x22 # cs" "skip_ws (json_dumps_strings xs) = CHR ''['' # CHR 0x22 # cs"
    unfolding d by (simp_all add: skip_ws_stop json_ws_def)
  have "scan_value (Suc (2 * length (json_dumps_strings xs))) (CHR ''['' # CHR 0x22 # cs) = Ok (JArray (map JString xs), [])"
    using e [unfolded append_Nil append_Nil2 cs] w(1) Cons by (simp add: scan_value.simps(2))
  then have "scan_value (2 * length (json_dumps_strings xs) + 1) (skip_ws (json_dumps_strings xs)) = Ok (JArray (map JString xs), [])"
    by (simp only: w(2) Suc_eq_plus1)
  then show ?thesis unfolding json_loads_def by (simp add: skip_ws_def)
qed

end
