(* ===== verification/Iso_Time.thy ===== *)
theory Iso_Time
  imports Clock
begin

text \<open>
  The ISO 8601 texts of dates and UTC timestamps the ledger stores: Python's \<open>date.isoformat\<close>,
  \<open>datetime.isoformat\<close> of an aware UTC datetime, and \<open>fromisoformat\<close> on the texts these write
  (other ISO forms it accepts are never stored). The calendar is the proleptic Gregorian one of
  the datetime module, with its ordinals: 1 is 0001-01-01 and 719163 is 1970-01-01.
\<close>

section \<open>The calendar\<close>

definition is_leap :: "int \<Rightarrow> bool" where
  "is_leap y \<longleftrightarrow> y mod 4 = 0 \<and> (y mod 100 \<noteq> 0 \<or> y mod 400 = 0)"

definition days_before_year :: "int \<Rightarrow> int" where
  "days_before_year y = (let z = y - 1 in z * 365 + z div 4 - z div 100 + z div 400)"

definition days_before_month :: "bool \<Rightarrow> int \<Rightarrow> int" where
  "days_before_month leap m =
     [0, 0, 31, 59, 90, 120, 151, 181, 212, 243, 273, 304, 334] ! nat m + (if 2 < m \<and> leap then 1 else 0)"

definition ymd2ord :: "int \<Rightarrow> int \<Rightarrow> int \<Rightarrow> int" where
  "ymd2ord y m d = days_before_year y + days_before_month (is_leap y) m + d"

definition month_day :: "bool \<Rightarrow> int \<Rightarrow> int \<times> int" where
  "month_day leap r =
    (let m = (r + 50) div 32;
         m = (if r < days_before_month leap m then m - 1 else m) in
     (m, r - days_before_month leap m + 1))"

definition ord2ymd :: "int \<Rightarrow> int \<times> int \<times> int" where
  "ord2ymd ordinal =
    (let n = ordinal - 1;
         n400 = n div 146097; n = n mod 146097;
         n100 = n div 36524; n = n mod 36524;
         n4 = n div 1461; n = n mod 1461;
         n1 = n div 365; n = n mod 365;
         y = n400 * 400 + 1 + n100 * 100 + n4 * 4 + n1 in
     if n1 = 4 \<or> n100 = 4 then (y - 1, 12, 31)
     else (y, month_day (n1 = 3 \<and> (n4 \<noteq> 24 \<or> n100 = 3)) n))"

lemma leap_of_parts:
  assumes "0 \<le> b" "b \<le> 3" "0 \<le> c" "c \<le> 24" "0 \<le> e" "e \<le> (3 :: int)"
  shows "is_leap (a * 400 + 1 + b * 100 + c * 4 + e) \<longleftrightarrow> e = 3 \<and> (c \<noteq> 24 \<or> b = 3)"
proof -
  let ?y = "a * 400 + 1 + b * 100 + c * 4 + e"
  have "?y = (1 + e) + 4 * (100 * a + 25 * b + c)" by simp
  then have m4: "?y mod 4 = (1 + e) mod 4" by (simp only: mod_mult_self2)
  have "?y = (1 + e + 4 * c) + 100 * (4 * a + b)" by simp
  then have m100: "?y mod 100 = (1 + e + 4 * c) mod 100" by (simp only: mod_mult_self2)
  have "?y = (1 + e + 4 * c + 100 * b) + 400 * a" by simp
  then have m400: "?y mod 400 = (1 + e + 4 * c + 100 * b) mod 400" by (simp only: mod_mult_self2)
  have e: "(1 + e) mod 4 = 0 \<longleftrightarrow> e = 3" using assms(5,6) by presburger
  show ?thesis
  proof (cases "e = 3")
    case True
    have "(4 + 4 * c) mod 100 = 0 \<longleftrightarrow> c = 24" using assms(3,4) by presburger
    moreover have "c = 24 \<Longrightarrow> (4 + 4 * c + 100 * b) mod 400 = 0 \<longleftrightarrow> b = 3" using assms(1,2) by presburger
    ultimately show ?thesis unfolding is_leap_def m4 m100 m400 using True by auto
  next
    case False
    then show ?thesis unfolding is_leap_def m4 e by simp
  qed
qed

lemma days_before_year_parts:
  assumes "0 \<le> b" "b \<le> 3" "0 \<le> c" "c \<le> 24" "0 \<le> e" "e \<le> (3 :: int)"
  shows "days_before_year (a * 400 + 1 + b * 100 + c * 4 + e) = 146097 * a + 36524 * b + 1461 * c + 365 * e"
proof -
  let ?z = "a * 400 + b * 100 + c * 4 + e"
  have "?z div 4 = 100 * a + 25 * b + c"
    using assms(5,6) by (intro int_div_pos_eq [where r = e]) simp_all
  moreover have "?z div 100 = 4 * a + b"
    using assms(3-6) by (intro int_div_pos_eq [where r = "4 * c + e"]) simp_all
  moreover have "?z div 400 = a"
    using assms by (intro int_div_pos_eq [where r = "100 * b + 4 * c + e"]) simp_all
  moreover have "a * 400 + 1 + b * 100 + c * 4 + e - 1 = ?z" by simp
  ultimately show ?thesis by (simp only: days_before_year_def Let_def) simp
qed

lemma ymd2ord_month_day: "ymd2ord y (fst (month_day (is_leap y) r)) (snd (month_day (is_leap y) r)) = days_before_year y + r + 1"
  by (simp add: ymd2ord_def month_day_def Let_def)

text \<open>The parts of an ordinal: 400, 100, 4 and 1 years, and the day of the year.\<close>

lemma ord_parts:
  obtains a b c e r where "n = 146097 * a + 36524 * b + 1461 * c + 365 * e + r + 1"
    "0 \<le> b" "b \<le> 4" "0 \<le> c" "c \<le> 24" "0 \<le> e" "e \<le> 4" "0 \<le> r" "r < 365"
    "e = 4 \<Longrightarrow> r = 0 \<and> c \<noteq> 24" "b = 4 \<Longrightarrow> c = 0 \<and> e = 0 \<and> r = 0"
    "36524 * b + 1461 * c + 365 * e + r < 146097"
    "ord2ymd n = (if e = 4 \<or> b = 4 then (a * 400 + b * 100 + c * 4 + e, 12, 31)
      else (a * 400 + 1 + b * 100 + c * 4 + e, month_day (e = 3 \<and> (c \<noteq> 24 \<or> b = 3)) r))"
proof -
  define a b c e r where "a = (n - 1) div 146097" and "b = (n - 1) mod 146097 div 36524"
    and "c = (n - 1) mod 146097 mod 36524 div 1461" and "e = (n - 1) mod 146097 mod 36524 mod 1461 div 365"
    and "r = (n - 1) mod 146097 mod 36524 mod 1461 mod 365"
  have n: "n = 146097 * a + 36524 * b + 1461 * c + 365 * e + r + 1"
    by (simp add: a_def b_def c_def e_def r_def)
  define N M K where "N = (n - 1) mod 146097" and "M = N mod 36524" and "K = M mod 1461"
  have parts: "N = 36524 * b + M" "M = 1461 * c + K" "K = 365 * e + r"
    by (simp_all add: N_def M_def K_def b_def c_def e_def r_def)
  have range: "0 \<le> N" "N < 146097" "0 \<le> M" "M < 36524" "0 \<le> K" "K < 1461" "0 \<le> r" "r < 365"
    by (simp_all add: N_def M_def K_def r_def)
  have nonneg: "0 \<le> b" "0 \<le> c" "0 \<le> e"
    using range by (simp_all add: b_def c_def e_def pos_imp_zdiv_nonneg_iff)
  have bounds: "0 \<le> b" "b \<le> 4" "0 \<le> c" "c \<le> 24" "0 \<le> e" "e \<le> 4" "0 \<le> r" "r < 365"
    "e = 4 \<longrightarrow> r = 0 \<and> c \<noteq> 24"
    using parts range nonneg by linarith+
  have last: "c = 0 \<and> e = 0 \<and> r = 0" if "b = 4"
  proof -
    have "M = 0" using that parts range by linarith
    then show ?thesis using parts range nonneg by linarith
  qed
  have "ord2ymd n = (if e = 4 \<or> b = 4 then (a * 400 + b * 100 + c * 4 + e, 12, 31)
      else (a * 400 + 1 + b * 100 + c * 4 + e, month_day (e = 3 \<and> (c \<noteq> 24 \<or> b = 3)) r))"
    by (auto simp: ord2ymd_def Let_def a_def b_def c_def e_def r_def)
  moreover have "36524 * b + 1461 * c + 365 * e + r < 146097" using parts range by linarith
  ultimately show thesis using that [OF n bounds(1-8) _ last] bounds(9) by blast
qed

text \<open>Reading the date of an ordinal back gives the ordinal.\<close>

lemma ymd2ord_ord2ymd:
  assumes "ord2ymd n = (y, m, d)" shows "ymd2ord y m d = n"
proof -
  obtain a b c e r where n: "n = 146097 * a + 36524 * b + 1461 * c + 365 * e + r + 1"
    and bounds: "0 \<le> b" "b \<le> 4" "0 \<le> c" "c \<le> 24" "0 \<le> e" "e \<le> 4" "0 \<le> r" "r < 365"
      "e = 4 \<Longrightarrow> r = 0 \<and> c \<noteq> 24" and last: "b = 4 \<Longrightarrow> c = 0 \<and> e = 0 \<and> r = 0"
    and "36524 * b + 1461 * c + 365 * e + r < 146097"
    and ymd: "ord2ymd n = (if e = 4 \<or> b = 4 then (a * 400 + b * 100 + c * 4 + e, 12, 31)
      else (a * 400 + 1 + b * 100 + c * 4 + e, month_day (e = 3 \<and> (c \<noteq> 24 \<or> b = 3)) r))"
    by (rule ord_parts [of n]) blast
  show ?thesis
  proof (cases "e = 4 \<or> b = 4")
    case True
    then have y: "y = a * 400 + b * 100 + c * 4 + e" "m = 12" "d = 31"
      using ymd assms by simp_all
    consider "b = 4" "c = 0" "e = 0" "r = 0" | "b \<le> 3" "e = 4" "r = 0" "c \<noteq> 24"
      using True bounds last by linarith
    then show ?thesis
    proof cases
      case 1
      then have "y = a * 400 + 1 + 3 * 100 + 24 * 4 + 3" using y by simp
      then have "days_before_year y = 146097 * a + 36524 * 3 + 1461 * 24 + 365 * 3" "is_leap y"
        using days_before_year_parts [of 3 24 3 a] leap_of_parts [of 3 24 3 a] by simp_all
      then show ?thesis using 1 y(2,3) by (simp add: n ymd2ord_def days_before_month_def)
    next
      case 2
      then have "y = a * 400 + 1 + b * 100 + c * 4 + 3" using y by simp
      then have "days_before_year y = 146097 * a + 36524 * b + 1461 * c + 365 * 3" "is_leap y"
        using days_before_year_parts [of b c 3 a] leap_of_parts [of b c 3 a] bounds 2 by simp_all
      then show ?thesis using 2 y(2,3) by (simp add: n ymd2ord_def days_before_month_def)
    qed
  next
    case False
    then have le: "b \<le> 3" "e \<le> 3" using bounds by simp_all
    have y: "y = a * 400 + 1 + b * 100 + c * 4 + e"
      and md: "(m, d) = month_day (e = 3 \<and> (c \<noteq> 24 \<or> b = 3)) r"
      using ymd False assms by auto
    have "(m, d) = month_day (is_leap y) r"
      using md leap_of_parts [of b c e a] bounds le y by simp
    then have "ymd2ord y m d = days_before_year y + r + 1"
      using ymd2ord_month_day [of y r] by (cases "month_day (is_leap y) r") simp
    then show ?thesis using days_before_year_parts [of b c e a] bounds le y n by simp
  qed
qed

section \<open>The ranges of the parts\<close>

text \<open>The days the datetime module can name: 0001-01-01 to 9999-12-31.\<close>

definition epoch_ordinal :: int where
  "epoch_ordinal = 719163"

definition valid_day :: "day \<Rightarrow> bool" where
  "valid_day d \<longleftrightarrow> 1 \<le> d + epoch_ordinal \<and> d + epoch_ordinal \<le> 3652059"

lemma month_day_range:
  assumes "0 \<le> r" "r < 365 + (if leap then 1 else 0)" "month_day leap r = (m, d)"
  shows "1 \<le> m \<and> m \<le> 12 \<and> 1 \<le> d \<and> d \<le> 31"
proof -
  define q where "q = (r + 50) div 32"
  have "32 * q \<le> r + 50" "r + 50 < 32 * q + 32" unfolding q_def by presburger+
  moreover have "r \<le> 365" using assms(2) by (simp split: if_splits)
  ultimately have "1 \<le> q" "q \<le> 12" using assms(1) by linarith+
  then have "q = 1 \<or> q = 2 \<or> q = 3 \<or> q = 4 \<or> q = 5 \<or> q = 6 \<or> q = 7 \<or> q = 8 \<or> q = 9 \<or> q = 10 \<or> q = 11 \<or> q = 12"
    by presburger
  then show ?thesis
    using \<open>32 * q \<le> r + 50\<close> \<open>r + 50 < 32 * q + 32\<close> assms
    by (elim disjE) (auto simp: month_day_def Let_def q_def [symmetric] days_before_month_def split: if_splits)
qed

section \<open>Texts\<close>

definition zfill :: "nat \<Rightarrow> nat \<Rightarrow> string" where
  "zfill w n = replicate (w - length (show_nat n)) (digit_char 0) @ show_nat n"

definition read_fixed :: "nat \<Rightarrow> string \<Rightarrow> (nat \<times> string) option" where
  "read_fixed w s = (if w \<le> length s \<and> list_all is_digit (take w s)
     then Some (read_nat (take w s), drop w s) else None)"

definition expect :: "char \<Rightarrow> string \<Rightarrow> string option" where
  "expect c s = (case s of [] \<Rightarrow> None | x # xs \<Rightarrow> if x = c then Some xs else None)"

lemma length_show_nat: "n < 10 ^ w \<Longrightarrow> 0 < w \<Longrightarrow> length (show_nat n) \<le> w"
proof (induction n arbitrary: w rule: show_nat.induct)
  case (1 n)
  show ?case
  proof (cases "n < 10")
    case True
    then show ?thesis using 1(3) by (subst show_nat.simps) simp
  next
    case False
    then obtain v where w: "w = Suc v" "0 < v" using 1(2,3) by (cases w; cases "w - 1") auto
    then have "n div 10 < 10 ^ v" using 1(2) by (simp add: less_mult_imp_div_less mult.commute)
    then have "length (show_nat (n div 10)) \<le> v" using 1(1) False w(2) by simp
    then show ?thesis using False w(1) by (subst show_nat.simps) simp
  qed
qed

lemma read_fixed_zfill:
  assumes "n < 10 ^ w" "0 < w"
  shows "read_fixed w (zfill w n @ rest) = Some (n, rest)"
proof -
  have len: "length (zfill w n) = w" using length_show_nat [OF assms] by (simp add: zfill_def)
  moreover have "list_all is_digit (zfill w n)"
    by (auto simp: zfill_def list_all_iff dest: show_nat_digits)
  moreover have "read_nat (zfill w n) = n" by (simp add: zfill_def)
  ultimately show ?thesis by (simp add: read_fixed_def)
qed

lemma expect_Cons [simp]: "expect c (c # s) = Some s"
  by (simp add: expect_def)

definition iso_date :: "day \<Rightarrow> string" where
  "iso_date day = (case ord2ymd (day + epoch_ordinal) of (y, m, d) \<Rightarrow>
     zfill 4 (nat y) @ ''-'' @ zfill 2 (nat m) @ ''-'' @ zfill 2 (nat d))"

definition read_date :: "string \<Rightarrow> (day \<times> string) option" where
  "read_date s = Option.bind (read_fixed 4 s) (\<lambda>(y, s). Option.bind (expect (CHR ''-'') s)
     (\<lambda>s. Option.bind (read_fixed 2 s) (\<lambda>(m, s). Option.bind (expect (CHR ''-'') s)
     (\<lambda>s. Option.bind (read_fixed 2 s) (\<lambda>(d, s). Some (ymd2ord (int y) (int m) (int d) - epoch_ordinal, s))))))"

definition isoformat :: "datetime \<Rightarrow> string" where
  "isoformat t =
    (let day = utc_date t; rest = t mod microseconds_per_day;
         h = rest div 3600000000; mi = rest div 60000000 mod 60; s = rest div 1000000 mod 60;
         us = rest mod 1000000 in
     iso_date day @ ''T'' @ zfill 2 (nat h) @ '':'' @ zfill 2 (nat mi) @ '':'' @ zfill 2 (nat s)
       @ (if us = 0 then '''' else ''.'' @ zfill 6 (nat us)) @ ''+00:00'')"

definition read_fraction_us :: "string \<Rightarrow> (nat \<times> string) option" where
  "read_fraction_us s = (case expect (CHR ''.'') s of None \<Rightarrow> Some (0, s) | Some s \<Rightarrow> read_fixed 6 s)"

definition fromisoformat :: "string \<Rightarrow> datetime option" where
  "fromisoformat s = Option.bind (read_date s) (\<lambda>(day, s). Option.bind (expect (CHR ''T'') s)
     (\<lambda>s. Option.bind (read_fixed 2 s) (\<lambda>(h, s). Option.bind (expect (CHR '':'') s)
     (\<lambda>s. Option.bind (read_fixed 2 s) (\<lambda>(mi, s). Option.bind (expect (CHR '':'') s)
     (\<lambda>s. Option.bind (read_fixed 2 s) (\<lambda>(sec, s). Option.bind (read_fraction_us s)
     (\<lambda>(us, s). if s = ''+00:00'' then Some (day * microseconds_per_day + int h * 3600000000
         + int mi * 60000000 + int sec * 1000000 + int us) else None))))))))"

lemma ord2ymd_range:
  assumes "1 \<le> n" "n \<le> 3652059" "ord2ymd n = (y, m, d)"
  shows "0 \<le> y \<and> y < 10000 \<and> 1 \<le> m \<and> m \<le> 12 \<and> 1 \<le> d \<and> d \<le> 31"
proof -
  obtain a b c e r where n: "n = 146097 * a + 36524 * b + 1461 * c + 365 * e + r + 1"
    and bounds: "0 \<le> b" "b \<le> 4" "0 \<le> c" "c \<le> 24" "0 \<le> e" "e \<le> 4" "0 \<le> r" "r < 365"
      "36524 * b + 1461 * c + 365 * e + r < 146097"
    and ymd: "ord2ymd n = (if e = 4 \<or> b = 4 then (a * 400 + b * 100 + c * 4 + e, 12, 31)
      else (a * 400 + 1 + b * 100 + c * 4 + e, month_day (e = 3 \<and> (c \<noteq> 24 \<or> b = 3)) r))"
    by (rule ord_parts [of n]) blast
  have a: "0 \<le> a" "a \<le> 24" using n bounds assms(1,2) by linarith+
  show ?thesis
  proof (cases "e = 4 \<or> b = 4")
    case True
    then have "y = a * 400 + b * 100 + c * 4 + e" "m = 12" "d = 31" using ymd assms(3) by simp_all
    moreover have "a * 400 + b * 100 + c * 4 + e < 10000" using n bounds a assms(2) by linarith
    ultimately show ?thesis using a bounds by simp
  next
    case False
    then have "y = a * 400 + 1 + b * 100 + c * 4 + e" "month_day (e = 3 \<and> (c \<noteq> 24 \<or> b = 3)) r = (m, d)"
      using ymd assms(3) by simp_all
    moreover have "a * 400 + 1 + b * 100 + c * 4 + e < 10000"
    proof -
      have le: "b \<le> 3" "e \<le> 3" using False bounds by simp_all
      have "a \<le> 23 \<or> b \<le> 2 \<or> c \<le> 23 \<or> e \<le> 2"
      proof (rule ccontr)
        assume "\<not> ?thesis"
        then have "a = 24" "b = 3" "c = 24" "e = 3" using le a bounds by simp_all
        then show False using n assms(2) bounds by simp
      qed
      then show ?thesis using le a bounds by (elim disjE) linarith+
    qed
    ultimately show ?thesis using a bounds month_day_range [of r _ m d] by simp
  qed
qed

definition valid_instant :: "datetime \<Rightarrow> bool" where
  "valid_instant t \<longleftrightarrow> valid_day (utc_date t)"

lemma read_date_iso_date:
  assumes "valid_day d"
  shows "read_date (iso_date d @ rest) = Some (d, rest)"
proof -
  obtain y m dd where ymd: "ord2ymd (d + epoch_ordinal) = (y, m, dd)" by (cases "ord2ymd (d + epoch_ordinal)") auto
  have r: "0 \<le> y" "y < 10000" "1 \<le> m" "m \<le> 12" "1 \<le> dd" "dd \<le> 31"
    using ord2ymd_range [OF _ _ ymd] assms by (simp_all add: valid_day_def)
  then have "read_fixed 4 (zfill 4 (nat y) @ s) = Some (nat y, s)"
    "read_fixed 2 (zfill 2 (nat m) @ s) = Some (nat m, s)"
    "read_fixed 2 (zfill 2 (nat dd) @ s) = Some (nat dd, s)" for s
    by (simp_all add: read_fixed_zfill nat_less_iff)
  then show ?thesis
    using r ymd2ord_ord2ymd [OF ymd] by (simp add: iso_date_def read_date_def ymd)
qed

text \<open>The parts of the time of day.\<close>

lemma time_parts:
  fixes t :: int
  assumes "0 \<le> t" "t < 86400000000"
  obtains h mi s us where "t div 3600000000 = h" "t div 60000000 mod 60 = mi" "t div 1000000 mod 60 = s"
    "t mod 1000000 = us" "t = h * 3600000000 + mi * 60000000 + s * 1000000 + us"
    "0 \<le> h" "h < 24" "0 \<le> mi" "mi < 60" "0 \<le> s" "s < 60" "0 \<le> us" "us < 1000000"
proof -
  define q where "q = t div 1000000"
  have q: "t = q * 1000000 + t mod 1000000" by (simp add: q_def)
  have m: "t div 60000000 = q div 60" and h: "t div 3600000000 = q div 60 div 60"
    by (simp_all add: q_def zdiv_zmult2_eq [symmetric])
  have "q = 60 * (q div 60) + q mod 60" "q div 60 = 60 * (q div 60 div 60) + q div 60 mod 60" by simp_all
  then have "t = q div 60 div 60 * 3600000000 + q div 60 mod 60 * 60000000 + q mod 60 * 1000000 + t mod 1000000"
    using q by linarith
  moreover have "0 \<le> q" using assms(1) by (simp add: q_def pos_imp_zdiv_nonneg_iff)
  then have "0 \<le> q div 60 div 60" by (simp add: pos_imp_zdiv_nonneg_iff)
  moreover have "0 \<le> q div 60 mod 60" "0 \<le> q mod 60" "0 \<le> t mod 1000000" by simp_all
  then have "q div 60 div 60 < 24" using calculation(1) assms(2) by linarith
  ultimately show thesis
    using that [of "q div 60 div 60" "q div 60 mod 60" "q mod 60" "t mod 1000000"] m h
    by (simp add: q_def)
qed

lemma read_fraction_us_zfill:
  assumes "0 \<le> us" "us < 1000000"
  shows "read_fraction_us ((if us = 0 then [] else CHR ''.'' # zfill 6 (nat us)) @ ''+00:00'') = Some (nat us, ''+00:00'')"
  using assms by (simp add: read_fraction_us_def expect_def read_fixed_zfill nat_less_iff)

text \<open>Every timestamp the datetime module can hold reads back from the text it is stored as.\<close>

lemma fromisoformat_isoformat:
  assumes "valid_instant t"
  shows "fromisoformat (isoformat t) = Some t"
proof -
  let ?r = "t mod microseconds_per_day"
  have a: "0 \<le> ?r" and b: "?r < 86400000000" by simp_all
  obtain h mi s us where parts: "?r div 3600000000 = h" "?r div 60000000 mod 60 = mi" "?r div 1000000 mod 60 = s"
      "?r mod 1000000 = us"
    and r: "?r = h * 3600000000 + mi * 60000000 + s * 1000000 + us"
    and range: "0 \<le> h" "h < 24" "0 \<le> mi" "mi < 60" "0 \<le> s" "s < 60" "0 \<le> us" "us < 1000000"
    by (rule time_parts [OF a b]) (rule that)
  have two: "read_fixed 2 (zfill 2 (nat n) @ rest) = Some (nat n, rest)" if "0 \<le> n" "n < 60" for n rest
    using that by (simp add: read_fixed_zfill nat_less_iff)
  have written: "isoformat t = iso_date (utc_date t) @ ''T'' @ zfill 2 (nat h) @ '':'' @ zfill 2 (nat mi) @ '':''
      @ zfill 2 (nat s) @ (if us = 0 then [] else ''.'' @ zfill 6 (nat us)) @ ''+00:00''"
    by (simp only: isoformat_def Let_def parts)
  have h60: "h < 60" using range by simp
  have "fromisoformat (isoformat t) = Some (utc_date t * microseconds_per_day + int (nat h) * 3600000000
      + int (nat mi) * 60000000 + int (nat s) * 1000000 + int (nat us))"
    using assms unfolding written fromisoformat_def valid_instant_def
    by (simp only: read_date_iso_date bind.bind_lunit prod.case append_Cons append_Nil expect_Cons
        two [OF range(1) h60] two [OF range(3,4)] two [OF range(5,6)] read_fraction_us_zfill [OF range(7,8)]) simp
  also have "\<dots> = Some (utc_date t * microseconds_per_day + ?r)" using range by (simp add: r)
  finally show ?thesis by (simp add: utc_date_def)
qed

text \<open>The text of a date reads back too.\<close>

definition date_fromisoformat :: "string \<Rightarrow> day option" where
  "date_fromisoformat s = Option.bind (read_date s) (\<lambda>(d, rest). if rest = [] then Some d else None)"

lemma date_fromisoformat_iso_date: "valid_day d \<Longrightarrow> date_fromisoformat (iso_date d) = Some d"
  using read_date_iso_date [of d "[]"] by (simp add: date_fromisoformat_def)

lemma iso_date_inject: "valid_day d \<Longrightarrow> valid_day e \<Longrightarrow> iso_date d = iso_date e \<longleftrightarrow> d = e"
  by (metis date_fromisoformat_iso_date option.inject)

lemma iso_epoch: "isoformat 0 = ''1970-01-01T00:00:00+00:00''"
  by code_simp

end
