(* ===== verification/Evidence_Builder.thy ===== *)
theory Evidence_Builder
  imports Domain_Models "HOL-Library.Multiset"
begin

text \<open>
  sources/evidence.py: mentions are grouped by ticker into a dictionary, and every group gives one
  piece of evidence: when the ticker was first and last seen, how often in the last window and in
  the window before it, and the latest excerpts. A dictionary is an association list in the order
  of its first insertions.
\<close>

definition default_window_days :: int where
  "default_window_days = 14"

definition max_excerpts :: nat where
  "max_excerpts = 3"

text \<open>\<open>by_ticker[mention.ticker].append(mention)\<close> of a \<open>defaultdict(list)\<close>.\<close>

fun append_to_group :: "Mention \<Rightarrow> (string \<times> Mention list) list \<Rightarrow> (string \<times> Mention list) list" where
  "append_to_group m [] = [(m_ticker m, [m])]"
| "append_to_group m ((t, ms) # gs) =
    (if m_ticker m = t then (t, ms @ [m]) # gs else (t, ms) # append_to_group m gs)"

definition group_by_ticker :: "Mention list \<Rightarrow> (string \<times> Mention list) list" where
  "group_by_ticker ms = foldl (\<lambda>gs m. append_to_group m gs) [] ms"

text \<open>\<open>sorted(xs, key=f, reverse=True)\<close> keeps equal elements in their order.\<close>

definition sort_key_reverse :: "('a \<Rightarrow> 'k :: linorder) \<Rightarrow> 'a list \<Rightarrow> 'a list" where
  "sort_key_reverse f xs = rev (sort_key f (rev xs))"

definition ticker_evidence :: "datetime \<Rightarrow> datetime \<Rightarrow> string \<Rightarrow> Mention list \<Rightarrow> Evidence" where
  "ticker_evidence recent_cutoff prior_cutoff ticker mine =
    (let ticker_mentions = sort_key m_posted_at mine;
         newest_first = sort_key_reverse m_posted_at ticker_mentions in
     \<lparr>e_ticker = ticker,
      e_stats = \<lparr>ms_ticker = ticker,
        ms_first_seen_at = m_posted_at (hd ticker_mentions),
        ms_last_seen_at = m_posted_at (last ticker_mentions),
        ms_mention_count = length ticker_mentions,
        ms_mention_count_last_14d = length (filter (\<lambda>m. recent_cutoff < m_posted_at m) ticker_mentions),
        ms_mention_count_prior_14d = length (filter
          (\<lambda>m. prior_cutoff < m_posted_at m \<and> m_posted_at m \<le> recent_cutoff) ticker_mentions)\<rparr>,
      e_excerpts = map m_text_excerpt (take max_excerpts newest_first),
      e_mention_ids = map m_id ticker_mentions\<rparr>)"

definition build_evidence :: "Mention list \<Rightarrow> datetime \<Rightarrow> int \<Rightarrow> Evidence list" where
  "build_evidence mentions now window_days =
    (let by_ticker = group_by_ticker mentions;
         recent_cutoff = now - window_days * microseconds_per_day;
         prior_cutoff = now - window_days * 2 * microseconds_per_day in
     map (\<lambda>ticker. ticker_evidence recent_cutoff prior_cutoff ticker
         (case map_of by_ticker ticker of Some ms \<Rightarrow> ms | None \<Rightarrow> []))
       (sort (map fst by_ticker)))"

section \<open>The groups\<close>

lemma map_of_append_to_group:
  "map_of (append_to_group m gs) t = (if t = m_ticker m
     then Some ((case map_of gs t of Some ms \<Rightarrow> ms | None \<Rightarrow> []) @ [m]) else map_of gs t)"
  by (induction gs) auto

lemma fst_append_to_group:
  "map fst (append_to_group m gs) = (if m_ticker m \<in> fst ` set gs then map fst gs else map fst gs @ [m_ticker m])"
  by (induction m gs rule: append_to_group.induct) (auto simp: image_iff)

lemma group_by_ticker_snoc: "group_by_ticker (ms @ [m]) = append_to_group m (group_by_ticker ms)"
  by (simp add: group_by_ticker_def)

text \<open>A group holds exactly the mentions of its ticker, in their order.\<close>

lemma map_of_group_by_ticker:
  "map_of (group_by_ticker ms) t = (if t \<in> m_ticker ` set ms then Some (filter (\<lambda>m. m_ticker m = t) ms) else None)"
proof (induction ms arbitrary: t rule: rev_induct)
  case (snoc m ms)
  have "filter (\<lambda>x. m_ticker x = m_ticker m) ms = []" if "m_ticker m \<notin> m_ticker ` set ms"
    using that by (auto simp: filter_empty_conv image_iff)
  then show ?case by (auto simp: group_by_ticker_snoc map_of_append_to_group snoc.IH)
qed (simp add: group_by_ticker_def)

lemma tickers_of_groups [simp]: "fst ` set (group_by_ticker ms) = m_ticker ` set ms"
proof -
  have "dom (map_of (group_by_ticker ms)) = m_ticker ` set ms"
    by (auto simp: map_of_group_by_ticker dom_def split: if_splits)
  then show ?thesis by (simp add: dom_map_of_conv_image_fst)
qed

lemma distinct_groups: "distinct (map fst (group_by_ticker ms))"
  by (induction ms rule: rev_induct)
    (simp_all add: group_by_ticker_snoc fst_append_to_group group_by_ticker_def)

text \<open>The evidence over its own tickers and mentions, without the dictionary.\<close>

lemma build_evidence_eq:
  "build_evidence ms now w = map (\<lambda>t. ticker_evidence (now - w * microseconds_per_day)
      (now - w * 2 * microseconds_per_day) t (filter (\<lambda>m. m_ticker m = t) ms))
    (sort (map fst (group_by_ticker ms)))"
  by (simp add: build_evidence_def Let_def map_of_group_by_ticker image_iff cong: map_cong)

lemma e_ticker_ticker_evidence [simp]: "e_ticker (ticker_evidence rc pc t g) = t"
  by (simp add: ticker_evidence_def Let_def)

lemma tickers_of_evidence: "map e_ticker (build_evidence ms now w) = sort (map fst (group_by_ticker ms))"
  by (simp add: build_evidence_eq comp_def)

lemma distinct_evidence: "distinct (map e_ticker (build_evidence ms now w))"
  by (simp add: tickers_of_evidence distinct_groups)

lemma filter_sort_length [simp]: "length (filter P (sort_key f xs)) = length (filter P xs)"
  by (metis filter_sort length_sort)

lemma set_sort_key_reverse [simp]: "set (sort_key_reverse f xs) = set xs"
  by (simp add: sort_key_reverse_def)

lemma sorted_reverse: "sorted_wrt (\<lambda>a b. f b \<le> f a) (sort_key_reverse f xs)"
proof -
  have "sorted (map f (sort_key f (rev xs)))" by simp
  then have "sorted_wrt (\<lambda>a b. f a \<le> f b) (sort_key f (rev xs))" by (simp add: sorted_map)
  then show ?thesis by (simp add: sort_key_reverse_def sorted_wrt_rev)
qed

text \<open>What one piece of evidence says of its mentions.\<close>

lemma sorted_hd_last:
  assumes "sorted xs" "x \<in> set xs" shows "hd xs \<le> x \<and> x \<le> last xs"
  using assms
proof (induction xs)
  case (Cons y ys)
  then show ?case by (cases "ys = []") (auto simp: last_in_set intro: order_trans)
qed simp

lemma ticker_evidence_facts:
  shows "ms_mention_count (e_stats (ticker_evidence rc pc t g)) = length g"
    and "ms_mention_count_last_14d (e_stats (ticker_evidence rc pc t g)) = length (filter (\<lambda>m. rc < m_posted_at m) g)"
    and "ms_mention_count_prior_14d (e_stats (ticker_evidence rc pc t g))
      = length (filter (\<lambda>m. pc < m_posted_at m \<and> m_posted_at m \<le> rc) g)"
    and "set (e_mention_ids (ticker_evidence rc pc t g)) = m_id ` set g"
    and "m \<in> set g \<Longrightarrow> ms_first_seen_at (e_stats (ticker_evidence rc pc t g)) \<le> m_posted_at m
      \<and> m_posted_at m \<le> ms_last_seen_at (e_stats (ticker_evidence rc pc t g))"
proof -
  let ?s = "sort_key m_posted_at g"
  show "ms_mention_count (e_stats (ticker_evidence rc pc t g)) = length g"
    "ms_mention_count_last_14d (e_stats (ticker_evidence rc pc t g)) = length (filter (\<lambda>m. rc < m_posted_at m) g)"
    "ms_mention_count_prior_14d (e_stats (ticker_evidence rc pc t g))
      = length (filter (\<lambda>m. pc < m_posted_at m \<and> m_posted_at m \<le> rc) g)"
    "set (e_mention_ids (ticker_evidence rc pc t g)) = m_id ` set g"
    by (simp_all add: ticker_evidence_def Let_def)
  assume m: "m \<in> set g"
  then have ne: "?s \<noteq> []" by (metis empty_iff empty_set set_sort)
  have "hd (map m_posted_at ?s) \<le> m_posted_at m \<and> m_posted_at m \<le> last (map m_posted_at ?s)"
    using m by (intro sorted_hd_last) simp_all
  then show "ms_first_seen_at (e_stats (ticker_evidence rc pc t g)) \<le> m_posted_at m
      \<and> m_posted_at m \<le> ms_last_seen_at (e_stats (ticker_evidence rc pc t g))"
    using ne by (simp add: ticker_evidence_def Let_def hd_map last_map)
qed

text \<open>The excerpts are of the newest mentions: whatever is left out is not newer.\<close>

lemma excerpts_newest:
  "\<exists>shown left_out. mset (shown @ left_out) = mset g
     \<and> e_excerpts (ticker_evidence rc pc t g) = map m_text_excerpt shown
     \<and> length shown = min max_excerpts (length g)
     \<and> (\<forall>a \<in> set shown. \<forall>b \<in> set left_out. m_posted_at b \<le> m_posted_at a)"
proof -
  let ?n = "sort_key_reverse m_posted_at (sort_key m_posted_at g)"
  have "sorted_wrt (\<lambda>a b. m_posted_at b \<le> m_posted_at a) (take max_excerpts ?n @ drop max_excerpts ?n)"
    using sorted_reverse [of m_posted_at "sort_key m_posted_at g"] by (simp only: append_take_drop_id)
  then have "\<forall>a \<in> set (take max_excerpts ?n). \<forall>b \<in> set (drop max_excerpts ?n). m_posted_at b \<le> m_posted_at a"
    by (simp only: sorted_wrt_append) blast
  moreover have "mset (take max_excerpts ?n @ drop max_excerpts ?n) = mset g"
    by (simp only: append_take_drop_id) (simp add: sort_key_reverse_def)
  moreover have "length (take max_excerpts ?n) = min max_excerpts (length g)"
    by (simp add: sort_key_reverse_def min.commute)
  ultimately show ?thesis
    by (intro exI [of _ "take max_excerpts ?n"] exI [of _ "drop max_excerpts ?n"])
      (simp add: ticker_evidence_def Let_def)
qed

section \<open>The property\<close>

text \<open>
  The evidence has one entry for every mentioned ticker, in alphabetical order, and it counts
  exactly the ticker's mentions: all of them, those of the last window, and those of the window
  before it; an instant on the boundary belongs to the earlier window.
\<close>

theorem evidence_counts_mentions:
  assumes "e \<in> set (build_evidence ms now w)"
  defines "mine \<equiv> filter (\<lambda>m. m_ticker m = e_ticker e) ms"
  shows "sorted (map e_ticker (build_evidence ms now w)) \<and> distinct (map e_ticker (build_evidence ms now w))
    \<and> set (map e_ticker (build_evidence ms now w)) = m_ticker ` set ms
    \<and> set (e_mention_ids e) = m_id ` set mine
    \<and> ms_mention_count (e_stats e) = length mine \<and> 0 < length mine
    \<and> ms_mention_count_last_14d (e_stats e)
        = length (filter (\<lambda>m. now - w * microseconds_per_day < m_posted_at m) mine)
    \<and> ms_mention_count_prior_14d (e_stats e) = length (filter (\<lambda>m. now - 2 * w * microseconds_per_day < m_posted_at m
        \<and> m_posted_at m \<le> now - w * microseconds_per_day) mine)"
proof -
  obtain t where t: "t \<in> m_ticker ` set ms" and e: "e = ticker_evidence (now - w * microseconds_per_day)
      (now - w * 2 * microseconds_per_day) t (filter (\<lambda>m. m_ticker m = t) ms)"
    using assms(1) by (auto simp: build_evidence_eq)
  have m: "mine = filter (\<lambda>m. m_ticker m = t) ms" by (simp add: mine_def e)
  have ne: "mine \<noteq> []" using t by (auto simp: m filter_empty_conv)
  have "w * 2 * microseconds_per_day = 2 * w * microseconds_per_day" by simp
  note facts = ticker_evidence_facts(1-4) [of "now - w * microseconds_per_day" "now - w * 2 * microseconds_per_day" t mine,
      folded e [folded m], unfolded this]
  have "set (map e_ticker (build_evidence ms now w)) = m_ticker ` set ms"
    by (simp only: tickers_of_evidence set_sort set_map tickers_of_groups)
  moreover have "sorted (map e_ticker (build_evidence ms now w))" by (simp add: tickers_of_evidence)
  ultimately show ?thesis using facts ne distinct_evidence by blast
qed

definition sample_mention :: "string \<Rightarrow> datetime \<Rightarrow> Mention" where
  "sample_mention ticker t = \<lparr>m_id = ''m1'', m_source_id = ''serenity'', m_external_id = ''x1'', m_ticker = ticker,
     m_posted_at = t, m_text_excerpt = ''up'', m_url = None, m_raw_sha256 = ''00''\<rparr>"

theorem evidence_counts_mentions_witness:
  "map (\<lambda>e. (e_ticker e, ms_mention_count_last_14d (e_stats e), ms_mention_count_prior_14d (e_stats e)))
      (build_evidence [sample_mention ''MSFT'' 0, sample_mention ''AAPL'' 5,
        sample_mention ''MSFT'' (14 * microseconds_per_day)] (14 * microseconds_per_day) 14)
    = [(''AAPL'', 1, 0), (''MSFT'', 1, 1)]
   \<and> (\<exists>e. e \<in> set (build_evidence [sample_mention ''MSFT'' 0] 0 14) \<and> ms_mention_count (e_stats e) = 1)"
proof -
  obtain e where e: "e \<in> set (build_evidence [sample_mention ''MSFT'' 0] 0 14)" "e_ticker e = ''MSFT''"
    by (auto simp: build_evidence_eq group_by_ticker_def sample_mention_def)
  then have "ms_mention_count (e_stats e) = 1"
    using evidence_counts_mentions [OF e(1)] by (simp add: sample_mention_def)
  then show ?thesis using e(1) by (intro conjI exI [of _ e]) (code_simp, blast+)
qed

end
