(* ===== verification/Prompt_Builder.thy ===== *)
theory Prompt_Builder
  imports Entry_Checks Market Iso_Time Evidence_Builder
begin

text \<open>
  analysis/prompt.py: the fixed instructions and the text of one analysis call. A dictionary of
  bars is an association list in insertion order.
\<close>

definition newline :: string where
  "newline = [CHR 0x0A]"

record Prompt =
  pr_system :: string
  pr_user :: string

definition max_excerpts_shown :: nat where
  "max_excerpts_shown = 3"

definition max_bars_shown :: nat where
  "max_bars_shown = 20"

definition system_prompt :: string where
  "system_prompt = join newline
    [''You are a read-only trading analyst for a personal trading tool.'',
     '''',
     ''Rules you must follow:'',
     ''- The trading rules described to you are fixed and read-only. You cannot change them.'',
     ''- You must never propose \"sell\". Selling is decided entirely by the rule engine.'',
     ''- Your output must be JSON only, matching exactly this schema (no prose, no markdown fence):'',
     ''{'',
     ''  \"proposals\": ['',
     ''    {'',
     ''      \"ticker\": \"ABCD\",'',
     ''      \"action\": \"buy\" | \"hold\" | \"skip\",'',
     ''      \"confidence\": 0.0-1.0,'',
     ''      \"rationale\": \"short explanation\",'',
     ''      \"evidence_mention_ids\": [\"id1\", \"id2\"]'',
     ''    }'',
     ''  ]'',
     ''}'',
     ''- You may only propose tickers from the candidate list given to you.'',
     ''  Any other ticker is rejected.'']"

definition rules_summary :: "RuleSet \<Rightarrow> DerivedLimits \<Rightarrow> string" where
  "rules_summary rules limits =
    (let joined = join '', '' (excluded_tickers (rs_entry rules));
         excluded = (if joined = '''' then ''(none)'' else joined);
         position = rs_position rules; exits = rs_exit rules in
     join newline
      [''Capital: $'' @ dstr (rs_capital_usd rules),
       ''Max notional per ticker: $'' @ money_text (lim_max_notional_per_ticker limits)
         @ '' ('' @ dstr (max_notional_per_ticker_pct position) @ ''% of capital)'',
       ''Max concurrent positions: '' @ show_int (max_concurrent_positions position),
       ''Max holding period: '' @ show_int (max_holding_days position) @ '' days'',
       ''Stop loss: '' @ dstr (stop_loss_pct exits) @ ''% from entry price'',
       ''Partial take profit: '' @ dstr (partial_take_profit_pct exits)
         @ ''% (sell '' @ dstr (partial_take_profit_fraction exits) @ '' of the position)'',
       ''Trailing stop (after partial take profit): '' @ dstr (trailing_stop_pct exits)
         @ ''% from high watermark'',
       ''Excluded tickers: '' @ excluded,
       ''Liquidity requirement: price >= $'' @ dstr (min_price_usd (rs_entry rules))
         @ '', avg daily volume >= '' @ show_int (min_avg_daily_volume (rs_entry rules)) @ '' shares''])"

text \<open>The format \<open>:+d\<close> always writes a sign.\<close>

definition show_signed :: "int \<Rightarrow> string" where
  "show_signed i = (if 0 \<le> i then ''+'' @ show_int i else show_int i)"

definition mention_section :: "Evidence \<Rightarrow> string" where
  "mention_section evidence =
    (let stats = e_stats evidence;
         delta = int (ms_mention_count_last_14d stats) - int (ms_mention_count_prior_14d stats);
         is_new = (ms_mention_count_prior_14d stats = 0 \<and> 0 < ms_mention_count_last_14d stats);
         header = e_ticker evidence @ '': total mentions='' @ show_nat (ms_mention_count stats)
           @ '', last14d='' @ show_nat (ms_mention_count_last_14d stats)
           @ '', prior14d='' @ show_nat (ms_mention_count_prior_14d stats)
           @ '', delta='' @ show_signed delta
           @ (if is_new then '' (NEW in last 14 days)'' else '''') in
     join newline (header # map (\<lambda>excerpt. ''  - \"'' @ excerpt @ ''\"'')
       (take max_excerpts_shown (e_excerpts evidence))))"

definition bar_line :: "Bar \<Rightarrow> string" where
  "bar_line b = ''  '' @ iso_date (bar_date b) @ '',close='' @ dstr (price_amount (bar_close b))
     @ '',volume='' @ show_int (bar_volume b)"

definition bars_section :: "string \<Rightarrow> Bar list \<Rightarrow> string" where
  "bars_section ticker bars =
    (let recent = last_n max_bars_shown bars in
     join newline ((ticker @ '' daily bars (most recent '' @ show_nat (length recent) @ ''):'')
       # map bar_line recent @ [''  avg daily volume: '' @ show_int (average_volume recent)]))"

definition build_prompt :: "string \<Rightarrow> Evidence list \<Rightarrow> (string \<times> Bar list) list \<Rightarrow> string list \<Rightarrow> Prompt" where
  "build_prompt rules_text evidences bars_by_ticker candidates =
     \<lparr>pr_system = system_prompt,
      pr_user = join newline
       ([''Trading rules (read-only, cannot be changed):'', rules_text, '''',
         ''Candidate tickers (only these may be proposed):'',
         (if candidates = [] then ''(none)'' else join '', '' candidates), '''',
         ''Mention evidence (recent 14-day new mentions and count changes):'']
        @ map mention_section evidences
        @ ['''', ''Market data (recent daily bars and average volume):'']
        @ map (\<lambda>(ticker, bars). bars_section ticker bars) bars_by_ticker)\<rparr>"

text \<open>The instructions are the same for every call: nothing of the cycle reaches them.\<close>

lemma pr_system_build_prompt [simp]: "pr_system (build_prompt rt es bs cs) = system_prompt"
  by (simp add: build_prompt_def)

end
