(* ===== verification/Llm_Output.thy ===== *)
theory Llm_Output
  imports Json_Text Prompt_Builder
begin

text \<open>
  analysis/output_schema.py: the answer of the LLM, from text to checked proposals. \<open>coerce\<close> is
  pydantic's reading of a JSON value into the declared types, with the last location of every error
  when a key is missing, unknown or ill-typed; the bounds the fields declare are checked here.
\<close>

type_synonym AnalysisError = string

datatype LlmAction = LA_buy | LA_hold | LA_skip

definition llm_action_value :: "LlmAction \<Rightarrow> string" where
  "llm_action_value a = (case a of LA_buy \<Rightarrow> ''buy'' | LA_hold \<Rightarrow> ''hold'' | LA_skip \<Rightarrow> ''skip'')"

record LlmProposal =
  lp_ticker :: string
  lp_action :: LlmAction
  lp_confidence :: decimal
  lp_rationale :: string
  lp_evidence_mention_ids :: "string list"

type_synonym LlmResponse = "LlmProposal list"

text \<open>The constraints a proposal declares, and the fields that break them.\<close>

definition confidence_ok :: "LlmProposal \<Rightarrow> bool" where
  "confidence_ok p = (ge (lp_confidence p) 0 \<and> le (lp_confidence p) 1)"

definition rationale_ok :: "LlmProposal \<Rightarrow> bool" where
  "rationale_ok p = (1 \<le> text_length (lp_rationale p) \<and> text_length (lp_rationale p) \<le> 2000)"

definition bad_fields :: "LlmProposal \<Rightarrow> string list" where
  "bad_fields p = (if confidence_ok p then [] else [''confidence''])
     @ (if rationale_ok p then [] else [''rationale''])"

definition model_validate :: "(json \<Rightarrow> (LlmResponse, string list) result) \<Rightarrow> json \<Rightarrow> (LlmResponse, string list) result" where
  "model_validate coerce payload = (case coerce payload of
     Err locs \<Rightarrow> Err locs
   | Ok ps \<Rightarrow> (case concat (map bad_fields ps) of [] \<Rightarrow> Ok ps | locs \<Rightarrow> Err locs))"

definition fence :: string where
  "fence = [CHR 0x60, CHR 0x60, CHR 0x60]"

definition strip_code_fence :: "string \<Rightarrow> string" where
  "strip_code_fence txt =
    (let stripped = strip_text txt; ls = py_splitlines stripped in
     if take 3 stripped \<noteq> fence then stripped
     else if length ls < 2 then stripped
     else if strip_text (last ls) \<noteq> fence then stripped
     else strip_text (join newline (butlast (tl ls))))"

definition validation_summary :: "string list \<Rightarrow> string" where
  "validation_summary locs = (if locs = [] then ''invalid response''
     else ''invalid fields: '' @ join '', '' (sort (remdups locs)))"

definition parse_llm_response :: "(json \<Rightarrow> (LlmResponse, string list) result) \<Rightarrow> string \<Rightarrow> string list
    \<Rightarrow> (LlmResponse, AnalysisError) result py_call" where
  "parse_llm_response coerce txt candidates = (case json_loads (strip_code_fence txt) of
     Err JSONDecodeError \<Rightarrow> Returns (Err ''llm response is not valid JSON'')
   | Err _ \<Rightarrow> Raises ''ValueError''
   | Ok payload \<Rightarrow> (case model_validate coerce payload of
       Err locs \<Rightarrow> Returns (Err (''invalid llm response: '' @ validation_summary locs))
     | Ok ps \<Rightarrow> if \<exists>p \<in> set ps. lp_ticker p \<notin> set candidates
         then Returns (Err ''llm response proposes a ticker outside the candidate list'')
         else Returns (Ok ps)))"

section \<open>What is adopted\<close>

text \<open>A proposal that may be acted on.\<close>

definition proposal_ok :: "string list \<Rightarrow> LlmProposal \<Rightarrow> bool" where
  "proposal_ok candidates p \<longleftrightarrow> lp_ticker p \<in> set candidates
     \<and> 0 \<le> dval (lp_confidence p) \<and> dval (lp_confidence p) \<le> 1
     \<and> 1 \<le> text_length (lp_rationale p) \<and> text_length (lp_rationale p) \<le> 2000"

lemma bad_fields_none: "bad_fields p = [] \<longleftrightarrow> confidence_ok p \<and> rationale_ok p"
  by (simp add: bad_fields_def)

lemma model_validate_Ok: "model_validate coerce payload = Ok ps \<longleftrightarrow>
    coerce payload = Ok ps \<and> (\<forall>p \<in> set ps. confidence_ok p \<and> rationale_ok p)"
proof (cases "coerce payload")
  case (Ok qs)
  define locs where "locs = concat (map bad_fields qs)"
  then have none: "locs = [] \<longleftrightarrow> (\<forall>p \<in> set qs. confidence_ok p \<and> rationale_ok p)"
    by (simp add: bad_fields_none)
  have "model_validate coerce payload = (case locs of [] \<Rightarrow> Ok qs | _ \<Rightarrow> Err locs)"
    by (cases locs) (simp_all add: model_validate_def locs_def [symmetric] Ok)
  then show ?thesis using Ok none by (cases locs) auto
qed (simp add: model_validate_def)

lemma proposal_ok_iff:
  "proposal_ok candidates p \<longleftrightarrow> lp_ticker p \<in> set candidates \<and> confidence_ok p \<and> rationale_ok p"
  by (auto simp: proposal_ok_def confidence_ok_def rationale_ok_def)

lemma parse_llm_response_Ok:
  "parse_llm_response coerce txt candidates = Returns (Ok ps) \<longleftrightarrow>
    (\<exists>payload. json_loads (strip_code_fence txt) = Ok payload \<and> coerce payload = Ok ps)
    \<and> (\<forall>p \<in> set ps. proposal_ok candidates p)"
proof (cases "json_loads (strip_code_fence txt)")
  case (Ok payload)
  then have "parse_llm_response coerce txt candidates = Returns (Ok ps) \<longleftrightarrow>
      model_validate coerce payload = Ok ps \<and> (\<forall>p \<in> set ps. lp_ticker p \<in> set candidates)"
    by (auto simp: parse_llm_response_def split: result.splits)
  then show ?thesis using Ok by (auto simp: model_validate_Ok proposal_ok_iff)
next
  case (Err e)
  then show ?thesis by (cases e) (simp_all add: parse_llm_response_def)
qed

lemma parse_raises_iff:
  "raises (parse_llm_response coerce txt candidates) \<longleftrightarrow> json_loads (strip_code_fence txt) = Err IntTooLong"
  using json_loads_fuel [of "strip_code_fence txt"]
  by (auto simp: parse_llm_response_def split: result.splits json_error.splits)

text \<open>
  C29: a response is adopted exactly when it is JSON that reads as proposals of which every one
  names a candidate, has a confidence between 0 and 1 and a rationale of 1 to 2000 characters. A
  proposal to sell cannot be expressed: the adopted actions are buy, hold and skip.
\<close>

theorem adopted_response_valid:
  "parse_llm_response coerce txt candidates = Returns (Ok ps) \<longleftrightarrow>
    (\<exists>payload. json_loads (strip_code_fence txt) = Ok payload \<and> coerce payload = Ok ps)
    \<and> list_all (proposal_ok candidates) ps"
  by (simp add: parse_llm_response_Ok list_all_iff)

text \<open>
  An answer whose JSON holds an integer of more than 4300 digits makes the parser raise, for
  \<open>json.loads\<close> then raises a \<open>ValueError\<close> that is not a \<open>JSONDecodeError\<close>; no other answer does.
\<close>

theorem long_integer_escapes:
  "raises (parse_llm_response coerce txt candidates) \<longleftrightarrow> json_loads (strip_code_fence txt) = Err IntTooLong"
  by (rule parse_raises_iff)

text \<open>There are such answers.\<close>

lemma json_loads_long_integer:
  assumes "4300 < n"
  shows "json_loads (replicate n (CHR ''1'')) = Err IntTooLong"
proof -
  obtain m where n: "n = Suc m" using assms by (cases n) auto
  let ?s = "replicate n (CHR ''1'')"
  have d: "is_digit (CHR ''1'')" by (simp add: is_digit_def)
  have "takeWhile is_digit ?s = ?s" "dropWhile is_digit ?s = []" by (simp_all add: d)
  then have "scan_int_part ?s = Some (?s, [])" by (simp add: n scan_int_part_def take_digits_def d)
  then have "scan_number ?s = Err IntTooLong"
    using assms by (simp add: scan_number_def Let_def n scan_frac_def scan_exp_def max_int_digits_def)
  moreover have "scan_literal literals ?s = None" by (simp add: n literals_def)
  ultimately have "scan_atom ?s = Err IntTooLong" by (simp add: scan_atom_def)
  then have "scan_value (Suc (2 * n)) ?s = Err IntTooLong" by (simp add: n scan_value.simps(2))
  moreover have "skip_ws ?s = ?s" by (simp add: n skip_ws_stop json_ws_def)
  ultimately show ?thesis by (simp add: json_loads_def)
qed

end
