(* ===== verification/Llm_Client.thy ===== *)
theory Llm_Client
  imports Prompt_Builder Retry
begin

text \<open>
  analysis/llm_client.py: one call of the Messages API with its retries. The SDK's \<open>create\<close>, the
  hash function and sleeping are operations given to the client; the request's model, token bound
  and output schema are constants of the call and part of \<open>create\<close>. An exception keeps what the
  program reads of it: its class, and of a status error the status and the body.
\<close>

record LlmRaw =
  lr_text :: string
  lr_model :: string
  lr_prompt_sha256 :: string
  lr_response_sha256 :: string

record LlmError =
  le_message :: string
  le_retryable :: bool

text \<open>
  The SDK's exceptions. \<open>api_message\<close> is the string at \<open>body["error"]["message"]\<close>, when the body is
  a dictionary that has one.
\<close>

datatype llm_exception = APIStatusError (exc_class: string) (status_code: int) (api_message: "string option")
  | APITimeoutError | APIConnectionError | Other_Exception (exc_class: string)

definition exception_name :: "llm_exception \<Rightarrow> string" where
  "exception_name exc = (case exc of APIStatusError n c m \<Rightarrow> n | APITimeoutError \<Rightarrow> ''APITimeoutError''
     | APIConnectionError \<Rightarrow> ''APIConnectionError'' | Other_Exception n \<Rightarrow> n)"

text \<open>A response: why it stopped, and its content blocks with their type and, if a string, text.\<close>

record content_block =
  cb_type :: "string option"
  cb_text :: "string option"

record ApiResponse =
  ar_stop_reason :: "string option"
  ar_content :: "content_block list option"

definition llm_retry_policy :: RetryPolicy where
  "llm_retry_policy = \<lparr>max_attempts = 2, base_delay_s = dec_of_int 1, max_delay_s = dec_of_int 8\<rparr>"

definition max_tokens :: int where
  "max_tokens = 16000"

definition is_retryable :: "llm_exception \<Rightarrow> bool" where
  "is_retryable exc = (case exc of
     APIStatusError n c m \<Rightarrow> c = 429 \<or> 500 \<le> c
   | APITimeoutError \<Rightarrow> True | APIConnectionError \<Rightarrow> True | Other_Exception n \<Rightarrow> False)"

definition api_error_message :: "llm_exception \<Rightarrow> string option" where
  "api_error_message exc = (case exc of
     APIStatusError n c (Some m) \<Rightarrow> if m = '''' then None else Some m
   | _ \<Rightarrow> None)"

definition describe_error :: "llm_exception option \<Rightarrow> string" where
  "describe_error err = (case err of
     None \<Rightarrow> ''llm call failed: unknown error''
   | Some exc \<Rightarrow> ''llm call failed: '' @ exception_name exc @ (case exc of
       APIStatusError n c m \<Rightarrow> '' (HTTP '' @ show_int c @ '')'' @
         (case api_error_message exc of Some t \<Rightarrow> '': '' @ t | None \<Rightarrow> '''')
     | _ \<Rightarrow> ''''))"

record 'x AnthropicClient =
  ac_model :: string
  ac_create :: "Prompt \<Rightarrow> 'x \<Rightarrow> (ApiResponse, llm_exception) result \<times> 'x"
  ac_sleep :: "decimal \<Rightarrow> 'x \<Rightarrow> 'x"
  ac_sha256 :: "string \<Rightarrow> string"

definition extract_text :: "ApiResponse \<Rightarrow> string option" where
  "extract_text response = (case ar_content response of
     None \<Rightarrow> None
   | Some blocks \<Rightarrow> (case find (\<lambda>b. cb_type b = Some ''text'' \<and> cb_text b \<noteq> None) blocks of
       None \<Rightarrow> None | Some b \<Rightarrow> cb_text b))"

definition prompt_hash :: "(string \<Rightarrow> string) \<Rightarrow> Prompt \<Rightarrow> string" where
  "prompt_hash sha prompt = sha (pr_system prompt @ newline @ pr_user prompt)"

text \<open>The branch of a call that returned.\<close>

definition read_response :: "'x AnthropicClient \<Rightarrow> Prompt \<Rightarrow> ApiResponse \<Rightarrow> (LlmRaw, LlmError) result" where
  "read_response c prompt response =
    (if ar_stop_reason response = Some ''max_tokens'' then
       Err \<lparr>le_message = ''llm response truncated (stop_reason=max_tokens, max_tokens='' @ show_int max_tokens @ '')'',
         le_retryable = False\<rparr>
     else if ar_stop_reason response = Some ''refusal'' then
       Err \<lparr>le_message = ''llm refused the request (stop_reason=refusal)'', le_retryable = False\<rparr>
     else (case extract_text response of
       None \<Rightarrow> Err \<lparr>le_message = ''llm response had no text content'', le_retryable = False\<rparr>
     | Some txt \<Rightarrow> Ok \<lparr>lr_text = txt, lr_model = ac_model c,
         lr_prompt_sha256 = prompt_hash (ac_sha256 c) prompt, lr_response_sha256 = ac_sha256 c txt\<rparr>))"

text \<open>The attempts that are left, each with the delay after it (none after the last).\<close>

fun complete_attempts :: "'x AnthropicClient \<Rightarrow> Prompt \<Rightarrow> decimal option list \<Rightarrow> llm_exception option \<Rightarrow> bool \<Rightarrow> 'x
    \<Rightarrow> (LlmRaw, LlmError) result \<times> 'x" where
  "complete_attempts c prompt [] last_error last_retryable x =
     (Err \<lparr>le_message = describe_error last_error, le_retryable = last_retryable\<rparr>, x)"
| "complete_attempts c prompt (delay # rest) last_error last_retryable x =
    (case ac_create c prompt x of
       (Ok response, x1) \<Rightarrow> (read_response c prompt response, x1)
     | (Err exc, x1) \<Rightarrow>
         (case delay of
            Some d \<Rightarrow> if is_retryable exc
              then complete_attempts c prompt rest (Some exc) True (ac_sleep c d x1)
              else (Err \<lparr>le_message = describe_error (Some exc), le_retryable = False\<rparr>, x1)
          | None \<Rightarrow> (Err \<lparr>le_message = describe_error (Some exc), le_retryable = is_retryable exc\<rparr>, x1)))"

definition attempt_delays :: "RetryPolicy \<Rightarrow> decimal option list" where
  "attempt_delays policy = map (\<lambda>i. if i < length (backoff_delays policy)
     then Some (backoff_delays policy ! i) else None) [0..<nat (max_attempts policy)]"

definition anthropic_complete :: "'x AnthropicClient \<Rightarrow> Prompt \<Rightarrow> 'x \<Rightarrow> (LlmRaw, LlmError) result \<times> 'x" where
  "anthropic_complete c prompt x = complete_attempts c prompt (attempt_delays llm_retry_policy) None False x"

section \<open>What a completed call says\<close>

lemma complete_attempts_Ok:
  "complete_attempts c prompt ds err ret x = (Ok raw, x') \<Longrightarrow>
    lr_model raw = ac_model c \<and> lr_prompt_sha256 raw = prompt_hash (ac_sha256 c) prompt
    \<and> lr_response_sha256 raw = ac_sha256 c (lr_text raw)"
  by (induction ds arbitrary: err ret x)
    (auto simp: read_response_def split: prod.splits result.splits option.splits if_splits)

end
