(* ===== verification/Analyst.thy ===== *)
theory Analyst
  imports Llm_Output Llm_Client
begin

text \<open>
  analysis/analyst.py: one call of the LLM for all candidates, as proposals or a reason to skip.
  The locale \<open>llm_laws\<close> states what \<open>propose\<close> relies on of a client: a completed call carries the
  hashes of what was sent and of what came back. The Anthropic client of analysis/llm_client.py is
  one.
\<close>

record 'x LlmClient =
  llm_model :: string
  llm_complete :: "Prompt \<Rightarrow> 'x \<Rightarrow> (LlmRaw, LlmError) result \<times> 'x"

definition anthropic_client :: "'x AnthropicClient \<Rightarrow> 'x LlmClient" where
  "anthropic_client c = \<lparr>llm_model = ac_model c, llm_complete = anthropic_complete c\<rparr>"

record AnalysisResult =
  an_proposals :: "LlmProposal list"
  an_llm_model :: string
  an_prompt_sha256 :: string
  an_response_sha256 :: string
  an_skipped_reason :: "string option"

definition skipped :: "string \<Rightarrow> string \<Rightarrow> string \<Rightarrow> string \<Rightarrow> AnalysisResult" where
  "skipped model p_sha r_sha reason = \<lparr>an_proposals = [], an_llm_model = model,
     an_prompt_sha256 = p_sha, an_response_sha256 = r_sha, an_skipped_reason = Some reason\<rparr>"

definition propose :: "(json \<Rightarrow> (LlmResponse, string list) result) \<Rightarrow> 'x LlmClient \<Rightarrow> Prompt \<Rightarrow> string list \<Rightarrow> 'x
    \<Rightarrow> AnalysisResult py_call \<times> 'x" where
  "propose coerce client prompt candidates x =
    (if candidates = [] then (Returns (skipped (llm_model client) '''' '''' ''no candidates''), x)
     else (case llm_complete client prompt x of
       (Err e, x1) \<Rightarrow> (Returns (skipped (llm_model client) '''' '''' (''llm call failed: '' @ le_message e)), x1)
     | (Ok raw, x1) \<Rightarrow> (case parse_llm_response coerce (lr_text raw) candidates of
         Raises e \<Rightarrow> (Raises e, x1)
       | Returns (Err e) \<Rightarrow> (Returns (skipped (lr_model raw) (lr_prompt_sha256 raw) (lr_response_sha256 raw)
           (''invalid llm output: '' @ e)), x1)
       | Returns (Ok ps) \<Rightarrow> (Returns \<lparr>an_proposals = ps, an_llm_model = lr_model raw,
           an_prompt_sha256 = lr_prompt_sha256 raw, an_response_sha256 = lr_response_sha256 raw,
           an_skipped_reason = None\<rparr>, x1))))"

text \<open>Either nothing is proposed and there is a reason, or what is proposed may be acted on.\<close>

lemma propose_ok:
  assumes "propose coerce client prompt candidates x = (Returns a, x')"
  shows "(\<forall>p \<in> set (an_proposals a). proposal_ok candidates p)
    \<and> (an_skipped_reason a \<noteq> None \<longrightarrow> an_proposals a = [])"
  using assms
  by (auto simp: propose_def skipped_def split: if_splits prod.splits result.splits py_call.splits
      dest!: parse_llm_response_Ok [THEN iffD1])

locale llm_laws =
  fixes client :: "'x LlmClient" and sha :: "string \<Rightarrow> string"
  assumes complete_hashes: "llm_complete client prompt x = (Ok raw, x') \<Longrightarrow>
    lr_prompt_sha256 raw = prompt_hash sha prompt \<and> lr_response_sha256 raw = sha (lr_text raw)"
begin

text \<open>What an analysis that was not skipped reports was read from the text it gives the hash of.\<close>

lemma analysis_hashes:
  assumes "propose coerce client prompt candidates x = (Returns a, x')" "an_skipped_reason a = None"
  shows "an_prompt_sha256 a = prompt_hash sha prompt
    \<and> (\<exists>txt. an_response_sha256 a = sha txt \<and> parse_llm_response coerce txt candidates = Returns (Ok (an_proposals a)))"
  using assms
  by (auto simp: propose_def skipped_def split: if_splits prod.splits result.splits py_call.splits
      dest!: complete_hashes)

end

interpretation anthropic: llm_laws "anthropic_client c" "ac_sha256 c" for c :: "'x AnthropicClient"
  by unfold_locales (auto simp: anthropic_client_def anthropic_complete_def dest!: complete_attempts_Ok)

end
