(* ===== verification/Candidates.thy ===== *)
theory Candidates
  imports Holdings Analyst
begin

text \<open>
  engine/candidates.py: the recently mentioned tickers become at most twenty candidates, are priced,
  and are put to the LLM once; its proposals become decisions, a buy only after the entry checks.
  What is proposed within one batch counts as held for the rest of it. A dictionary is an
  association list; a set of tickers is a list without repetitions.
\<close>

type_synonym CandidatesError = string
type_synonym CandidatesOutcome = "Decision list"

definition max_candidates :: nat where
  "max_candidates = 20"

definition eligible :: "string list \<Rightarrow> string list \<Rightarrow> Evidence \<Rightarrow> bool" where
  "eligible held_tickers excluded e = (0 < ms_mention_count_last_14d (e_stats e)
     \<and> e_ticker e \<notin> set held_tickers \<and> e_ticker e \<notin> set excluded)"

definition candidate_rank :: "Evidence \<Rightarrow> int \<times> string" where
  "candidate_rank e = (- int (ms_mention_count_last_14d (e_stats e)), e_ticker e)"

definition select_candidates :: "Evidence list \<Rightarrow> string list \<Rightarrow> string list \<Rightarrow> string list" where
  "select_candidates evidences held_tickers excluded =
     map e_ticker (take max_candidates
       (sort_key candidate_rank (filter (eligible held_tickers excluded) evidences)))"

section \<open>Decisions\<close>

text \<open>What the decisions of one batch have in common.\<close>

record llm_context =
  lc_cycle_id :: string
  lc_now :: datetime
  lc_mode :: string
  lc_rule_set_sha256 :: string
  lc_llm_model :: "string option"
  lc_prompt_sha256 :: "string option"
  lc_response_sha256 :: "string option"

text \<open>Python's \<open>s or None\<close>.\<close>

definition or_none :: "string \<Rightarrow> string option" where
  "or_none s = (if s = '''' then None else Some s)"

definition none_if_empty :: "string option \<Rightarrow> string option" where
  "none_if_empty s = (case s of None \<Rightarrow> None | Some t \<Rightarrow> or_none t)"

definition skip_decision :: "llm_context \<Rightarrow> string \<Rightarrow> string \<Rightarrow> string list \<Rightarrow> string \<Rightarrow> Decision" where
  "skip_decision cx ticker reason evidence_mention_ids u =
     \<lparr>d_id = ''dec_'' @ u, d_cycle_id = lc_cycle_id cx, d_decided_at = lc_now cx, d_mode = lc_mode cx,
      d_ticker = ticker, d_action = Action_skip, d_origin = Origin_llm, d_confidence = None,
      d_rationale = reason, d_evidence_mention_ids = evidence_mention_ids,
      d_llm_model = lc_llm_model cx, d_prompt_sha256 = none_if_empty (lc_prompt_sha256 cx),
      d_response_sha256 = none_if_empty (lc_response_sha256 cx),
      d_rule_set_sha256 = lc_rule_set_sha256 cx, d_rule_check = RC_rejected,
      d_rule_check_reason = reason, d_proposed_notional = None, d_reference_price = None\<rparr>"

definition llm_action :: "LlmAction \<Rightarrow> Action" where
  "llm_action a = (case a of LA_buy \<Rightarrow> Action_buy | LA_hold \<Rightarrow> Action_hold | LA_skip \<Rightarrow> Action_skip)"

definition non_buy_decision :: "llm_context \<Rightarrow> LlmProposal \<Rightarrow> string \<Rightarrow> Decision" where
  "non_buy_decision cx proposal u =
     \<lparr>d_id = ''dec_'' @ u, d_cycle_id = lc_cycle_id cx, d_decided_at = lc_now cx, d_mode = lc_mode cx,
      d_ticker = lp_ticker proposal, d_action = llm_action (lp_action proposal), d_origin = Origin_llm,
      d_confidence = Some (lp_confidence proposal), d_rationale = lp_rationale proposal,
      d_evidence_mention_ids = lp_evidence_mention_ids proposal,
      d_llm_model = lc_llm_model cx, d_prompt_sha256 = lc_prompt_sha256 cx,
      d_response_sha256 = lc_response_sha256 cx,
      d_rule_set_sha256 = lc_rule_set_sha256 cx, d_rule_check = RC_rejected,
      d_rule_check_reason = ''llm '' @ llm_action_value (lp_action proposal),
      d_proposed_notional = None, d_reference_price = None\<rparr>"

definition passed_reason :: "RuleSet \<Rightarrow> EntryPlan \<Rightarrow> string" where
  "passed_reason rules plan = ''notional '' @ money_text (ep_notional plan) @ '' <= limit ''
     @ money_text (ep_limit plan) @ '' ('' @ dstr (max_notional_per_ticker_pct (rs_position rules))
     @ ''% of '' @ dstr (rs_capital_usd rules) @ '')''"

definition buy_decision :: "llm_context \<Rightarrow> RuleSet \<Rightarrow> LlmProposal \<Rightarrow> (EntryPlan, RuleRejection) result \<Rightarrow> string \<Rightarrow> Decision" where
  "buy_decision cx rules proposal entry_result u =
     \<lparr>d_id = ''dec_'' @ u, d_cycle_id = lc_cycle_id cx, d_decided_at = lc_now cx, d_mode = lc_mode cx,
      d_ticker = lp_ticker proposal, d_action = Action_buy, d_origin = Origin_llm,
      d_confidence = Some (lp_confidence proposal), d_rationale = lp_rationale proposal,
      d_evidence_mention_ids = lp_evidence_mention_ids proposal,
      d_llm_model = lc_llm_model cx, d_prompt_sha256 = lc_prompt_sha256 cx,
      d_response_sha256 = lc_response_sha256 cx, d_rule_set_sha256 = lc_rule_set_sha256 cx,
      d_rule_check = (case entry_result of Err r \<Rightarrow> RC_rejected | Ok plan \<Rightarrow> RC_passed),
      d_rule_check_reason = (case entry_result of Err r \<Rightarrow> rej_reason r | Ok plan \<Rightarrow> passed_reason rules plan),
      d_proposed_notional = (case entry_result of Err r \<Rightarrow> None | Ok plan \<Rightarrow> Some (ep_notional plan)),
      d_reference_price = (case entry_result of Err r \<Rightarrow> None | Ok plan \<Rightarrow> Some (ep_reference_price plan))\<rparr>"

section \<open>Prices\<close>

record priced_candidates =
  pc_priced :: "(string \<times> Price) list"
  pc_bars :: "(string \<times> Bar list) list"
  pc_avg_volumes :: "(string \<times> int) list"
  pc_final :: "string list"

definition no_prices :: priced_candidates where
  "no_prices = \<lparr>pc_priced = [], pc_bars = [], pc_avg_volumes = [], pc_final = []\<rparr>"

definition add_priced :: "string \<Rightarrow> Price \<Rightarrow> Bar list \<Rightarrow> priced_candidates \<Rightarrow> priced_candidates" where
  "add_priced ticker price bars pc = \<lparr>pc_priced = AList.update ticker price (pc_priced pc),
     pc_bars = AList.update ticker bars (pc_bars pc),
     pc_avg_volumes = AList.update ticker (average_volume bars) (pc_avg_volumes pc),
     pc_final = pc_final pc @ [ticker]\<rparr>"

text \<open>Both are asked for every ticker; twenty days of bars is the default.\<close>

fun price_candidates :: "'x MarketDataProvider \<Rightarrow> string list \<Rightarrow> priced_candidates \<Rightarrow> 'x \<Rightarrow> priced_candidates \<times> 'x" where
  "price_candidates market [] pc x = (pc, x)"
| "price_candidates market (ticker # ts) pc x =
    (let (price_result, x1) = latest_price market ticker x;
         (bars_result, x2) = daily_bars market ticker 20 x1 in
     case (price_result, bars_result) of
       (Ok price, Ok bars) \<Rightarrow> price_candidates market ts (add_priced ticker price bars pc) x2
     | _ \<Rightarrow> price_candidates market ts pc x2)"

section \<open>The evaluation\<close>

record 'x candidates_args =
  ca_market :: "'x MarketDataProvider"
  ca_llm :: "'x LlmClient option"
  ca_coerce :: "json \<Rightarrow> (LlmResponse, string list) result"
  ca_rules :: RuleSet
  ca_limits :: DerivedLimits
  ca_clock :: "'x Clock"
  ca_uuid4 :: "'x \<Rightarrow> string \<times> 'x"
  ca_cycle_id :: string
  ca_rule_set_sha256 :: string
  ca_mode :: string
  ca_loss_breach :: "LossLimitBreach option"
  ca_market_open :: bool

fun skip_all :: "('x \<Rightarrow> string \<times> 'x) \<Rightarrow> llm_context \<Rightarrow> (string \<times> Evidence) list \<Rightarrow> string \<Rightarrow> string list \<Rightarrow> 'x
    \<Rightarrow> Decision list \<times> 'x" where
  "skip_all uuid4 cx evidence_by_ticker reason [] x = ([], x)"
| "skip_all uuid4 cx evidence_by_ticker reason (ticker # ts) x =
    (let (u, x1) = uuid4 x;
         d = skip_decision cx ticker reason (case map_of evidence_by_ticker ticker of
           Some e \<Rightarrow> e_mention_ids e | None \<Rightarrow> []) u;
         (ds, x2) = skip_all uuid4 cx evidence_by_ticker reason ts x1 in
     (d # ds, x2))"

text \<open>The proposals of a batch in order; a buy that passes joins the held tickers.\<close>

definition check_proposal :: "'x candidates_args \<Rightarrow> string list \<Rightarrow> LlmProposal \<Rightarrow> Price \<Rightarrow> int \<Rightarrow> (EntryPlan, RuleRejection) result" where
  "check_proposal a batch_held proposal price avg_volume =
     check_entry (lp_ticker proposal) (ca_rules a) (ca_limits a) batch_held (ca_market_open a)
       price avg_volume (ca_loss_breach a)"

fun decide_proposals :: "'x candidates_args \<Rightarrow> llm_context \<Rightarrow> priced_candidates \<Rightarrow> string list \<Rightarrow> LlmProposal list \<Rightarrow> 'x
    \<Rightarrow> Decision list py_call \<times> 'x" where
  "decide_proposals a cx pc batch_held [] x = (Returns [], x)"
| "decide_proposals a cx pc batch_held (p # ps) x =
    (if lp_action p \<noteq> LA_buy then
       (let (u, x1) = ca_uuid4 a x in
        case decide_proposals a cx pc batch_held ps x1 of
          (Raises e, x2) \<Rightarrow> (Raises e, x2)
        | (Returns ds, x2) \<Rightarrow> (Returns (non_buy_decision cx p u # ds), x2))
     else (case (map_of (pc_priced pc) (lp_ticker p), map_of (pc_avg_volumes pc) (lp_ticker p)) of
       (Some price, Some avg_volume) \<Rightarrow>
         (let entry_result = check_proposal a batch_held p price avg_volume;
              (u, x1) = ca_uuid4 a x;
              held' = (if is_ok entry_result then List.insert (lp_ticker p) batch_held else batch_held) in
          case decide_proposals a cx pc held' ps x1 of
            (Raises e, x2) \<Rightarrow> (Raises e, x2)
          | (Returns ds, x2) \<Rightarrow> (Returns (buy_decision cx (ca_rules a) p entry_result u # ds), x2))
     | _ \<Rightarrow> (Raises ''KeyError'', x)))"

definition ask_llm :: "'x candidates_args \<Rightarrow> datetime \<Rightarrow> string list \<Rightarrow> (string \<times> Evidence) list \<Rightarrow> priced_candidates \<Rightarrow> 'x
    \<Rightarrow> Decision list py_call \<times> 'x" where
  "ask_llm a now held_tickers evidence_by_ticker pc x =
    (let cx = \<lparr>lc_cycle_id = ca_cycle_id a, lc_now = now, lc_mode = ca_mode a,
         lc_rule_set_sha256 = ca_rule_set_sha256 a, lc_llm_model = None, lc_prompt_sha256 = None,
         lc_response_sha256 = None\<rparr> in
     case ca_llm a of
       None \<Rightarrow> (let (ds, x1) = skip_all (ca_uuid4 a) cx evidence_by_ticker ''no llm client configured'' (pc_final pc) x in
         (Returns ds, x1))
     | Some llm \<Rightarrow>
       (let rules_text = rules_summary (ca_rules a) (ca_limits a);
            evidences = List.map_filter (map_of evidence_by_ticker) (pc_final pc);
            prompt = build_prompt rules_text evidences (pc_bars pc) (pc_final pc) in
        case propose (ca_coerce a) llm prompt (pc_final pc) x of
          (Raises e, x1) \<Rightarrow> (Raises e, x1)
        | (Returns an, x1) \<Rightarrow>
          (let cx' = cx\<lparr>lc_llm_model := Some (an_llm_model an), lc_prompt_sha256 := or_none (an_prompt_sha256 an),
               lc_response_sha256 := or_none (an_response_sha256 an)\<rparr> in
           case an_skipped_reason an of
             Some reason \<Rightarrow> (let (ds, x2) = skip_all (ca_uuid4 a) cx' evidence_by_ticker reason (pc_final pc) x1 in
               (Returns ds, x2))
           | None \<Rightarrow> decide_proposals a cx' pc (remdups held_tickers) (an_proposals an) x1)))"

fun insert_decisions :: "Decision list \<Rightarrow> conn \<Rightarrow> (unit, CandidatesError) result \<times> conn" where
  "insert_decisions [] c = (Ok (), c)"
| "insert_decisions (d # ds) c = (case insert_decision c d of
     (Err e, c') \<Rightarrow> (Err e, c')
   | (Ok _, c') \<Rightarrow> insert_decisions ds c')"

definition evaluate_candidates :: "'x candidates_args \<Rightarrow> Mention list \<Rightarrow> string list \<Rightarrow> 'x engine
    \<Rightarrow> (CandidatesOutcome, CandidatesError) result py_call \<times> 'x engine" where
  "evaluate_candidates a ms held_tickers s =
    (let (now, x1) = ca_clock a (eng_world s);
         evidence_by_ticker = map (\<lambda>e. (e_ticker e, e)) (build_evidence ms now default_window_days);
         candidate_tickers = select_candidates (map snd evidence_by_ticker) held_tickers
           (excluded_tickers (rs_entry (ca_rules a)));
         (pc, x2) = price_candidates (ca_market a) candidate_tickers no_prices x1 in
     if pc_final pc = [] then (Returns (Ok []), s\<lparr>eng_world := x2\<rparr>)
     else (case ask_llm a now held_tickers evidence_by_ticker pc x2 of
       (Raises e, x3) \<Rightarrow> (Raises e, s\<lparr>eng_world := x3\<rparr>)
     | (Returns ds, x3) \<Rightarrow> (case insert_decisions ds (eng_conn s) of
         (Err e, c) \<Rightarrow> (Returns (Err e), s\<lparr>eng_world := x3, eng_conn := c\<rparr>)
       | (Ok _, c) \<Rightarrow> (Returns (Ok ds), s\<lparr>eng_world := x3, eng_conn := c\<rparr>))))"

section \<open>Selection\<close>

lemma select_candidates_facts:
  assumes "distinct (map e_ticker es)"
  shows "distinct (select_candidates es held excluded)"
    and "length (select_candidates es held excluded) \<le> max_candidates"
    and "t \<in> set (select_candidates es held excluded)
      \<Longrightarrow> \<exists>e \<in> set es. e_ticker e = t \<and> eligible held excluded e"
  using distinct_map_take [OF distinct_map_sort_key [OF distinct_map_filter [OF assms]]]
  by (auto simp: select_candidates_def dest!: in_set_takeD)

text \<open>Whoever is left out is ranked behind everyone who is taken.\<close>

lemma ranked_behind:
  assumes "e \<in> set es" "eligible held excluded e" "e_ticker e \<notin> set (select_candidates es held excluded)"
    and "f \<in> set (take max_candidates (sort_key candidate_rank (filter (eligible held excluded) es)))"
  shows "candidate_rank f \<le> candidate_rank e"
proof -
  let ?r = "sort_key candidate_rank (filter (eligible held excluded) es)"
  have "sorted (map candidate_rank (take max_candidates ?r @ drop max_candidates ?r))"
    by (simp only: append_take_drop_id) simp
  then have "\<forall>x \<in> set (take max_candidates ?r). \<forall>y \<in> set (drop max_candidates ?r). candidate_rank x \<le> candidate_rank y"
    by (simp only: map_append sorted_append) simp
  moreover have "e \<notin> set (take max_candidates ?r)" using assms(3) by (auto simp: select_candidates_def)
  moreover have "e \<in> set ?r" using assms(1,2) by simp
  then have "e \<in> set (take max_candidates ?r @ drop max_candidates ?r)" by (simp only: append_take_drop_id)
  then have "e \<in> set (take max_candidates ?r) \<union> set (drop max_candidates ?r)" by (simp only: set_append)
  ultimately show ?thesis using assms(4) by blast
qed

text \<open>
  C28: at most twenty tickers become candidates, all different; each was mentioned in the last
  fourteen days, is not held and not excluded; and a ticker that would qualify but is left out has
  no more recent mentions than any that is taken.
\<close>

theorem candidates_are_strongest:
  fixes held excluded :: "string list" and ms :: "Mention list" and now :: datetime
  defines "es \<equiv> build_evidence ms now default_window_days"
  defines "chosen \<equiv> select_candidates es held excluded"
  shows "length chosen \<le> 20 \<and> distinct chosen \<and> set chosen \<inter> set held = {} \<and> set chosen \<inter> set excluded = {}
    \<and> (\<forall>t \<in> set chosen. \<exists>f \<in> set es. e_ticker f = t \<and> 0 < ms_mention_count_last_14d (e_stats f)
        \<and> (\<forall>e \<in> set es. eligible held excluded e \<longrightarrow> e_ticker e \<in> set chosen
            \<or> ms_mention_count_last_14d (e_stats e) \<le> ms_mention_count_last_14d (e_stats f)))"
proof (intro conjI ballI)
  note facts = select_candidates_facts [OF distinct_evidence [of ms now default_window_days, folded es_def],
    where held = held and excluded = excluded, folded chosen_def]
  show "length chosen \<le> 20" "distinct chosen" using facts(1,2) by (simp_all add: max_candidates_def)
  show "set chosen \<inter> set held = {}" "set chosen \<inter> set excluded = {}"
    using facts(3) by (auto simp: eligible_def)
  fix t assume "t \<in> set chosen"
  then obtain f where f: "f \<in> set (take max_candidates (sort_key candidate_rank (filter (eligible held excluded) es)))"
    and t: "e_ticker f = t" by (auto simp: chosen_def select_candidates_def)
  then have "f \<in> set es" "eligible held excluded f" by (auto dest!: in_set_takeD)
  moreover have "ms_mention_count_last_14d (e_stats e) \<le> ms_mention_count_last_14d (e_stats f)"
    if "e \<in> set es" "eligible held excluded e" "e_ticker e \<notin> set chosen" for e
    using ranked_behind [OF that(1,2) that(3) [unfolded chosen_def] f] by (auto simp: candidate_rank_def)
  ultimately show "\<exists>f \<in> set es. e_ticker f = t \<and> 0 < ms_mention_count_last_14d (e_stats f)
        \<and> (\<forall>e \<in> set es. eligible held excluded e \<longrightarrow> e_ticker e \<in> set chosen
            \<or> ms_mention_count_last_14d (e_stats e) \<le> ms_mention_count_last_14d (e_stats f))"
    using t by (intro bexI [of _ f]) (auto simp: eligible_def)
qed

section \<open>Prices\<close>

text \<open>Every priced candidate has its price, bars and volume, and was a candidate.\<close>

definition priced_ok :: "priced_candidates \<Rightarrow> bool" where
  "priced_ok pc \<longleftrightarrow> (\<forall>t \<in> set (pc_final pc). map_of (pc_priced pc) t \<noteq> None \<and> map_of (pc_avg_volumes pc) t \<noteq> None)"

lemma priced_ok_add: "priced_ok pc \<Longrightarrow> priced_ok (add_priced t p bs pc)"
  by (auto simp: priced_ok_def add_priced_def update_conv')

lemma price_candidates_ok:
  "price_candidates market ts pc x = (pc', x') \<Longrightarrow> priced_ok pc
    \<Longrightarrow> priced_ok pc' \<and> (\<exists>us. pc_final pc' = pc_final pc @ us \<and> set us \<subseteq> set ts)"
proof (induction ts arbitrary: pc x)
  case (Cons t ts)
  obtain pr x1 where 1: "latest_price market t x = (pr, x1)" by fastforce
  obtain br x2 where 2: "daily_bars market t 20 x1 = (br, x2)" by fastforce
  show ?case
  proof (cases "\<exists>p bs. pr = Ok p \<and> br = Ok bs")
    case True
    then obtain p bs where ok: "pr = Ok p" "br = Ok bs" by blast
    have "price_candidates market ts (add_priced t p bs pc) x2 = (pc', x')" using Cons.prems(1) 1 2 ok by simp
    from Cons.IH [OF this priced_ok_add [OF Cons.prems(2)]] obtain us where
      "priced_ok pc'" "pc_final pc' = (pc_final pc @ [t]) @ us" "set us \<subseteq> set ts"
      by (auto simp: add_priced_def)
    then show ?thesis by (intro conjI exI [of _ "t # us"]) auto
  next
    case False
    then have "price_candidates market ts pc x2 = (pc', x')"
      using Cons.prems(1) 1 2 by (auto split: result.splits)
    from Cons.IH [OF this Cons.prems(2)] show ?thesis by auto
  qed
qed simp

section \<open>What a batch decides\<close>

definition bought :: "Decision list \<Rightarrow> string list" where
  "bought ds = map d_ticker (filter (\<lambda>d. d_rule_check d = RC_passed) ds)"

lemma bought_simps [simp]:
  "bought [] = []" "bought (skip_decision cx t r ids u # ds) = bought ds"
  "bought (non_buy_decision cx p u # ds) = bought ds"
  "bought (buy_decision cx rules p res u # ds) = (if is_ok res then [lp_ticker p] else []) @ bought ds"
  by (auto simp: bought_def skip_decision_def non_buy_decision_def buy_decision_def is_ok_def split: result.splits)

text \<open>No decision of the LLM sells, and only a buy that passed the entry checks is passed.\<close>

definition batch_ok :: "'x candidates_args \<Rightarrow> Decision \<Rightarrow> bool" where
  "batch_ok a d \<longleftrightarrow> d_origin d = Origin_llm \<and> d_action d \<noteq> Action_sell \<and> (d_rule_check d = RC_passed \<longrightarrow>
     d_action d = Action_buy \<and> ca_market_open a \<and> ca_loss_breach a = None
     \<and> d_ticker d \<notin> set (excluded_tickers (rs_entry (ca_rules a)))
     \<and> (\<exists>holdings price avg plan. check_entry (d_ticker d) (ca_rules a) (ca_limits a) holdings (ca_market_open a)
          price avg (ca_loss_breach a) = Ok plan \<and> d_proposed_notional d = Some (ep_notional plan)
          \<and> d_reference_price d = Some (ep_reference_price plan)))"

lemma batch_ok_skip [simp]: "batch_ok a (skip_decision cx t r ids u)"
  by (simp add: batch_ok_def skip_decision_def)

lemma batch_ok_non_buy [simp]: "batch_ok a (non_buy_decision cx p u)"
  by (simp add: batch_ok_def non_buy_decision_def llm_action_def split: LlmAction.split)

lemma batch_ok_buy [simp]: "batch_ok a (buy_decision cx (ca_rules a) p (check_proposal a held p price avg) u)"
proof (cases "check_proposal a held p price avg")
  case (Ok plan)
  then have "check_entry (lp_ticker p) (ca_rules a) (ca_limits a) held (ca_market_open a) price avg (ca_loss_breach a) = Ok plan"
    by (simp add: check_proposal_def)
  moreover from this have "entry_allowed (lp_ticker p) (ca_rules a) (ca_limits a) held (ca_market_open a) price avg (ca_loss_breach a)"
    using check_entry_ok_iff by (metis is_ok_simps(1))
  ultimately show ?thesis
    unfolding batch_ok_def by (simp add: buy_decision_def Ok entry_allowed_def) blast
qed (simp add: batch_ok_def buy_decision_def)

lemma skip_all_facts:
  "skip_all uuid4 cx ev r ts x = (ds, x') \<Longrightarrow> bought ds = [] \<and> (\<forall>d \<in> set ds. batch_ok a d)"
  by (induction ts arbitrary: x ds) (auto simp: Let_def split: prod.splits)

text \<open>What passes in a batch is new, and fits beside what is held.\<close>

definition fits :: "'x candidates_args \<Rightarrow> string list \<Rightarrow> string list \<Rightarrow> bool" where
  "fits a held new \<longleftrightarrow> distinct new \<and> set new \<inter> set held = {}
     \<and> (new \<noteq> [] \<longrightarrow> int (length held + length new) \<le> max_concurrent_positions (rs_position (ca_rules a)))"

lemma fits_insert:
  assumes "is_ok (check_proposal a held p price avg)" "fits a (List.insert (lp_ticker p) held) new"
  shows "fits a held (lp_ticker p # new)"
proof -
  have "entry_allowed (lp_ticker p) (ca_rules a) (ca_limits a) held (ca_market_open a) price avg (ca_loss_breach a)"
    using assms(1) by (simp add: check_proposal_def check_entry_ok_iff)
  then have "lp_ticker p \<notin> set held" "int (length held) < max_concurrent_positions (rs_position (ca_rules a))"
    by (simp_all add: entry_allowed_def)
  then show ?thesis using assms(2) by (auto simp: fits_def)
qed

lemma decide_proposals_facts:
  "decide_proposals a cx pc held ps x = (Returns ds, x') \<Longrightarrow> fits a held (bought ds) \<and> (\<forall>d \<in> set ds. batch_ok a d)"
proof (induction ps arbitrary: held x ds)
  case Nil
  then show ?case by (simp add: fits_def)
next
  case (Cons p ps)
  obtain u x1 where u: "ca_uuid4 a x = (u, x1)" by fastforce
  show ?case
  proof (cases "lp_action p = LA_buy")
    case False
    then obtain ds' where "decide_proposals a cx pc held ps x1 = (Returns ds', x')" "ds = non_buy_decision cx p u # ds'"
      using Cons.prems u by (auto split: py_call.splits prod.splits)
    then show ?thesis using Cons.IH by auto
  next
    case True
    then obtain price avg where "map_of (pc_priced pc) (lp_ticker p) = Some price" "map_of (pc_avg_volumes pc) (lp_ticker p) = Some avg"
      using Cons.prems by (auto split: option.splits)
    note mp = this
    let ?r = "check_proposal a held p price avg"
    let ?h = "if is_ok ?r then List.insert (lp_ticker p) held else held"
    obtain ds' where r: "decide_proposals a cx pc ?h ps x1 = (Returns ds', x')"
      and ds: "ds = buy_decision cx (ca_rules a) p ?r u # ds'"
      using Cons.prems u True mp by (auto simp: Let_def split: py_call.splits prod.splits)
    have ih: "fits a ?h (bought ds')" "\<forall>d \<in> set ds'. batch_ok a d" using Cons.IH [OF r] by simp_all
    then have "fits a held (bought ds)"
      using fits_insert [of a held p price avg "bought ds'"] by (auto simp: ds)
    then show ?thesis using ih(2) by (simp add: ds)
  qed
qed

text \<open>Every proposal names a priced candidate, so no lookup fails.\<close>

lemma decide_proposals_returns:
  "\<forall>p \<in> set ps. map_of (pc_priced pc) (lp_ticker p) \<noteq> None \<and> map_of (pc_avg_volumes pc) (lp_ticker p) \<noteq> None
    \<Longrightarrow> \<exists>ds x'. decide_proposals a cx pc held ps x = (Returns ds, x')"
proof (induction ps arbitrary: held x)
  case (Cons p ps)
  obtain u x1 where u: "ca_uuid4 a x = (u, x1)" by fastforce
  obtain price avg where "map_of (pc_priced pc) (lp_ticker p) = Some price" "map_of (pc_avg_volumes pc) (lp_ticker p) = Some avg"
    using Cons.prems by auto
  moreover obtain ds1 x2 ds2 x3 where "decide_proposals a cx pc held ps x1 = (Returns ds1, x2)"
    "decide_proposals a cx pc (if is_ok (check_proposal a held p price avg) then List.insert (lp_ticker p) held else held) ps x1 = (Returns ds2, x3)"
    using Cons by (metis list.set_intros(2))
  ultimately show ?case using u by (simp add: Let_def)
qed simp

lemma ask_llm_facts:
  assumes "ask_llm a now held ev pc x = (Returns ds, x')"
  shows "fits a (remdups held) (bought ds) \<and> (\<forall>d \<in> set ds. batch_ok a d)"
proof -
  have nothing_bought: "fits a (remdups held) []" by (simp add: fits_def)
  show ?thesis
  proof (cases "ca_llm a")
    case None
    then show ?thesis using assms nothing_bought
      by (auto simp: ask_llm_def Let_def split: prod.splits dest!: skip_all_facts [where a = a])
  next
    case (Some llm)
    then show ?thesis using assms nothing_bought
      by (auto simp: ask_llm_def Let_def split: prod.splits py_call.splits option.splits
          dest!: skip_all_facts [where a = a] dest: decide_proposals_facts)
  qed
qed

text \<open>The calls of one evaluation.\<close>

lemma evaluate_candidates_cases:
  assumes "evaluate_candidates a ms held s = (r, s')"
  obtains (no_candidates) x where "r = Returns (Ok [])" "s' = s\<lparr>eng_world := x\<rparr>"
  | (escaped) e x where "r = Raises e" "s' = s\<lparr>eng_world := x\<rparr>"
  | (asked) ds now ev pc x x' ir c where "ask_llm a now held ev pc x = (Returns ds, x')"
      "insert_decisions ds (eng_conn s) = (ir, c)" "s' = s\<lparr>eng_world := x', eng_conn := c\<rparr>"
      "r = (case ir of Ok _ \<Rightarrow> Returns (Ok ds) | Err e \<Rightarrow> Returns (Err e))"
proof -
  obtain now x1 where 1: "ca_clock a (eng_world s) = (now, x1)" by fastforce
  let ?ev = "map (\<lambda>e. (e_ticker e, e)) (build_evidence ms now default_window_days)"
  obtain pc x2 where 2: "price_candidates (ca_market a) (select_candidates (map snd ?ev) held
      (excluded_tickers (rs_entry (ca_rules a)))) no_prices x1 = (pc, x2)" by fastforce
  obtain ar x3 where 3: "ask_llm a now held ?ev pc x2 = (ar, x3)" by fastforce
  note run = assms [unfolded evaluate_candidates_def Let_def 1 prod.case 2 3]
  show thesis
  proof (cases "pc_final pc = []")
    case True
    then show thesis using run no_candidates by auto
  next
    case False
    show thesis
    proof (cases ar)
      case (Raises e)
      then show thesis using run False escaped by auto
    next
      case (Returns ds)
      obtain ir c where "insert_decisions ds (eng_conn s) = (ir, c)" by fastforce
      then show thesis using run False asked [of now ?ev pc x2 ds x3 ir c] 3 Returns by (cases ir) auto
    qed
  qed
qed

text \<open>
  C9: the buys that pass within one evaluation are of different tickers, none of them held or
  excluded, and together with the held ones they do not exceed the permitted number of positions;
  they pass only while the market is open and no loss limit is reached, and no decision sells.
\<close>

theorem batch_keeps_position_limit:
  assumes "evaluate_candidates a ms held s = (Returns (Ok ds), s')"
  shows "distinct (bought ds) \<and> set (bought ds) \<inter> set held = {}
    \<and> set (bought ds) \<inter> set (excluded_tickers (rs_entry (ca_rules a))) = {}
    \<and> (bought ds \<noteq> [] \<longrightarrow> ca_market_open a \<and> ca_loss_breach a = None
        \<and> int (card (set held) + length (bought ds)) \<le> max_concurrent_positions (rs_position (ca_rules a)))
    \<and> (\<forall>d \<in> set ds. d_action d \<noteq> Action_sell \<and> (d_rule_check d = RC_passed \<longrightarrow> d_action d = Action_buy))"
  using assms
proof (cases rule: evaluate_candidates_cases)
  case (asked ds' now ev pc x x' ir c)
  then have "ds' = ds" by (auto split: result.splits)
  then have f: "fits a (remdups held) (bought ds)" and b: "\<forall>d \<in> set ds. batch_ok a d"
    using ask_llm_facts [OF asked(1)] by simp_all
  have "length (remdups held) = card (set held)" by (simp add: length_remdups_card_conv)
  moreover have "set (bought ds) \<inter> set (excluded_tickers (rs_entry (ca_rules a))) = {}"
    using b by (auto simp: bought_def batch_ok_def)
  moreover have "ca_market_open a \<and> ca_loss_breach a = None" if "bought ds \<noteq> []"
    using b that by (auto simp: bought_def batch_ok_def filter_empty_conv)
  ultimately show ?thesis using f b by (simp add: fits_def) (simp add: batch_ok_def)
qed simp_all

section \<open>Candidates submit nothing\<close>

lemma quiet_insert_decisions [frame]:
  "insert_decisions ds c = (r, c') \<Longrightarrow> same_store c c' \<and> same_books (working c) (working c')
    \<and> positions (working c') = positions (working c) \<and> (schema_ok (working c) \<longrightarrow> schema_ok (working c'))"
proof (induction ds arbitrary: c)
  case (Cons d ds)
  obtain r1 c1 where 1: "insert_decision c d = (r1, c1)" by fastforce
  note e = insert_decision_effect [OF 1] same_store_insert_decision [OF 1]
  show ?case
  proof (cases r1)
    case (Ok v)
    then have "insert_decisions ds c1 = (r, c')" using Cons.prems 1 by simp
    from Cons.IH [OF this] e show ?thesis by (auto intro: same_store_trans same_books_trans)
  next
    case (Err m)
    then show ?thesis using Cons.prems 1 e by simp
  qed
qed simp

lemma quiet_evaluate_candidates [frame]:
  assumes "evaluate_candidates a ms held s = (r, s')" shows "quiet_step s s'"
  using assms
proof (cases rule: evaluate_candidates_cases)
  case (asked ds now ev pc x x' ir c)
  show ?thesis unfolding asked(3) using quiet_insert_decisions [OF asked(2)] by (intro quiet_step_conn) blast+
qed simp_all

section \<open>A batch of one\<close>

definition sample_bar :: Bar where
  "sample_bar = \<lparr>bar_ticker = ''AXTI'', bar_date = 0, bar_open = Price 123400, bar_high = Price 123400,
     bar_low = Price 123400, bar_close = Price 123400, bar_volume = 900000\<rparr>"

definition sample_market :: FakeMarketData where
  "sample_market = \<lparr>fm_prices = [''AXTI'' \<mapsto> Price 123400], fm_bars = [''AXTI'' \<mapsto> [sample_bar]],
     fm_clock = sample_hours, fm_errors = []\<rparr>"

definition sample_proposal :: LlmProposal where
  "sample_proposal = \<lparr>lp_ticker = ''AXTI'', lp_action = LA_buy, lp_confidence = dec_of_int 1,
     lp_rationale = ''mentioned'', lp_evidence_mention_ids = [''m1'']\<rparr>"

definition sample_llm :: "'x LlmClient" where
  "sample_llm = \<lparr>llm_model = ''model'', llm_complete = (\<lambda>prompt x. (Ok \<lparr>lr_text = ''[]'', lr_model = ''model'',
     lr_prompt_sha256 = ''p'', lr_response_sha256 = ''r''\<rparr>, x))\<rparr>"

definition sample_batch :: "FakeMarketData candidates_args" where
  "sample_batch = \<lparr>ca_market = fake_market, ca_llm = Some sample_llm, ca_coerce = (\<lambda>j. Ok [sample_proposal]),
     ca_rules = shipped_rules, ca_limits = derive_limits shipped_rules, ca_clock = (\<lambda>x. (0, x)),
     ca_uuid4 = (\<lambda>x. (''cd34'', x)), ca_cycle_id = ''cycle_1'', ca_rule_set_sha256 = ''ab12'',
     ca_mode = ''paper'', ca_loss_breach = None, ca_market_open = True\<rparr>"

lemma sample_adopted: "parse_llm_response (\<lambda>j. Ok [sample_proposal]) ''[]'' [''AXTI''] = Returns (Ok [sample_proposal])"
proof -
  have "strip_text ''[]'' = ''[]''" by (rule strip_text_visible) (simp_all add: visible_def byte_def)
  then have "strip_code_fence ''[]'' = ''[]''" by (simp add: strip_code_fence_def Let_def fence_def)
  moreover have "json_loads ''[]'' = Ok (JArray [])"
    using json_loads_dumps [of "[]"] by (simp add: json_dumps_strings_def)
  moreover have "text_length ''mentioned'' = 9"
    using code_points_ascii [of "''mentioned''"] by (simp add: text_length_def is_ascii_def byte_def)
  ultimately show ?thesis
    by (simp add: parse_llm_response_Ok proposal_ok_def sample_proposal_def)
qed

lemma sample_selection:
  "select_candidates (build_evidence [sample_mention ''AXTI'' 0] 0 default_window_days) [''AEHR'']
    (excluded_tickers (rs_entry shipped_rules)) = [''AXTI'']"
proof -
  have "build_evidence [sample_mention ''AXTI'' 0] 0 default_window_days
      = [ticker_evidence (- (default_window_days * microseconds_per_day)) (- (default_window_days * 2 * microseconds_per_day))
          ''AXTI'' [sample_mention ''AXTI'' 0]]"
    by (simp add: build_evidence_eq group_by_ticker_def sample_mention_def)
  then show ?thesis
    by (simp add: select_candidates_def eligible_def ticker_evidence_def sample_mention_def shipped_rules_def
        default_window_days_def max_candidates_def)
qed

lemma sample_priced:
  "price_candidates fake_market [''AXTI''] no_prices sample_market =
    (\<lparr>pc_priced = [(''AXTI'', Price 123400)], pc_bars = [(''AXTI'', [sample_bar])],
      pc_avg_volumes = [(''AXTI'', 900000)], pc_final = [''AXTI'']\<rparr>, sample_market)"
  by (simp add: fake_market_def fake_latest_price_def fake_daily_bars_def sample_market_def Let_def last_n_def
      no_prices_def add_priced_def average_volume_def sample_bar_def)

theorem candidates_are_strongest_witness:
  "select_candidates (build_evidence [sample_mention ''AXTI'' 0] 0 default_window_days) [''AEHR'']
     (excluded_tickers (rs_entry shipped_rules)) = [''AXTI'']
   \<and> ''AXTI'' \<notin> set (excluded_tickers (rs_entry shipped_rules))"
proof -
  from candidates_are_strongest [of "[sample_mention ''AXTI'' 0]" 0 "[''AEHR'']" "excluded_tickers (rs_entry shipped_rules)"]
  have "set [''AXTI''] \<inter> set (excluded_tickers (rs_entry shipped_rules)) = {}" unfolding sample_selection by blast
  then show ?thesis by (simp add: sample_selection)
qed

lemma sample_ask:
  "\<exists>cx. ask_llm sample_batch 0 [''AEHR''] ev
      \<lparr>pc_priced = [(''AXTI'', Price 123400)], pc_bars = [(''AXTI'', [sample_bar])],
        pc_avg_volumes = [(''AXTI'', 900000)], pc_final = [''AXTI'']\<rparr> sample_market
    = (Returns [buy_decision cx shipped_rules sample_proposal
        (check_proposal sample_batch [''AEHR''] sample_proposal (Price 123400) 900000) ''cd34''], sample_market)
    \<and> lc_cycle_id cx = ''cycle_1'' \<and> lc_rule_set_sha256 cx = ''ab12''"
proof -
  have p: "propose (\<lambda>j. Ok [sample_proposal]) sample_llm prompt [''AXTI''] sample_market
      = (Returns \<lparr>an_proposals = [sample_proposal], an_llm_model = ''model'', an_prompt_sha256 = ''p'',
          an_response_sha256 = ''r'', an_skipped_reason = None\<rparr>, sample_market)" for prompt
    by (simp add: propose_def sample_llm_def sample_adopted)
  have s: "ca_llm sample_batch = Some sample_llm" "ca_coerce sample_batch = (\<lambda>j. Ok [sample_proposal])"
    "ca_uuid4 sample_batch = (\<lambda>x. (''cd34'', x))" "ca_rules sample_batch = shipped_rules"
    "ca_cycle_id sample_batch = ''cycle_1''" "ca_rule_set_sha256 sample_batch = ''ab12''"
    by (simp_all add: sample_batch_def)
  have "lp_action sample_proposal = LA_buy" "lp_ticker sample_proposal = ''AXTI''" by (simp_all add: sample_proposal_def)
  then show ?thesis
    by (simp add: ask_llm_def Let_def s p) (intro exI conjI, rule refl, simp_all)
qed

lemma sample_evaluation:
  "\<exists>ds s'. evaluate_candidates sample_batch [sample_mention ''AXTI'' 0] [''AEHR'']
      \<lparr>eng_conn = open_conn sample_db (\<lambda>_. None), eng_world = sample_market, eng_log = []\<rparr> = (Returns (Ok ds), s')
    \<and> bought ds = [''AXTI'']"
proof -
  let ?s = "\<lparr>eng_conn = open_conn sample_db (\<lambda>_. None), eng_world = sample_market, eng_log = []\<rparr> :: FakeMarketData engine"
  let ?r = "check_proposal sample_batch [''AEHR''] sample_proposal (Price 123400) 900000"
  let ?ev = "map (\<lambda>e. (e_ticker e, e)) (build_evidence [sample_mention ''AXTI'' 0] 0 default_window_days)"
  obtain cx where a: "ask_llm sample_batch 0 [''AEHR''] ?ev
      \<lparr>pc_priced = [(''AXTI'', Price 123400)], pc_bars = [(''AXTI'', [sample_bar])],
        pc_avg_volumes = [(''AXTI'', 900000)], pc_final = [''AXTI'']\<rparr> sample_market
    = (Returns [buy_decision cx shipped_rules sample_proposal ?r ''cd34''], sample_market)"
    and cx: "lc_cycle_id cx = ''cycle_1''" "lc_rule_set_sha256 cx = ''ab12''"
    using sample_ask [of ?ev] by blast
  let ?d = "buy_decision cx shipped_rules sample_proposal ?r ''cd34''"
  have "d_cycle_id ?d = ''cycle_1''" "d_rule_set_sha256 ?d = ''ab12''" by (simp_all add: buy_decision_def cx)
  then obtain c where i: "insert_decision (open_conn sample_db (\<lambda>_. None)) ?d = (Ok ?d, c)"
    by (simp add: insert_decision_Ok open_conn_def sample_db_def empty_db_def has_key_def)
  have "ca_clock sample_batch x = (0, x)" "ca_market sample_batch = fake_market" "ca_rules sample_batch = shipped_rules" for x
    by (simp_all add: sample_batch_def)
  moreover have "map snd ?ev = build_evidence [sample_mention ''AXTI'' 0] 0 default_window_days" by (simp add: comp_def)
  ultimately have "evaluate_candidates sample_batch [sample_mention ''AXTI'' 0] [''AEHR''] ?s
      = (Returns (Ok [?d]), ?s\<lparr>eng_world := sample_market, eng_conn := c\<rparr>)"
    unfolding evaluate_candidates_def
    by (simp add: sample_selection sample_priced a i del: price_candidates.simps)
  moreover have "is_ok ?r"
    using shipped_entry by (simp add: check_proposal_def sample_proposal_def sample_batch_def)
  then have "bought [?d] = [''AXTI'']" by (simp add: sample_proposal_def)
  ultimately show ?thesis by blast
qed

theorem batch_keeps_position_limit_witness:
  "\<exists>ds s'. evaluate_candidates sample_batch [sample_mention ''AXTI'' 0] [''AEHR'']
      \<lparr>eng_conn = open_conn sample_db (\<lambda>_. None), eng_world = sample_market, eng_log = []\<rparr> = (Returns (Ok ds), s')
    \<and> bought ds = [''AXTI''] \<and> 2 \<le> max_concurrent_positions (rs_position (ca_rules sample_batch))"
proof -
  obtain ds s' where e: "evaluate_candidates sample_batch [sample_mention ''AXTI'' 0] [''AEHR'']
      \<lparr>eng_conn = open_conn sample_db (\<lambda>_. None), eng_world = sample_market, eng_log = []\<rparr> = (Returns (Ok ds), s')"
    "bought ds = [''AXTI'']" using sample_evaluation by blast
  from batch_keeps_position_limit [OF e(1)] e show ?thesis by auto
qed

end
