(* ===== verification/Fills.thy ===== *)
theory Fills
  imports Order_Executor
begin

text \<open>
  engine/fills.py: polling the broker for one order, recording each new fill and settling it into
  the position or a closed trade. The accumulated profit of an open position is rebuilt by
  replaying its recorded fills. The loop is \<open>partial_function (option)\<close>: its value is \<open>None\<close> exactly
  when it does not return.
\<close>

type_synonym FillsError = string

record PollOutcome =
  po_fills_recorded :: int
  po_final_status :: OrderStatus

definition terminal_statuses :: "OrderStatus list" where
  "terminal_statuses = [OS_filled, OS_canceled, OS_rejected]"

section \<open>Replaying the fills of an open position\<close>

record ReplayState =
  rp_entry_decision_id :: "string option"
  rp_exit_decision_ids :: "string list"
  rp_realized_so_far :: Money
  rp_fees_so_far :: Money
  rp_qty :: int
  rp_avg_cost :: "Price option"

definition empty_replay_state :: ReplayState where
  "empty_replay_state = \<lparr>rp_entry_decision_id = None, rp_exit_decision_ids = [],
     rp_realized_so_far = zero_money, rp_fees_so_far = zero_money, rp_qty = 0, rp_avg_cost = None\<rparr>"

definition replay_buy :: "ReplayState \<Rightarrow> FillContext \<Rightarrow> ReplayState" where
  "replay_buy state ctx = (case rp_avg_cost state of
     None \<Rightarrow> state\<lparr>rp_entry_decision_id := Some (fc_decision_id ctx),
       rp_qty := shares (f_qty (fc_fill ctx)), rp_avg_cost := Some (f_price (fc_fill ctx))\<rparr>
   | Some avg_cost \<Rightarrow>
       let total_shares = rp_qty state + shares (f_qty (fc_fill ctx));
           new_avg_cost = mk_Price (dquot
             (dadd (price_times avg_cost (rp_qty state))
               (price_times (f_price (fc_fill ctx)) (shares (f_qty (fc_fill ctx)))))
             (dec_of_int total_shares)) in
       state\<lparr>rp_qty := total_shares, rp_avg_cost := Some new_avg_cost\<rparr>)"

definition replay_sell :: "ReplayState \<Rightarrow> FillContext \<Rightarrow> ReplayState" where
  "replay_sell state ctx =
    (let avg_cost = (case rp_avg_cost state of Some a \<Rightarrow> a | None \<Rightarrow> mk_Price (dec_of_int 0));
         pnl = money_sub (mk_Money (dmul (dsub (price_amount (f_price (fc_fill ctx))) (price_amount avg_cost))
           (dec_of_int (shares (f_qty (fc_fill ctx)))))) (f_fee (fc_fill ctx)) in
     state\<lparr>rp_exit_decision_ids := rp_exit_decision_ids state @ [fc_decision_id ctx],
       rp_realized_so_far := money_add (rp_realized_so_far state) pnl,
       rp_fees_so_far := money_add (rp_fees_so_far state) (f_fee (fc_fill ctx)),
       rp_qty := rp_qty state - shares (f_qty (fc_fill ctx))\<rparr>)"

definition replay_step :: "ReplayState \<Rightarrow> FillContext \<Rightarrow> ReplayState" where
  "replay_step state ctx = (if fc_side ctx = Side_buy then replay_buy state ctx else replay_sell state ctx)"

definition replay_prior_fills :: "conn \<Rightarrow> string \<Rightarrow> datetime \<Rightarrow> string \<Rightarrow> ReplayState" where
  "replay_prior_fills c ticker opened_at exclude_fill_id =
     foldl replay_step empty_replay_state
       (filter (\<lambda>ctx. f_id (fc_fill ctx) \<noteq> exclude_fill_id)
         (list_fill_context_for_ticker_since c ticker opened_at))"

section \<open>Settling one fill\<close>

definition settle_fill :: "conn \<Rightarrow> Decision \<Rightarrow> Fill \<Rightarrow> Side \<Rightarrow> ExitReason option
    \<Rightarrow> (unit, FillsError) result \<times> conn" where
  "settle_fill c decision fill side exit_reason =
    (let position = get_position c (d_ticker decision);
         replay = (case position of
           Some p \<Rightarrow> if side = Side_sell
             then replay_prior_fills c (d_ticker decision) (p_opened_at p) (f_id fill)
             else empty_replay_state
         | None \<Rightarrow> empty_replay_state) in
     case apply_fill position fill decision side exit_reason (rp_entry_decision_id replay)
            (rp_exit_decision_ids replay) (rp_realized_so_far replay) (rp_fees_so_far replay) of
       Err e \<Rightarrow> (Err e, c)
     | Ok (OpenPosition p) \<Rightarrow> (case upsert_position c p of
         (Err e, c') \<Rightarrow> (Err e, c') | (Ok _, c') \<Rightarrow> (Ok (), c'))
     | Ok (ClosedTrade t) \<Rightarrow> (case insert_trade (delete_position c (d_ticker decision)) t of
         (Err e, c') \<Rightarrow> (Err e, c') | (Ok _, c') \<Rightarrow> (Ok (), c')))"

section \<open>Polling\<close>

text \<open>The arguments of \<open>poll_and_settle\<close> the loop does not change, and its local variables.\<close>

record 'x poll_args =
  pa_broker :: "'x Broker"
  pa_clock :: "'x Clock"
  pa_sleep :: "int \<Rightarrow> 'x \<Rightarrow> 'x"
  pa_uuid4 :: "'x \<Rightarrow> string \<times> 'x"
  pa_client_order_id :: string
  pa_order_id :: string
  pa_decision :: Decision
  pa_side :: Side
  pa_exit_reason :: "ExitReason option"
  pa_poll_timeout_s :: int
  pa_poll_interval_s :: int

record PollState =
  ps_recorded_qty :: int
  ps_recorded_notional :: Money
  ps_fills_recorded :: int
  ps_last_status :: OrderStatus
  ps_elapsed :: int

definition fills_notional :: "Fill list \<Rightarrow> decimal" where
  "fills_notional fs = foldl (\<lambda>acc f. dadd acc (price_times (f_price f) (shares (f_qty f)))) (dec_of_int 0) fs"

definition initial_poll :: "Fill list \<Rightarrow> PollState" where
  "initial_poll existing_fills = \<lparr>ps_recorded_qty = sum_list (map (shares \<circ> f_qty) existing_fills),
     ps_recorded_notional = mk_Money (fills_notional existing_fills), ps_fills_recorded = 0,
     ps_last_status = OS_submitted, ps_elapsed = 0\<rparr>"

text \<open>The fill the poll reveals is recorded and settled; the local variables follow.\<close>

definition new_fill :: "'x poll_args \<Rightarrow> string \<Rightarrow> datetime \<Rightarrow> int \<Rightarrow> Money \<Rightarrow> Fill" where
  "new_fill a u now new_qty delta_notional = \<lparr>f_id = ''fill_'' @ u, f_order_id = pa_order_id a,
     f_filled_at = now, f_qty = Quantity new_qty,
     f_price = mk_Price (dquot (money_amount delta_notional) (dec_of_int new_qty)),
     f_fee = zero_money\<rparr>"

definition record_new_fill :: "'x poll_args \<Rightarrow> BrokerOrder \<Rightarrow> PollState \<Rightarrow> 'x engine
    \<Rightarrow> (PollState, FillsError) result \<times> 'x engine" where
  "record_new_fill a bo ps s =
    (let new_qty = shares (bo_filled_qty bo) - ps_recorded_qty ps in
     case bo_filled_avg_price bo of
       None \<Rightarrow> (Ok ps, s)
     | Some filled_avg_price \<Rightarrow>
       if new_qty \<le> 0 then (Ok ps, s)
       else
         let cumulative_notional = mk_Money (price_times filled_avg_price (shares (bo_filled_qty bo)));
             delta_notional = money_sub cumulative_notional (ps_recorded_notional ps) in
         if cents delta_notional \<le> 0 then (Ok ps, s)
         else
           let (u, x1) = pa_uuid4 a (eng_world s);
               (now, x2) = pa_clock a x1;
               s2 = s\<lparr>eng_world := x2\<rparr>;
               fill = new_fill a u now new_qty delta_notional in
           (case insert_fill (eng_conn s2) fill of
              (Err e, c3) \<Rightarrow> (Err e, s2\<lparr>eng_conn := c3\<rparr>)
            | (Ok _, c3) \<Rightarrow> (case settle_fill c3 (pa_decision a) fill (pa_side a) (pa_exit_reason a) of
                (Err e, c4) \<Rightarrow> (Err e, s2\<lparr>eng_conn := c4\<rparr>)
              | (Ok _, c4) \<Rightarrow>
                  (Ok (ps\<lparr>ps_recorded_qty := shares (bo_filled_qty bo),
                     ps_recorded_notional := cumulative_notional,
                     ps_fills_recorded := ps_fills_recorded ps + 1\<rparr>), s2\<lparr>eng_conn := c4\<rparr>))))"

definition update_polled_status :: "'x poll_args \<Rightarrow> BrokerOrder \<Rightarrow> PollState \<Rightarrow> 'x engine
    \<Rightarrow> (PollState, FillsError) result \<times> 'x engine" where
  "update_polled_status a bo ps s =
    (if bo_status bo = ps_last_status ps then (Ok ps, s)
     else (case update_order_status (eng_conn s) (pa_order_id a) (bo_status bo) None
            (Some (bo_broker_order_id bo)) None of
         (Err e, c') \<Rightarrow> (Err e, s\<lparr>eng_conn := c'\<rparr>)
       | (Ok _, c') \<Rightarrow> (Ok (ps\<lparr>ps_last_status := bo_status bo\<rparr>), s\<lparr>eng_conn := c'\<rparr>)))"

text \<open>One round of the loop: it returns, or sleeps and goes on.\<close>

datatype poll_step = Poll_done "(PollOutcome, FillsError) result" | Poll_again PollState

definition poll_once :: "'x poll_args \<Rightarrow> PollState \<Rightarrow> 'x engine \<Rightarrow> poll_step \<times> 'x engine" where
  "poll_once a ps s = (case broker_get_order (pa_broker a) (pa_client_order_id a) (eng_world s) of
     (Err e, x1) \<Rightarrow> (Poll_done (Err e), s\<lparr>eng_world := x1\<rparr>)
   | (Ok bo, x1) \<Rightarrow> (case record_new_fill a bo ps (s\<lparr>eng_world := x1\<rparr>) of
       (Err e, s2) \<Rightarrow> (Poll_done (Err e), s2)
     | (Ok ps2, s2) \<Rightarrow> (case update_polled_status a bo ps2 s2 of
         (Err e, s3) \<Rightarrow> (Poll_done (Err e), s3)
       | (Ok ps3, s3) \<Rightarrow>
           if bo_status bo \<in> set terminal_statuses then
             (Poll_done (Ok \<lparr>po_fills_recorded = ps_fills_recorded ps3, po_final_status = bo_status bo\<rparr>), s3)
           else if pa_poll_timeout_s a \<le> ps_elapsed ps3 then
             (Poll_done (Ok \<lparr>po_fills_recorded = ps_fills_recorded ps3, po_final_status = ps_last_status ps3\<rparr>), s3)
           else (Poll_again (ps3\<lparr>ps_elapsed := ps_elapsed ps3 + pa_poll_interval_s a\<rparr>),
             s3\<lparr>eng_world := pa_sleep a (pa_poll_interval_s a) (eng_world s3)\<rparr>))))"

partial_function (option) poll_loop :: "'x poll_args \<Rightarrow> PollState \<Rightarrow> 'x engine
    \<Rightarrow> ((PollOutcome, FillsError) result \<times> 'x engine) option" where
  "poll_loop a ps s = (case poll_once a ps s of
     (Poll_done r, s') \<Rightarrow> Some (r, s')
   | (Poll_again ps', s') \<Rightarrow> poll_loop a ps' s')"

declare poll_loop.simps [code]

definition poll_and_settle :: "'x poll_args \<Rightarrow> 'x engine
    \<Rightarrow> ((PollOutcome, FillsError) result \<times> 'x engine) option" where
  "poll_and_settle a s = poll_loop a (initial_poll (list_fills (eng_conn s) (pa_order_id a))) s"

lemma new_fill_simps [simp]:
  "f_order_id (new_fill a u now n m) = pa_order_id a" "f_qty (new_fill a u now n m) = Quantity n"
  "f_filled_at (new_fill a u now n m) = now" "f_id (new_fill a u now n m) = ''fill_'' @ u"
  by (simp_all add: new_fill_def)

section \<open>The loop returns\<close>

lemma record_new_fill_keeps [outcome]:
  "record_new_fill a bo ps s = (Ok ps', s') \<Longrightarrow>
    ps_elapsed ps' = ps_elapsed ps \<and> ps_last_status ps' = ps_last_status ps"
  by (auto simp: record_new_fill_def Let_def split: option.splits if_splits prod.splits result.splits)

lemma update_polled_status_keeps [outcome]:
  "update_polled_status a bo ps s = (Ok ps', s') \<Longrightarrow>
    ps_elapsed ps' = ps_elapsed ps \<and> ps_recorded_qty ps' = ps_recorded_qty ps
    \<and> ps_fills_recorded ps' = ps_fills_recorded ps \<and> ps_last_status ps' = bo_status bo
    \<and> eng_world s' = eng_world s"
  by (auto simp: update_polled_status_def split: if_splits prod.splits result.splits)

text \<open>The ways one round can go.\<close>

lemma poll_once_cases:
  assumes "poll_once a ps s = (step, s')"
  obtains (unreadable) e x1 where "broker_get_order (pa_broker a) (pa_client_order_id a) (eng_world s) = (Err e, x1)"
      "step = Poll_done (Err e)" "s' = s\<lparr>eng_world := x1\<rparr>"
  | (unrecorded) bo x1 e where "broker_get_order (pa_broker a) (pa_client_order_id a) (eng_world s) = (Ok bo, x1)"
      "record_new_fill a bo ps (s\<lparr>eng_world := x1\<rparr>) = (Err e, s')" "step = Poll_done (Err e)"
  | (not_updated) bo x1 ps2 s2 e where "broker_get_order (pa_broker a) (pa_client_order_id a) (eng_world s) = (Ok bo, x1)"
      "record_new_fill a bo ps (s\<lparr>eng_world := x1\<rparr>) = (Ok ps2, s2)"
      "update_polled_status a bo ps2 s2 = (Err e, s')" "step = Poll_done (Err e)"
  | (finished) bo x1 ps2 s2 ps3 where "broker_get_order (pa_broker a) (pa_client_order_id a) (eng_world s) = (Ok bo, x1)"
      "record_new_fill a bo ps (s\<lparr>eng_world := x1\<rparr>) = (Ok ps2, s2)"
      "update_polled_status a bo ps2 s2 = (Ok ps3, s')"
      "bo_status bo \<in> set terminal_statuses \<or> pa_poll_timeout_s a \<le> ps_elapsed ps3"
      "step = Poll_done (Ok \<lparr>po_fills_recorded = ps_fills_recorded ps3, po_final_status = bo_status bo\<rparr>)"
  | (again) bo x1 ps2 s2 ps3 s3 where "broker_get_order (pa_broker a) (pa_client_order_id a) (eng_world s) = (Ok bo, x1)"
      "record_new_fill a bo ps (s\<lparr>eng_world := x1\<rparr>) = (Ok ps2, s2)"
      "update_polled_status a bo ps2 s2 = (Ok ps3, s3)"
      "bo_status bo \<notin> set terminal_statuses" "ps_elapsed ps3 < pa_poll_timeout_s a"
      "step = Poll_again (ps3\<lparr>ps_elapsed := ps_elapsed ps3 + pa_poll_interval_s a\<rparr>)"
      "s' = s3\<lparr>eng_world := pa_sleep a (pa_poll_interval_s a) (eng_world s3)\<rparr>"
proof -
  obtain g x1 where g: "broker_get_order (pa_broker a) (pa_client_order_id a) (eng_world s) = (g, x1)" by fastforce
  show thesis
  proof (cases g)
    case (Err e)
    then show thesis using assms g unreadable by (simp add: poll_once_def)
  next
    case (Ok bo)
    obtain rn s2 where rn: "record_new_fill a bo ps (s\<lparr>eng_world := x1\<rparr>) = (rn, s2)" by fastforce
    show thesis
    proof (cases rn)
      case (Err e)
      then show thesis using assms g Ok rn unrecorded by (simp add: poll_once_def)
    next
      case ps2: (Ok ps2)
      obtain up s3 where up: "update_polled_status a bo ps2 s2 = (up, s3)" by fastforce
      show thesis
      proof (cases up)
        case (Err e)
        then show thesis using assms g Ok rn ps2 up not_updated by (simp add: poll_once_def)
      next
        case ps3: (Ok ps3)
        note run = g [unfolded Ok] rn [unfolded ps2] up [unfolded ps3]
        have "ps_last_status ps3 = bo_status bo" using update_polled_status_keeps [OF run(3)] by simp
        then have step: "(step, s') = (if bo_status bo \<in> set terminal_statuses \<or> pa_poll_timeout_s a \<le> ps_elapsed ps3
            then (Poll_done (Ok \<lparr>po_fills_recorded = ps_fills_recorded ps3, po_final_status = bo_status bo\<rparr>), s3)
            else (Poll_again (ps3\<lparr>ps_elapsed := ps_elapsed ps3 + pa_poll_interval_s a\<rparr>),
              s3\<lparr>eng_world := pa_sleep a (pa_poll_interval_s a) (eng_world s3)\<rparr>))"
          using assms by (auto simp: poll_once_def run split: if_splits)
        show thesis
        proof (cases "bo_status bo \<in> set terminal_statuses \<or> pa_poll_timeout_s a \<le> ps_elapsed ps3")
          case True
          then show thesis using step run by (intro finished [of bo x1 ps2 s2 ps3]) simp_all
        next
          case False
          then show thesis using step run by (intro again [of bo x1 ps2 s2 ps3 s3]) simp_all
        qed
      qed
    qed
  qed
qed

lemma poll_once_again:
  assumes "poll_once a ps s = (Poll_again ps', s')"
  shows "ps_elapsed ps < pa_poll_timeout_s a \<and> ps_elapsed ps' = ps_elapsed ps + pa_poll_interval_s a"
  using assms
proof (cases rule: poll_once_cases)
  case (again bo x1 ps2 s2 ps3 s3)
  then show ?thesis
    using record_new_fill_keeps [OF again(2)] update_polled_status_keeps [OF again(3)] by simp
qed simp_all

lemma poll_loop_returns:
  assumes "0 < pa_poll_interval_s a"
  shows "\<exists>r s'. poll_loop a ps s = Some (r, s')"
proof (induction "nat (pa_poll_timeout_s a - ps_elapsed ps)" arbitrary: ps s rule: less_induct)
  case less
  obtain step s1 where p: "poll_once a ps s = (step, s1)" by fastforce
  show ?case
  proof (cases step)
    case (Poll_done r)
    then show ?thesis using p by (subst poll_loop.simps) simp
  next
    case (Poll_again ps1)
    then have "ps_elapsed ps < pa_poll_timeout_s a" "ps_elapsed ps1 = ps_elapsed ps + pa_poll_interval_s a"
      using poll_once_again p by blast+
    then have "\<exists>r s'. poll_loop a ps1 s1 = Some (r, s')" using assms by (intro less) simp
    then show ?thesis using p Poll_again by (subst poll_loop.simps) simp
  qed
qed

text \<open>An invariant of the rounds gives what it implies of the round that returns.\<close>

lemma poll_loop_invariant:
  assumes "poll_loop a ps s = Some (r, s')" and "I ps s"
    and "\<And>ps s ps1 s1. I ps s \<Longrightarrow> poll_once a ps s = (Poll_again ps1, s1) \<Longrightarrow> I ps1 s1"
    and "\<And>ps s r s1. I ps s \<Longrightarrow> poll_once a ps s = (Poll_done r, s1) \<Longrightarrow> Q r s1"
  shows "Q r s'"
proof -
  have "b = a \<longrightarrow> I ps s \<longrightarrow> Q (fst rs) (snd rs)" if "poll_loop b ps s = Some rs" for b ps s rs
  proof (rule poll_loop.raw_induct [where P = "\<lambda>b ps s rs. b = a \<longrightarrow> I ps s \<longrightarrow> Q (fst rs) (snd rs)"])
    fix loop b ps s rs
    assume "\<And>ps s c y. loop ps s c = Some y \<Longrightarrow> ps = a \<longrightarrow> I s c \<longrightarrow> Q (fst y) (snd y)"
      and "(case poll_once b ps s of (Poll_done r, s') \<Rightarrow> Some (r, s')
        | (Poll_again ps', s') \<Rightarrow> loop b ps' s') = Some rs"
    then show "b = a \<longrightarrow> I ps s \<longrightarrow> Q (fst rs) (snd rs)"
      using assms(3,4) by (auto split: prod.splits poll_step.splits)
  qed (rule that)
  then show ?thesis using assms(1,2) by fastforce
qed

section \<open>Conservation of shares\<close>

text \<open>
  The shares of an order that are recorded as fills, the shares held of a ticker, and the sign a
  side gives to a fill.
\<close>

definition recorded_shares :: "db \<Rightarrow> string \<Rightarrow> int" where
  "recorded_shares d order_id =
     sum_list (map (shares \<circ> f_qty) (filter (\<lambda>f. f_order_id f = order_id) (fills d)))"

definition held_shares :: "db \<Rightarrow> string \<Rightarrow> int" where
  "held_shares d ticker = (case position_of ticker d of None \<Rightarrow> 0 | Some p \<Rightarrow> shares (p_qty p))"

definition signed :: "Side \<Rightarrow> int \<Rightarrow> int" where
  "signed side n = (case side of Side_buy \<Rightarrow> n | Side_sell \<Rightarrow> - n)"

lemma sum_list_map_sort_key:
  fixes g :: "'a \<Rightarrow> int"
  shows "sum_list (map g (sort_key f xs)) = sum_list (map g xs)"
proof -
  have "sum_list (map g (insort_key f x ys)) = g x + sum_list (map g ys)" for x ys
    by (induction ys) auto
  then show ?thesis by (induction xs) simp_all
qed

lemma position_of_update [simp]:
  "position_of t (d\<lparr>trades := ts\<rparr>) = position_of t d" "position_of t (d\<lparr>fills := fs\<rparr>) = position_of t d"
  "position_of t (d\<lparr>orders := os\<rparr>) = position_of t d"
  by (simp_all add: position_of_def)

lemma initial_recorded:
  "ps_recorded_qty (initial_poll (list_fills c oid)) = recorded_shares (working c) oid"
  by (simp add: initial_poll_def list_fills_def recorded_shares_def sum_list_map_sort_key)

lemma apply_fill_shares:
  assumes "apply_fill pos fill d side er e xs rs fs = Ok u"
    and "\<And>p. pos = Some p \<Longrightarrow> p_ticker p = d_ticker d"
  shows "(case u of OpenPosition p \<Rightarrow> p_ticker p = d_ticker d
        \<and> shares (p_qty p) = (case pos of None \<Rightarrow> 0 | Some p \<Rightarrow> shares (p_qty p)) + signed side (shares (f_qty fill))
      | ClosedTrade t \<Rightarrow> (case pos of None \<Rightarrow> 0 | Some p \<Rightarrow> shares (p_qty p)) + signed side (shares (f_qty fill)) = 0)"
proof (cases side)
  case Side_buy
  then show ?thesis using assms by (auto simp: apply_fill_def apply_buy_def signed_def split: option.splits)
next
  case Side_sell
  then show ?thesis using assms
    by (auto simp: apply_fill_def apply_sell_def signed_def Let_def split: option.splits if_splits)
qed

text \<open>A settled fill moves the position by its shares, and nothing but positions and trades.\<close>

lemma settle_fill_Ok:
  assumes "settle_fill c d fill side er = (Ok u, c')"
  shows "held_shares (working c') (d_ticker d)
      = held_shares (working c) (d_ticker d) + signed side (shares (f_qty fill))
    \<and> fills (working c') = fills (working c) \<and> orders (working c') = orders (working c)
    \<and> decisions (working c') = decisions (working c)
    \<and> (\<forall>t. t \<noteq> d_ticker d \<longrightarrow> position_of t (working c') = position_of t (working c))"
proof -
  let ?pos = "get_position c (d_ticker d)"
  obtain e xs rs fs up where af: "apply_fill ?pos fill d side er e xs rs fs = Ok up"
    and out: "(case up of OpenPosition p \<Rightarrow> (case upsert_position c p of
         (Err e, c') \<Rightarrow> (Err e, c') | (Ok _, c') \<Rightarrow> (Ok (), c'))
     | ClosedTrade t \<Rightarrow> (case insert_trade (delete_position c (d_ticker d)) t of
         (Err e, c') \<Rightarrow> (Err e, c') | (Ok _, c') \<Rightarrow> (Ok (), c'))) = (Ok u, c')"
    using assms by (auto simp: settle_fill_def Let_def split: result.splits)
  have key: "p_ticker p = d_ticker d" if "?pos = Some p" for p
    using that by (auto simp: get_position_def position_of_def dest: find_row_Some)
  note moved = apply_fill_shares [OF af key]
  have held: "held_shares (working c) (d_ticker d) = (case ?pos of None \<Rightarrow> 0 | Some p \<Rightarrow> shares (p_qty p))"
    by (simp add: held_shares_def get_position_def)
  show ?thesis
  proof (cases up)
    case (OpenPosition p)
    then have "c' = c\<lparr>stmts := Suc (stmts c), working := put_position p (working c)\<rparr>"
      using out by (auto simp: upsert_position_Ok split: prod.splits result.splits)
    then show ?thesis using moved OpenPosition unfolding held
      by (simp add: held_shares_def position_store.get_put)
  next
    case (ClosedTrade t)
    then obtain c2 where "insert_trade (delete_position c (d_ticker d)) t = (Ok t, c')"
      using out by (auto simp: insert_trade_Ok split: prod.splits result.splits)
    then show ?thesis using moved ClosedTrade unfolding held
      by (simp add: insert_trade_Ok delete_position_def held_shares_def position_store.get_del)
  qed
qed

lemma same_store_settle_fill [frame]:
  "settle_fill c d fill side er = (r, c') \<Longrightarrow> same_store c c'"
  by (auto simp: settle_fill_def Let_def split: result.splits prod.splits PositionUpdate.splits
      dest: same_store_upsert_position same_store_insert_trade
      intro: same_store_trans [OF same_store_delete_position])

text \<open>One round keeps the recorded shares in step with the position.\<close>

definition poll_in_step :: "'x poll_args \<Rightarrow> int \<Rightarrow> PollState \<Rightarrow> 'x engine \<Rightarrow> bool" where
  "poll_in_step a k ps s \<longleftrightarrow>
     ps_recorded_qty ps = recorded_shares (working (eng_conn s)) (pa_order_id a)
     \<and> held_shares (working (eng_conn s)) (d_ticker (pa_decision a))
       = k + signed (pa_side a) (ps_recorded_qty ps)"

lemma signed_add: "signed side (a + b) = signed side a + signed side b"
  by (cases side) (simp_all add: signed_def)

text \<open>The ways recording a revealed fill can go.\<close>

lemma record_new_fill_cases:
  assumes "record_new_fill a bo ps s = (r, s')"
  obtains (unrevealed) "r = Ok ps" "s' = s"
      "bo_filled_avg_price bo = None \<or> shares (bo_filled_qty bo) \<le> ps_recorded_qty ps
        \<or> (\<exists>p. bo_filled_avg_price bo = Some p
             \<and> cents (mk_Money (price_times p (shares (bo_filled_qty bo)))) \<le> cents (ps_recorded_notional ps))"
  | (attempted) u x1 now x2 p fill ri c3 where
      "ps_recorded_qty ps < shares (bo_filled_qty bo)"
      "bo_filled_avg_price bo = Some p"
      "cents (ps_recorded_notional ps) < cents (mk_Money (price_times p (shares (bo_filled_qty bo))))"
      "pa_uuid4 a (eng_world s) = (u, x1)" "pa_clock a x1 = (now, x2)"
      "fill = new_fill a u now (shares (bo_filled_qty bo) - ps_recorded_qty ps)
         (money_sub (mk_Money (price_times p (shares (bo_filled_qty bo)))) (ps_recorded_notional ps))"
      "insert_fill (eng_conn s) fill = (ri, c3)"
      "(r, s') = (case ri of Err e \<Rightarrow> (Err e, s\<lparr>eng_world := x2, eng_conn := c3\<rparr>)
        | Ok _ \<Rightarrow> (case settle_fill c3 (pa_decision a) fill (pa_side a) (pa_exit_reason a) of
            (Err e, c4) \<Rightarrow> (Err e, s\<lparr>eng_world := x2, eng_conn := c4\<rparr>)
          | (Ok _, c4) \<Rightarrow> (Ok (ps\<lparr>ps_recorded_qty := shares (bo_filled_qty bo),
              ps_recorded_notional := mk_Money (price_times p (shares (bo_filled_qty bo))),
              ps_fills_recorded := ps_fills_recorded ps + 1\<rparr>), s\<lparr>eng_world := x2, eng_conn := c4\<rparr>)))"
proof (cases "bo_filled_avg_price bo")
  case None
  then have "(r, s') = (Ok ps, s)" using assms by (simp add: record_new_fill_def Let_def)
  then have eqs: "r = Ok ps" "s' = s" by simp_all
  show thesis by (rule unrevealed [OF eqs disjI1 [OF None]])
next
  case (Some p)
  define new_qty where "new_qty = shares (bo_filled_qty bo) - ps_recorded_qty ps"
  define cn where "cn = mk_Money (price_times p (shares (bo_filled_qty bo)))"
  show thesis
  proof (cases "new_qty \<le> 0 \<or> cents cn \<le> cents (ps_recorded_notional ps)")
    case True
    then have "(r, s') = (Ok ps, s)"
      using assms Some
      by (auto simp: record_new_fill_def Let_def new_qty_def [symmetric] cn_def [symmetric] split: if_splits)
    then show thesis using True Some by (intro unrevealed) (auto simp: new_qty_def cn_def)
  next
    case False
    obtain u x1 where u: "pa_uuid4 a (eng_world s) = (u, x1)" by fastforce
    obtain now x2 where now: "pa_clock a x1 = (now, x2)" by fastforce
    define fill where "fill = new_fill a u now new_qty (money_sub cn (ps_recorded_notional ps))"
    obtain ri c3 where ins: "insert_fill (eng_conn s) fill = (ri, c3)" by fastforce
    have "(r, s') = (case ri of Err e \<Rightarrow> (Err e, s\<lparr>eng_world := x2, eng_conn := c3\<rparr>)
        | Ok _ \<Rightarrow> (case settle_fill c3 (pa_decision a) fill (pa_side a) (pa_exit_reason a) of
            (Err e, c4) \<Rightarrow> (Err e, s\<lparr>eng_world := x2, eng_conn := c4\<rparr>)
          | (Ok _, c4) \<Rightarrow> (Ok (ps\<lparr>ps_recorded_qty := shares (bo_filled_qty bo),
              ps_recorded_notional := cn,
              ps_fills_recorded := ps_fills_recorded ps + 1\<rparr>), s\<lparr>eng_world := x2, eng_conn := c4\<rparr>)))"
      unfolding assms [symmetric] using False ins
      by (simp add: record_new_fill_def Let_def Some u now new_qty_def [symmetric] cn_def [symmetric]
          fill_def [symmetric] split: result.split prod.split)
    then show thesis using False u now ins
      by (intro attempted [OF _ Some _ u now fill_def [unfolded new_qty_def cn_def] ins])
        (simp_all only: new_qty_def cn_def de_Morgan_disj not_le diff_gt_0_iff_gt simp_thms)
  qed
qed

lemma fills_settle_fill:
  assumes "settle_fill c d fill side er = (r, c')"
  shows "fills (working c') = fills (working c) \<and> orders (working c') = orders (working c)
    \<and> decisions (working c') = decisions (working c) \<and> same_store c c'"
proof (cases r)
  case (Ok u)
  then show ?thesis using settle_fill_Ok [of c d fill side er u c'] assms same_store_settle_fill by blast
next
  case (Err e)
  then show ?thesis using assms same_store_settle_fill [OF assms]
    by (auto simp: settle_fill_def Let_def upsert_position_def insert_trade_def wrap_stmt_Err run_stmt_Err
        delete_position_def split: result.splits prod.splits PositionUpdate.splits)
qed

lemma record_new_fill_Ok:
  assumes "record_new_fill a bo ps s = (Ok ps', s')" and "poll_in_step a k ps s"
  shows "poll_in_step a k ps' s' \<and> (ps' = ps \<or> ps_recorded_qty ps < ps_recorded_qty ps'
    \<and> ps_recorded_qty ps' = shares (bo_filled_qty bo))"
  using assms(1)
proof (cases rule: record_new_fill_cases)
  case unrevealed
  then show ?thesis using assms(2) by simp
next
  case (attempted u x1 now x2 p fill ri c3)
  then obtain v where ri: "ri = Ok v" by (cases ri) simp_all
  obtain rs c4 where s: "settle_fill c3 (pa_decision a) fill (pa_side a) (pa_exit_reason a) = (rs, c4)" by fastforce
  with attempted(8) ri obtain w where rs: "rs = Ok w" by (cases rs) simp_all
  have w3: "working c3 = (working (eng_conn s))\<lparr>fills := fills (working (eng_conn s)) @ [fill]\<rparr>"
    using attempted(7) ri by (simp add: insert_fill_Ok)
  have out: "eng_conn s' = c4" "ps_recorded_qty ps' = shares (bo_filled_qty bo)"
    using attempted(8) by (simp_all add: ri rs s)
  have "held_shares (working c3) t = held_shares (working (eng_conn s)) t" for t
    by (simp add: w3 held_shares_def)
  moreover have "recorded_shares (working c4) (pa_order_id a)
      = recorded_shares (working (eng_conn s)) (pa_order_id a)
        + (shares (bo_filled_qty bo) - ps_recorded_qty ps)"
    using fills_settle_fill [OF s] by (simp add: w3 recorded_shares_def attempted(6))
  ultimately show ?thesis
    using settle_fill_Ok [OF s [unfolded rs]] assms(2) attempted(1,6) out
      signed_add [of "pa_side a" "ps_recorded_qty ps" "shares (bo_filled_qty bo) - ps_recorded_qty ps"]
    by (simp add: poll_in_step_def)
qed

lemma update_polled_in_step:
  assumes "update_polled_status a bo ps s = (Ok ps', s')" "poll_in_step a k ps s"
  shows "poll_in_step a k ps' s'"
  using assms
  by (auto simp: update_polled_status_def poll_in_step_def update_order_status_Ok recorded_shares_def
      held_shares_def position_of_def split: if_splits prod.splits result.splits)

section \<open>Properties of polling\<close>

text \<open>What the outside world's clock, sleep and random ids must leave alone: the broker's orders.\<close>

definition leaves_orders :: "('x \<Rightarrow> string \<Rightarrow> OrderRequest option) \<Rightarrow> ('x \<Rightarrow> bool) \<Rightarrow> ('x \<Rightarrow> 'x) \<Rightarrow> bool" where
  "leaves_orders accepted sane f \<longleftrightarrow> (\<forall>x. accepted (f x) = accepted x \<and> (sane x \<longrightarrow> sane (f x)))"

definition quiet_world :: "('x \<Rightarrow> string \<Rightarrow> OrderRequest option) \<Rightarrow> ('x \<Rightarrow> bool) \<Rightarrow> 'x poll_args \<Rightarrow> bool" where
  "quiet_world accepted sane a \<longleftrightarrow> leaves_orders accepted sane (\<lambda>x. snd (pa_clock a x))
     \<and> leaves_orders accepted sane (\<lambda>x. snd (pa_uuid4 a x))
     \<and> (\<forall>n. leaves_orders accepted sane (pa_sleep a n))"

text \<open>
  One round, whatever it returns: the recorded shares of the order are what they were or what the
  broker reports as filled, if that is more.
\<close>

lemma recorded_record_new_fill:
  assumes "record_new_fill a bo ps s = (r, s')"
    and "ps_recorded_qty ps = recorded_shares (working (eng_conn s)) (pa_order_id a)"
  shows "(recorded_shares (working (eng_conn s')) (pa_order_id a) = ps_recorded_qty ps
      \<or> recorded_shares (working (eng_conn s')) (pa_order_id a) = shares (bo_filled_qty bo))
    \<and> (eng_world s' = eng_world s \<or> eng_world s' = snd (pa_clock a (snd (pa_uuid4 a (eng_world s)))))
    \<and> (\<forall>ps'. r = Ok ps' \<longrightarrow> ps_recorded_qty ps' = recorded_shares (working (eng_conn s')) (pa_order_id a))"
  using assms(1)
proof (cases rule: record_new_fill_cases)
  case unrevealed
  then show ?thesis using assms(2) by simp
next
  case (attempted u x1 now x2 p fill ri c3)
  obtain rs c4 where s: "settle_fill c3 (pa_decision a) fill (pa_side a) (pa_exit_reason a) = (rs, c4)" by fastforce
  show ?thesis
  proof (cases ri)
    case (Err e)
    then have "working c3 = working (eng_conn s)"
      using attempted(7) by (auto simp: insert_fill_def wrap_stmt_Err run_stmt_Err)
    then show ?thesis using attempted Err assms(2) by simp
  next
    case (Ok v)
    then have w3: "working c3 = (working (eng_conn s))\<lparr>fills := fills (working (eng_conn s)) @ [fill]\<rparr>"
      using attempted(7) by (simp add: insert_fill_Ok)
    have "recorded_shares (working c4) (pa_order_id a) = shares (bo_filled_qty bo)"
      using fills_settle_fill [OF s] assms(2) by (simp add: w3 recorded_shares_def attempted(6))
    then show ?thesis using attempted(4,5,8) Ok by (auto simp: s split: result.splits)
  qed
qed

lemma recorded_update_polled:
  assumes "update_polled_status a bo ps s = (r, s')"
  shows "recorded_shares (working (eng_conn s')) oid = recorded_shares (working (eng_conn s)) oid
    \<and> eng_world s' = eng_world s \<and> (\<forall>ps'. r = Ok ps' \<longrightarrow> ps_recorded_qty ps' = ps_recorded_qty ps)"
proof (cases "bo_status bo = ps_last_status ps")
  case False
  obtain ur c' where u: "update_order_status (eng_conn s) (pa_order_id a) (bo_status bo) None
      (Some (bo_broker_order_id bo)) None = (ur, c')" by fastforce
  have "fills (working c') = fills (working (eng_conn s))"
    using u by (auto simp: update_order_status_def update_order_stmt_def run_stmt_def Let_def
        split: option.splits prod.splits result.splits if_splits)
  then show ?thesis using assms False u
    by (auto simp: update_polled_status_def recorded_shares_def split: result.splits)
qed (use assms in \<open>auto simp: update_polled_status_def\<close>)

text \<open>
  C24: \<open>poll_and_settle\<close> returns, however long the order stays open and whatever the broker reports,
  when the poll interval is positive.
\<close>

theorem polling_returns:
  assumes "0 < pa_poll_interval_s a"
  shows "\<exists>r s'. poll_and_settle a s = Some (r, s')"
  unfolding poll_and_settle_def by (rule poll_loop_returns [OF assms])


text \<open>The invariant of the rounds under the broker's contract.\<close>

definition poll_bounded :: "('x \<Rightarrow> string \<Rightarrow> OrderRequest option) \<Rightarrow> ('x \<Rightarrow> bool) \<Rightarrow> 'x poll_args
    \<Rightarrow> OrderRequest \<Rightarrow> PollState \<Rightarrow> 'x engine \<Rightarrow> bool" where
  "poll_bounded accepted sane a req ps s \<longleftrightarrow>
     ps_recorded_qty ps = recorded_shares (working (eng_conn s)) (pa_order_id a)
     \<and> recorded_shares (working (eng_conn s)) (pa_order_id a) \<le> shares (or_qty req)
     \<and> sane (eng_world s) \<and> accepted (eng_world s) (pa_client_order_id a) = Some req"

lemma poll_bounded_world:
  assumes "poll_bounded accepted sane a req ps s" "accepted x = accepted (eng_world s)"
    "sane (eng_world s) \<Longrightarrow> sane x"
  shows "poll_bounded accepted sane a req ps (s\<lparr>eng_world := x\<rparr>)"
  using assms by (simp add: poll_bounded_def)

lemma poll_bounded_record:
  assumes "broker_laws (pa_broker a) accepted sane" "quiet_world accepted sane a"
    and "poll_bounded accepted sane a req ps s"
    and "broker_get_order (pa_broker a) (pa_client_order_id a) (eng_world s) = (Ok bo, x1)"
    and "record_new_fill a bo ps (s\<lparr>eng_world := x1\<rparr>) = (r, s2)"
  shows "recorded_shares (working (eng_conn s2)) (pa_order_id a) \<le> shares (or_qty req)
    \<and> (\<forall>ps2. r = Ok ps2 \<longrightarrow> poll_bounded accepted sane a req ps2 s2)"
proof -
  have quiet: "accepted x1 = accepted (eng_world s) \<and> sane x1"
    using broker_laws.get_keeps [OF assms(1,4)] assms(3) by (simp add: poll_bounded_def)
  have "shares (bo_filled_qty bo) \<le> shares (or_qty req)"
    using broker_laws.get_ok [OF assms(1) _ assms(4)] assms(3) by (auto simp: poll_bounded_def)
  then show ?thesis
    using recorded_record_new_fill [OF assms(5)] assms(2,3) quiet
    by (auto simp: poll_bounded_def quiet_world_def leaves_orders_def)
qed

text \<open>
  C22: the ledger never records more shares of an order than were ordered, whatever fails: under the
  broker's contract the recorded fills of an order add up to at most the accepted quantity.
\<close>

theorem fills_within_order:
  assumes "broker_laws (pa_broker a) accepted sane" "quiet_world accepted sane a"
    and "sane (eng_world s)" "accepted (eng_world s) (pa_client_order_id a) = Some req"
    and "recorded_shares (working (eng_conn s)) (pa_order_id a) \<le> shares (or_qty req)"
    and "poll_and_settle a s = Some (r, s')"
  shows "recorded_shares (working (eng_conn s')) (pa_order_id a) \<le> shares (or_qty req)"
proof (rule poll_loop_invariant [where I = "poll_bounded accepted sane a req"
      and Q = "\<lambda>r s1. recorded_shares (working (eng_conn s1)) (pa_order_id a) \<le> shares (or_qty req)"])
  show "poll_loop a (initial_poll (list_fills (eng_conn s) (pa_order_id a))) s = Some (r, s')"
    using assms(6) by (simp add: poll_and_settle_def)
  show "poll_bounded accepted sane a req (initial_poll (list_fills (eng_conn s) (pa_order_id a))) s"
    using assms(3-5) by (simp add: poll_bounded_def initial_recorded)
next
  fix ps s0 ps1 s1
  assume inv: "poll_bounded accepted sane a req ps s0" and "poll_once a ps s0 = (Poll_again ps1, s1)"
  from this(2) show "poll_bounded accepted sane a req ps1 s1"
  proof (cases rule: poll_once_cases)
    case (again bo x1 ps2 s2 ps3 s3)
    have "poll_bounded accepted sane a req ps2 s2"
      using poll_bounded_record [OF assms(1,2) inv again(1,2)] by simp
    moreover have "ps_recorded_qty ps3 = ps_recorded_qty ps2" "eng_world s3 = eng_world s2"
      "recorded_shares (working (eng_conn s3)) (pa_order_id a) = recorded_shares (working (eng_conn s2)) (pa_order_id a)"
      using recorded_update_polled [OF again(3)] by blast+
    moreover have "accepted (pa_sleep a n x) = accepted x \<and> (sane x \<longrightarrow> sane (pa_sleep a n x))" for n x
      using assms(2) by (simp add: quiet_world_def leaves_orders_def)
    ultimately show ?thesis using again(6,7) by (simp add: poll_bounded_def)
  qed simp_all
next
  fix ps s0 r s1
  assume inv: "poll_bounded accepted sane a req ps s0" and "poll_once a ps s0 = (Poll_done r, s1)"
  from this(2) show "recorded_shares (working (eng_conn s1)) (pa_order_id a) \<le> shares (or_qty req)"
  proof (cases rule: poll_once_cases)
    case (unreadable e x1)
    then show ?thesis using inv by (simp add: poll_bounded_def)
  next
    case (unrecorded bo x1 e)
    then show ?thesis using poll_bounded_record [OF assms(1,2) inv unrecorded(1,2)] by simp
  next
    case (not_updated bo x1 ps2 s2 e)
    then show ?thesis
      using poll_bounded_record [OF assms(1,2) inv not_updated(1,2)]
      by (simp only: recorded_update_polled [OF not_updated(3), THEN conjunct1])
  next
    case (finished bo x1 ps2 s2 ps3)
    then show ?thesis
      using poll_bounded_record [OF assms(1,2) inv finished(1,2)]
      by (simp only: recorded_update_polled [OF finished(3), THEN conjunct1])
  qed simp
qed

text \<open>
  A fill whose notional does not exceed what is recorded is dropped. If the broker reports the
  order finished with such an average price, \<open>poll_and_settle\<close> returns at once without recording
  the new shares or touching a position: no later poll picks the fill up.
\<close>

theorem final_fill_dropped:
  assumes "broker_get_order (pa_broker a) (pa_client_order_id a) (eng_world s) = (Ok bo, x1)"
    and "bo_status bo \<in> set terminal_statuses" "bo_filled_avg_price bo = Some p"
    and "cents (mk_Money (price_times p (shares (bo_filled_qty bo))))
      \<le> cents (mk_Money (fills_notional (list_fills (eng_conn s) (pa_order_id a))))"
    and "poll_and_settle a s = Some (r, s')"
  shows "fills (working (eng_conn s')) = fills (working (eng_conn s))
    \<and> positions (working (eng_conn s')) = positions (working (eng_conn s))
    \<and> (\<forall>outc. r = Ok outc \<longrightarrow> outc = \<lparr>po_fills_recorded = 0, po_final_status = bo_status bo\<rparr>)"
proof -
  let ?ps = "initial_poll (list_fills (eng_conn s) (pa_order_id a))"
  let ?s1 = "s\<lparr>eng_world := x1\<rparr>"
  have rec: "record_new_fill a bo ?ps ?s1 = (Ok ?ps, ?s1)"
    using assms(3,4) by (simp add: record_new_fill_def Let_def initial_poll_def)
  obtain ru s3 where up: "update_polled_status a bo ?ps ?s1 = (ru, s3)" by fastforce
  obtain ur c' where u: "update_order_status (eng_conn s) (pa_order_id a) (bo_status bo) None
      (Some (bo_broker_order_id bo)) None = (ur, c')" by fastforce
  have same: "fills (working c') = fills (working (eng_conn s)) \<and> positions (working c') = positions (working (eng_conn s))"
    using u by (auto simp: update_order_status_def update_order_stmt_def run_stmt_def Let_def
        split: option.splits prod.splits result.splits if_splits)
  have s3: "fills (working (eng_conn s3)) = fills (working (eng_conn s))
      \<and> positions (working (eng_conn s3)) = positions (working (eng_conn s))
      \<and> (\<forall>ps3. ru = Ok ps3 \<longrightarrow> ps_fills_recorded ps3 = 0)"
    using up same u by (auto simp: update_polled_status_def initial_poll_def split: if_splits result.splits)
  have "poll_once a ?ps s = (case ru of
      Err e \<Rightarrow> (Poll_done (Err e), s3)
    | Ok ps3 \<Rightarrow> (Poll_done (Ok \<lparr>po_fills_recorded = ps_fills_recorded ps3, po_final_status = bo_status bo\<rparr>), s3))"
    using assms(2) by (simp add: poll_once_def assms(1) rec up split: result.split)
  then have "(r, s') = (case ru of Err e \<Rightarrow> (Err e, s3)
    | Ok ps3 \<Rightarrow> (Ok \<lparr>po_fills_recorded = ps_fills_recorded ps3, po_final_status = bo_status bo\<rparr>, s3))"
    using assms(5) by (auto simp: poll_and_settle_def poll_loop.simps [of a ?ps s] split: result.splits)
  then show ?thesis using s3 by (auto split: result.splits)
qed

section \<open>Replaying is settling\<close>

text \<open>
  The reference for the replay: the fills of one ticker applied one after the other to the position
  while it stays open, with the profit and the fees of its sells added up in cents.
\<close>

type_synonym fill_step = "Fill \<times> Side \<times> Decision \<times> ExitReason option"

fun run_fills :: "Position option \<Rightarrow> int \<Rightarrow> int \<Rightarrow> fill_step list \<Rightarrow> (Position option \<times> int \<times> int) option" where
  "run_fills pos profit fees [] = Some (pos, profit, fees)"
| "run_fills pos profit fees ((f, side, d, er) # rest) =
    (case apply_fill pos f d side er None [] zero_money zero_money of
       Ok (OpenPosition p) \<Rightarrow> (case (side, pos) of
           (Side_sell, Some p0) \<Rightarrow> run_fills (Some p) (profit + cents (fill_pnl (p_avg_cost p0) f))
              (fees + cents (f_fee f)) rest
         | _ \<Rightarrow> run_fills (Some p) profit fees rest)
     | _ \<Rightarrow> None)"

definition context_of :: "fill_step \<Rightarrow> FillContext" where
  "context_of st = (case st of (f, side, d, er) \<Rightarrow> \<lparr>fc_fill = f, fc_side = side, fc_decision_id = d_id d\<rparr>)"

text \<open>The replay state of a position.\<close>

definition replays :: "ReplayState \<Rightarrow> Position option \<Rightarrow> int \<Rightarrow> int \<Rightarrow> bool" where
  "replays st pos profit fees \<longleftrightarrow> cents (rp_realized_so_far st) = profit \<and> cents (rp_fees_so_far st) = fees
     \<and> (case pos of None \<Rightarrow> rp_qty st = 0 \<and> rp_avg_cost st = None
        | Some p \<Rightarrow> rp_qty st = shares (p_qty p) \<and> rp_avg_cost st = Some (p_avg_cost p))"

lemma replays_buy:
  assumes "replays st pos profit fees" "fc_side ctx = Side_buy" "fc_fill ctx = f"
    and "apply_buy pos f d = OpenPosition p"
  shows "replays (replay_step st ctx) (Some p) profit fees"
  using assms
  by (cases pos) (auto simp: replays_def replay_step_def replay_buy_def apply_buy_def average_cost_def Let_def)

lemma replays_sell:
  assumes "replays st (Some p0) profit fees" "fc_side ctx = Side_sell" "fc_fill ctx = f"
    and "apply_sell (Some p0) f d er e xs rs fs = Ok (OpenPosition p)"
  shows "replays (replay_step st ctx) (Some p) (profit + cents (fill_pnl (p_avg_cost p0) f)) (fees + cents (f_fee f))"
  using assms
  by (auto simp: replays_def replay_step_def replay_sell_def apply_sell_def fill_pnl_def Let_def
      split: if_splits option.splits)

lemma apply_buy_open: "\<exists>p. apply_buy pos f d = OpenPosition p"
  by (cases pos) (simp_all add: apply_buy_def)

lemma replay_run_fills:
  assumes "run_fills pos profit fees steps = Some (pos', profit', fees')" "replays st pos profit fees"
  shows "replays (foldl replay_step st (map context_of steps)) pos' profit' fees'"
  using assms
proof (induction pos profit fees steps arbitrary: st rule: run_fills.induct)
  case (2 pos profit fees f side d er rest)
  let ?ctx = "context_of (f, side, d, er)"
  have ctx: "fc_side ?ctx = side" "fc_fill ?ctx = f" by (simp_all add: context_of_def)
  show ?case
  proof (cases side)
    case Side_buy
    obtain p where p: "apply_buy pos f d = OpenPosition p" using apply_buy_open by blast
    then have "replays (replay_step st ?ctx) (Some p) profit fees"
      using replays_buy 2(5) ctx Side_buy by blast
    then show ?thesis using 2 p Side_buy by (simp add: apply_fill_def)
  next
    case Side_sell
    then obtain p p0 where p: "pos = Some p0"
        "apply_sell pos f d er None [] zero_money zero_money = Ok (OpenPosition p)"
      using 2(4) by (cases pos) (auto simp: apply_fill_def apply_sell_def split: result.splits PositionUpdate.splits)
    then have "replays (replay_step st ?ctx) (Some p) (profit + cents (fill_pnl (p_avg_cost p0) f)) (fees + cents (f_fee f))"
      using replays_sell 2(5) ctx Side_sell by blast
    then show ?thesis using 2 p Side_sell by (simp add: apply_fill_def)
  qed
qed simp


section \<open>Concrete runs of polling\<close>

text \<open>
  The order of the sample request is at the broker, which fills its 30 shares at a price.
\<close>

definition filling_engine :: "Price \<Rightarrow> FakeBroker engine" where
  "filling_engine price = \<lparr>eng_conn = open_conn (sample_db\<lparr>decisions := [entry_decision],
       approvals := [req_approval sample_request], orders := [new_order sample_request Mode_paper]\<rparr>) (\<lambda>_. None),
     eng_world = with_fill_plan ''order_dec_1'' [(Quantity 30, price)]
       (snd (fake_submit (broker_request sample_request) (fake_broker 0))), eng_log = []\<rparr>"

definition sample_poll :: "FakeBroker poll_args" where
  "sample_poll = \<lparr>pa_broker = fake_ops, pa_clock = (\<lambda>x. (7, x)), pa_sleep = (\<lambda>_ x. x),
     pa_uuid4 = (\<lambda>x. (''ab12'', x)),
     pa_client_order_id = ''order_dec_1'', pa_order_id = ''order_dec_1'', pa_decision = entry_decision,
     pa_side = Side_buy, pa_exit_reason = None, pa_poll_timeout_s = 60, pa_poll_interval_s = 2\<rparr>"

theorem polling_returns_witness: "\<exists>r s'. poll_and_settle sample_poll (filling_engine (Price 123400)) = Some (r, s')"
  by (rule polling_returns) (simp add: sample_poll_def)

lemma sample_notional: "cents (mk_Money (price_times (Price 123400) 30)) = 37020"
  by (rule money.mk_of_grid) (simp add: dval_price_times)

lemma tiny_notional: "cents (mk_Money (price_times (Price 1) 30)) = 0"
proof -
  have "\<lfloor>3 / 10 :: rat\<rfloor> = 0" by (simp add: floor_eq_iff)
  then show ?thesis by (simp add: money.units_mk_rhe dval_price_times rhe_def Let_def)
qed

lemmas fill_run_defs = filling_engine_def sample_poll_def run_defs new_order_def broker_request_def
  with_fill_plan_def fake_get_order_def order_from_fills_def terminal_statuses_def

lemma sample_start:
  "initial_poll (list_fills (eng_conn (filling_engine p)) (pa_order_id sample_poll)) = initial_poll []"
  by (simp add: list_fills_def fill_run_defs)

lemma no_notional: "ps_recorded_notional (initial_poll []) = zero_money"
  by (simp add: initial_poll_def fills_notional_def zero_money_def)

lemma sample_reported:
  "\<exists>bo x1. broker_get_order (pa_broker sample_poll) (pa_client_order_id sample_poll) (eng_world (filling_engine p)) = (Ok bo, x1)
    \<and> bo_filled_avg_price bo = Some p \<and> bo_filled_qty bo = Quantity 30 \<and> bo_status bo = OS_filled"
  by (simp add: fill_run_defs Let_def)

text \<open>The first fill of a buy without a position is recorded, when no statement fails.\<close>

lemma first_fill_recorded:
  assumes "bo_filled_avg_price bo = Some p" "0 < shares (bo_filled_qty bo)"
    and "0 < cents (mk_Money (price_times p (shares (bo_filled_qty bo))))"
    and "faults (eng_conn s) = (\<lambda>_. None)" "fills (working (eng_conn s)) = []"
    and "has_key o_id (pa_order_id a) (orders (working (eng_conn s)))"
    and "get_position (eng_conn s) (d_ticker (pa_decision a)) = None" "pa_side a = Side_buy"
  shows "\<exists>ps' s'. record_new_fill a bo (initial_poll []) s = (Ok ps', s')
    \<and> ps_fills_recorded ps' = 1 \<and> faults (eng_conn s') = (\<lambda>_. None)
    \<and> orders (working (eng_conn s')) = orders (working (eng_conn s))"
proof -
  obtain u x1 where u: "pa_uuid4 a (eng_world s) = (u, x1)" by fastforce
  obtain now x2 where now: "pa_clock a x1 = (now, x2)" by fastforce
  have new: "ps_recorded_qty (initial_poll []) = 0" "ps_fills_recorded (initial_poll []) = 0"
    by (simp_all add: initial_poll_def)
  let ?f = "new_fill a u now (shares (bo_filled_qty bo))
    (money_sub (mk_Money (price_times p (shares (bo_filled_qty bo)))) zero_money)"
  obtain c3 where ins: "insert_fill (eng_conn s) ?f = (Ok ?f, c3)"
    using assms(4-6) by (simp add: insert_fill_Ok has_key_def)
  then have c3: "faults c3 = (\<lambda>_. None)" "get_position c3 (d_ticker (pa_decision a)) = None"
    "orders (working c3) = orders (working (eng_conn s))"
    using assms(4,7) by (simp_all add: insert_fill_Ok get_position_def)
  then obtain p' where "apply_fill None ?f (pa_decision a) Side_buy (pa_exit_reason a) None [] zero_money zero_money = Ok (OpenPosition p')"
    by (simp add: apply_fill_def apply_buy_def)
  then obtain c4 where c4: "settle_fill c3 (pa_decision a) ?f Side_buy (pa_exit_reason a) = (Ok (), c4)"
    using c3 by (simp add: settle_fill_def empty_replay_state_def upsert_position_def wrap_stmt_def
        run_stmt_def Let_def)
  then have "faults c4 = (\<lambda>_. None)" "orders (working c4) = orders (working (eng_conn s))"
    using c3 fills_settle_fill [OF c4] by (auto simp: same_store_def)
  then show ?thesis
    using assms(1-3,8) ins c4 by (simp add: record_new_fill_def Let_def u now new no_notional)
qed

lemma sample_ready:
  "faults (eng_conn (filling_engine p)) = (\<lambda>_. None)" "fills (working (eng_conn (filling_engine p))) = []"
  "has_key o_id (pa_order_id sample_poll) (orders (working (eng_conn (filling_engine p))))"
  "get_position (eng_conn (filling_engine p)) (d_ticker (pa_decision sample_poll)) = None"
  "pa_side sample_poll = Side_buy"
  by (simp_all add: fill_run_defs get_position_def position_of_def)

lemma sample_round:
  "\<exists>s'. poll_once sample_poll (initial_poll []) (filling_engine (Price 123400))
    = (Poll_done (Ok \<lparr>po_fills_recorded = 1, po_final_status = OS_filled\<rparr>), s')"
proof -
  let ?s = "filling_engine (Price 123400)"
  obtain bo x1 where bo: "broker_get_order (pa_broker sample_poll) (pa_client_order_id sample_poll) (eng_world ?s) = (Ok bo, x1)"
    "bo_filled_avg_price bo = Some (Price 123400)" "bo_filled_qty bo = Quantity 30" "bo_status bo = OS_filled"
    using sample_reported by blast
  obtain ps' s' where rec: "record_new_fill sample_poll bo (initial_poll []) (?s\<lparr>eng_world := x1\<rparr>) = (Ok ps', s')"
    "ps_fills_recorded ps' = 1" "faults (eng_conn s') = (\<lambda>_. None)"
    "orders (working (eng_conn s')) = orders (working (eng_conn ?s))"
    using first_fill_recorded [of bo "Price 123400" "?s\<lparr>eng_world := x1\<rparr>" sample_poll]
    by (auto simp: bo sample_notional sample_ready)
  obtain c' where up: "update_order_status (eng_conn s') (pa_order_id sample_poll) OS_filled None
      (Some (bo_broker_order_id bo)) None = (Ok (), c')"
    using rec(3,4) sample_ready(3) by (simp add: update_order_status_Ok)
  then show ?thesis
    using record_new_fill_keeps [OF rec(1)] rec(1,2) bo up
    by (auto simp: poll_once_def update_polled_status_def initial_poll_def terminal_statuses_def)
qed

lemma sample_filled:
  "\<exists>s'. poll_and_settle sample_poll (filling_engine (Price 123400))
    = Some (Ok \<lparr>po_fills_recorded = 1, po_final_status = OS_filled\<rparr>, s')"
  using sample_round
  by (auto simp: poll_and_settle_def sample_start poll_loop.simps [of sample_poll "initial_poll []"])


theorem fills_within_order_witness:
  "\<exists>r s'. poll_and_settle sample_poll (filling_engine (Price 123400)) = Some (r, s')
    \<and> recorded_shares (working (eng_conn s')) ''order_dec_1'' \<le> 30"
proof -
  let ?s = "filling_engine (Price 123400)"
  obtain r s' where run: "poll_and_settle sample_poll ?s = Some (r, s')" using sample_filled by blast
  have "broker_laws (pa_broker sample_poll) fb_orders fake_sane"
    using fake.broker_laws_axioms by (simp add: sample_poll_def)
  moreover have "quiet_world fb_orders fake_sane sample_poll"
    by (simp add: quiet_world_def leaves_orders_def sample_poll_def)
  moreover have "fake_sane (eng_world ?s)"
    by (auto simp: fake_sane_def plan_sane_def fill_run_defs Let_def split: if_splits)
  moreover have "fb_orders (eng_world ?s) (pa_client_order_id sample_poll) = Some (broker_request sample_request)"
    by (simp add: fill_run_defs Let_def)
  moreover have "recorded_shares (working (eng_conn ?s)) (pa_order_id sample_poll) = 0"
    "shares (or_qty (broker_request sample_request)) = 30"
    by (simp_all add: recorded_shares_def fill_run_defs)
  ultimately have "recorded_shares (working (eng_conn s')) (pa_order_id sample_poll)
      \<le> shares (or_qty (broker_request sample_request))"
    by (intro fills_within_order [where accepted = fb_orders and sane = fake_sane, OF _ _ _ _ _ run]) simp_all
  moreover have "pa_order_id sample_poll = ''order_dec_1''" "shares (or_qty (broker_request sample_request)) = 30"
    by (simp_all add: fill_run_defs)
  ultimately show ?thesis using run by (simp only:) blast
qed

text \<open>Thirty shares at a hundredth of a cent: the order is filled and the ledger holds nothing.\<close>

theorem final_fill_dropped_witness:
  "\<exists>r s'. poll_and_settle sample_poll (filling_engine (Price 1)) = Some (r, s')
    \<and> fills (working (eng_conn s')) = [] \<and> positions (working (eng_conn s')) = []"
proof -
  obtain bo x1 where bo: "broker_get_order (pa_broker sample_poll) (pa_client_order_id sample_poll)
      (eng_world (filling_engine (Price 1))) = (Ok bo, x1)"
    "bo_filled_avg_price bo = Some (Price 1)" "bo_filled_qty bo = Quantity 30" "bo_status bo = OS_filled"
    using sample_reported by blast
  obtain r s' where run: "poll_and_settle sample_poll (filling_engine (Price 1)) = Some (r, s')"
    using polling_returns [of sample_poll "filling_engine (Price 1)"] by (auto simp: sample_poll_def)
  have none: "list_fills (eng_conn (filling_engine (Price 1))) (pa_order_id sample_poll) = []"
    by (simp add: list_fills_def fill_run_defs)
  have "fills (working (eng_conn s')) = fills (working (eng_conn (filling_engine (Price 1))))
      \<and> positions (working (eng_conn s')) = positions (working (eng_conn (filling_engine (Price 1))))"
    using final_fill_dropped [OF bo(1) _ bo(2) _ run]
    by (simp add: bo none tiny_notional terminal_statuses_def fills_notional_def flip: zero_money_def)
  moreover have "positions (working (eng_conn (filling_engine (Price 1)))) = []"
    by (simp add: fill_run_defs)
  ultimately show ?thesis using run sample_ready(2) by (simp only:) blast
qed


end
