(* ===== verification/Kill_Switch.thy ===== *)
theory Kill_Switch
  imports Order_Executor Iso_Time
begin

text \<open>
  engine/kill_switch.py: cancel the open orders, persist the halt with its reason and time in one
  transaction, and ask for it or clear it. The cancellation may fail; the halt is persisted all the
  same. Log messages are not modelled.
\<close>

type_synonym KillSwitchError = string

definition halted_key :: string where
  "halted_key = ''halted''"

definition halted_reason_key :: string where
  "halted_reason_key = ''halted_reason''"

definition halted_at_key :: string where
  "halted_at_key = ''halted_at''"

definition halted_value :: string where
  "halted_value = ''true''"

record KillSwitchOutcome =
  ks_canceled_count :: "int option"
  ks_cancel_error :: "string option"
  ks_halted_at :: datetime

record HaltInfo =
  hi_reason :: string
  hi_halted_at :: datetime

text \<open>The loop over the three keys: the first failed write raises.\<close>

fun set_states :: "(string \<times> string) list \<Rightarrow> conn \<Rightarrow> (unit, string) result \<times> conn" where
  "set_states [] c = (Ok (), c)"
| "set_states ((k, v) # kvs) c = (case set_engine_state c k v of
     (Err e, c') \<Rightarrow> (Err e, c')
   | (Ok _, c') \<Rightarrow> set_states kvs c')"

definition trigger :: "LossLimitBreach \<Rightarrow> 'x Broker \<Rightarrow> 'x Clock \<Rightarrow> 'x engine
    \<Rightarrow> (KillSwitchOutcome, KillSwitchError) result \<times> 'x engine" where
  "trigger breach broker clock s =
    (let (cancel_result, x1) = cancel_all_open broker (eng_world s);
         canceled_count = (case cancel_result of Ok n \<Rightarrow> Some n | Err e \<Rightarrow> None);
         cancel_error = (case cancel_result of Ok n \<Rightarrow> None | Err e \<Rightarrow> Some e);
         (now, x2) = clock x1;
         s2 = s\<lparr>eng_world := x2\<rparr> in
     case transaction (set_states [(halted_key, halted_value), (halted_reason_key, br_reason breach),
            (halted_at_key, isoformat now)]) (eng_conn s2) of
       (Err e, c') \<Rightarrow> (Err (''could not persist halted state: '' @ e), s2\<lparr>eng_conn := c'\<rparr>)
     | (Ok _, c') \<Rightarrow> (Ok \<lparr>ks_canceled_count = canceled_count, ks_cancel_error = cancel_error,
         ks_halted_at = now\<rparr>, s2\<lparr>eng_conn := c'\<rparr>))"

definition is_halted :: "conn \<Rightarrow> bool" where
  "is_halted c = (get_engine_state c halted_key = Some halted_value)"

text \<open>
  The stored time is read back; a text that is not a timestamp raises. \<open>datetime.min\<close> is
  0001-01-01.
\<close>

definition datetime_min :: datetime where
  "datetime_min = (1 - epoch_ordinal) * microseconds_per_day"

definition halt_info :: "conn \<Rightarrow> HaltInfo option py_call" where
  "halt_info c =
    (if \<not> is_halted c then Returns None
     else let reason = (case get_engine_state c halted_reason_key of None \<Rightarrow> '''' | Some r \<Rightarrow> r) in
       case get_engine_state c halted_at_key of
         None \<Rightarrow> Returns (Some \<lparr>hi_reason = reason, hi_halted_at = datetime_min\<rparr>)
       | Some raw \<Rightarrow> if raw = '''' then Returns (Some \<lparr>hi_reason = reason, hi_halted_at = datetime_min\<rparr>)
           else (case fromisoformat raw of
             None \<Rightarrow> Raises ''ValueError''
           | Some t \<Rightarrow> Returns (Some \<lparr>hi_reason = reason, hi_halted_at = t\<rparr>)))"

fun delete_states :: "string list \<Rightarrow> conn \<Rightarrow> (unit, string) result \<times> conn" where
  "delete_states [] c = (Ok (), c)"
| "delete_states (k # ks) c = (case delete_engine_state c k of
     (Err e, c') \<Rightarrow> (Err e, c')
   | (Ok _, c') \<Rightarrow> delete_states ks c')"

definition resume :: "conn \<Rightarrow> (unit, KillSwitchError) result \<times> conn" where
  "resume c = (case transaction (delete_states [halted_key, halted_reason_key, halted_at_key]) c of
     (Err e, c') \<Rightarrow> (Err (''could not resume: '' @ e), c')
   | (Ok _, c') \<Rightarrow> (Ok (), c'))"

section \<open>The writes\<close>

lemma keys_distinct [simp]:
  "halted_key \<noteq> halted_reason_key" "halted_key \<noteq> halted_at_key" "halted_reason_key \<noteq> halted_at_key"
  "halted_reason_key \<noteq> halted_key" "halted_at_key \<noteq> halted_key" "halted_at_key \<noteq> halted_reason_key"
  by (simp_all add: halted_key_def halted_reason_key_def halted_at_key_def)

lemma set_states_Ok:
  "set_states kvs c = (Ok u, c') \<Longrightarrow>
    working c' = fold (\<lambda>(k, v). put_state (k, Some v)) kvs (working c)"
  by (induction kvs arbitrary: c) (auto simp: set_engine_state_Ok split: prod.splits result.splits)

lemma same_store_set_states [frame]: "set_states kvs c = (r, c') \<Longrightarrow> same_store c c'"
proof (induction kvs arbitrary: c)
  case (Cons kv kvs)
  obtain r1 c1 where 1: "set_engine_state c (fst kv) (snd kv) = (r1, c1)" by fastforce
  have "same_store c1 c'" if "r1 = Ok ()" using Cons 1 that by (cases kv) simp
  then show ?case
    using Cons.prems 1 same_store_set_engine_state [OF 1] by (cases kv; cases r1) (auto intro: same_store_trans)
qed simp

lemma delete_states_Ok:
  "delete_states ks c = (Ok u, c') \<Longrightarrow> working c' = fold del_state ks (working c)"
  by (induction ks arbitrary: c) (auto simp: delete_engine_state_Ok split: prod.splits result.splits)

lemma same_store_delete_states [frame]: "delete_states ks c = (r, c') \<Longrightarrow> same_store c c'"
proof (induction ks arbitrary: c)
  case (Cons k ks)
  obtain r1 c1 where 1: "delete_engine_state c k = (r1, c1)" by fastforce
  have "same_store c1 c'" if "r1 = Ok ()" using Cons 1 that by simp
  then show ?case
    using Cons.prems 1 same_store_delete_engine_state [OF 1] by (cases r1) (auto intro: same_store_trans)
qed simp

text \<open>What a fresh connection to the database would see.\<close>

definition reopened :: "conn \<Rightarrow> conn" where
  "reopened c = open_conn (committed c) (\<lambda>_. None)"

lemma engine_state_cong: "working c = working c' \<Longrightarrow> get_engine_state c k = get_engine_state c' k"
  by (simp add: get_engine_state_def)

lemma is_halted_cong: "working c = working c' \<Longrightarrow> is_halted c = is_halted c'"
  by (simp add: is_halted_def get_engine_state_def)

section \<open>Properties\<close>

lemma trigger_Ok:
  assumes "trigger breach broker clock s = (Ok k, s')"
  shows "eng_log s' = eng_log s \<and> committed (eng_conn s') = working (eng_conn s')
    \<and> ks_halted_at k = fst (clock (snd (cancel_all_open broker (eng_world s))))
    \<and> working (eng_conn s') = fold (\<lambda>(k, v). put_state (k, Some v)) [(halted_key, halted_value),
        (halted_reason_key, br_reason breach), (halted_at_key, isoformat (ks_halted_at k))] (working (eng_conn s))"
proof -
  obtain cr x1 where cr: "cancel_all_open broker (eng_world s) = (cr, x1)" by fastforce
  obtain now x2 where now: "clock x1 = (now, x2)" by fastforce
  let ?kvs = "[(halted_key, halted_value), (halted_reason_key, br_reason breach), (halted_at_key, isoformat now)]"
  obtain tr c' where t: "transaction (set_states ?kvs) (eng_conn s) = (tr, c')" by fastforce
  then obtain u where u: "tr = Ok u" and s': "s' = s\<lparr>eng_world := x2, eng_conn := c'\<rparr>" and k: "ks_halted_at k = now"
    using assms by (cases tr) (auto simp: trigger_def Let_def cr now)
  obtain c1 where "set_states ?kvs (eng_conn s) = (Ok u, c1)" "c' = c1\<lparr>stmts := Suc (stmts c1), committed := working c1\<rparr>"
    using transaction_Ok [OF t [unfolded u]] by blast
  then show ?thesis using set_states_Ok [of ?kvs "eng_conn s" u c1] s' k cr now by simp
qed

text \<open>
  C30: when the kill switch returns, the halt is durable: the engine is halted on this connection and
  on any that opens the database later, even if cancelling the open orders failed, and the reason
  and the time read back as they were given.
\<close>

theorem trigger_halts:
  assumes "trigger breach broker clock s = (Ok k, s')" and "valid_instant (ks_halted_at k)"
  shows "is_halted (eng_conn s') \<and> is_halted (reopened (eng_conn s'))
    \<and> halt_info (reopened (eng_conn s'))
        = Returns (Some \<lparr>hi_reason = br_reason breach, hi_halted_at = ks_halted_at k\<rparr>)
    \<and> eng_log s' = eng_log s"
proof -
  note t = trigger_Ok [OF assms(1)]
  have w: "working (reopened (eng_conn s')) = working (eng_conn s')"
    using t by (simp add: reopened_def open_conn_def)
  have state: "get_engine_state (eng_conn s') halted_key = Some halted_value"
    "get_engine_state (eng_conn s') halted_reason_key = Some (br_reason breach)"
    "get_engine_state (eng_conn s') halted_at_key = Some (isoformat (ks_halted_at k))"
    using t by (simp_all add: get_engine_state_def state_store.get_put)
  have "isoformat (ks_halted_at k) \<noteq> ''''"
    by (auto simp: isoformat_def Let_def)
  then show ?thesis
    using state t fromisoformat_isoformat [OF assms(2)]
    by (simp add: is_halted_def halt_info_def engine_state_cong [OF w] Let_def)
qed

text \<open>
  \<open>resume\<close> clears the halt and nothing else: after it the engine is not halted, here and on a new
  connection, and every other engine state and every table is as it was.
\<close>

theorem resume_clears_only_the_halt:
  assumes "resume c = (Ok u, c')"
  shows "\<not> is_halted c' \<and> halt_info (reopened c') = Returns None
    \<and> (k \<notin> {halted_key, halted_reason_key, halted_at_key} \<longrightarrow> get_engine_state c' k = get_engine_state c k)
    \<and> (working c')\<lparr>engine_state := []\<rparr> = (working c)\<lparr>engine_state := []\<rparr>"
proof -
  let ?ks = "[halted_key, halted_reason_key, halted_at_key]"
  obtain c1 where del: "delete_states ?ks c = (Ok (), c1)" and c': "c' = c1\<lparr>stmts := Suc (stmts c1), committed := working c1\<rparr>"
    using assms transaction_Ok [of "delete_states ?ks" c _ c']
    by (auto simp: resume_def split: prod.splits result.splits)
  note w = delete_states_Ok [OF del]
  have "state_of k' (working c') = (if k' \<in> set ?ks then None else state_of k' (working c))" for k'
    unfolding c' using w state_store.get_fold_del [of k' ?ks "working c"] by simp
  then have "get_engine_state c' k' = (if k' \<in> set ?ks then None else get_engine_state c k')" for k'
    by (simp add: get_engine_state_def)
  moreover have "working (reopened c') = working c'" by (simp add: c' reopened_def open_conn_def)
  moreover have "(working c')\<lparr>engine_state := []\<rparr> = (working c)\<lparr>engine_state := []\<rparr>"
    using w by (simp add: c' del_state_def)
  moreover have "get_engine_state (reopened c') halted_key = get_engine_state c' halted_key"
    using calculation(2) by (rule engine_state_cong)
  ultimately show ?thesis by (simp add: is_halted_def halt_info_def)
qed

section \<open>Concrete runs\<close>

definition sample_breach :: LossLimitBreach where
  "sample_breach = \<lparr>br_kind = Kind_daily, br_observed = Amount (Money (- 8000)),
     br_limit = Amount (Money 7500), br_reason = ''daily P&L -80.00 <= -75.00''\<rparr>"

text \<open>A broker whose cancellation fails.\<close>

definition stuck_broker :: "FakeBroker Broker" where
  "stuck_broker = fake_ops\<lparr>cancel_all_open := (\<lambda>s. (Err ''timed out'', s))\<rparr>"

lemma set_states_no_fault:
  "faults c = (\<lambda>_. None) \<Longrightarrow> \<exists>c'. set_states kvs c = (Ok (), c') \<and> faults c' = (\<lambda>_. None)"
proof (induction kvs arbitrary: c)
  case (Cons kv kvs)
  obtain c1 where "set_engine_state c (fst kv) (snd kv) = (Ok (), c1)" "faults c1 = (\<lambda>_. None)"
    using Cons.prems by (simp add: set_engine_state_Ok)
  then show ?case using Cons.IH by (cases kv) simp
qed simp

lemma delete_states_no_fault:
  "faults c = (\<lambda>_. None) \<Longrightarrow> \<exists>c'. delete_states ks c = (Ok (), c') \<and> faults c' = (\<lambda>_. None)"
proof (induction ks arbitrary: c)
  case (Cons k ks)
  obtain c1 where "delete_engine_state c k = (Ok (), c1)" "faults c1 = (\<lambda>_. None)"
    using Cons.prems by (simp add: delete_engine_state_Ok)
  then show ?case using Cons.IH by simp
qed simp

lemma transaction_no_fault:
  "body c = (Ok v, c1) \<Longrightarrow> faults c1 = (\<lambda>_. None)
    \<Longrightarrow> transaction body c = (Ok v, c1\<lparr>stmts := Suc (stmts c1), committed := working c1\<rparr>)"
  by (simp add: transaction_def commit_def)

lemma trigger_no_fault:
  assumes "faults (eng_conn s) = (\<lambda>_. None)"
  shows "\<exists>k s'. trigger breach broker clock s = (Ok k, s')"
proof -
  obtain cr x1 where cr: "cancel_all_open broker (eng_world s) = (cr, x1)" by fastforce
  obtain now x2 where now: "clock x1 = (now, x2)" by fastforce
  obtain c1 where "set_states [(halted_key, halted_value), (halted_reason_key, br_reason breach),
      (halted_at_key, isoformat now)] (eng_conn s) = (Ok (), c1)" "faults c1 = (\<lambda>_. None)"
    using set_states_no_fault [OF assms] by blast
  then show ?thesis by (simp add: trigger_def Let_def cr now transaction_no_fault)
qed

theorem trigger_halts_witness:
  "\<exists>k s'. trigger sample_breach stuck_broker (\<lambda>x. (0, x)) sample_engine = (Ok k, s') \<and> is_halted (reopened (eng_conn s'))"
proof -
  have "faults (eng_conn sample_engine) = (\<lambda>_. None)" by (simp add: sample_engine_def open_conn_def)
  then obtain k s' where t: "trigger sample_breach stuck_broker (\<lambda>x. (0, x)) sample_engine = (Ok k, s')"
    using trigger_no_fault [of sample_engine sample_breach stuck_broker "\<lambda>x. (0, x)"] by blast
  have "valid_instant (ks_halted_at k)"
    using trigger_Ok [OF t] by (simp add: valid_instant_def valid_day_def utc_date_def epoch_ordinal_def)
  from trigger_halts [OF t this] t show ?thesis by blast
qed

definition halted_conn :: conn where
  "halted_conn = open_conn (sample_db\<lparr>engine_state := [(halted_key, Some halted_value), (''peak_equity'', Some ''2500.00'')]\<rparr>) (\<lambda>_. None)"

theorem resume_clears_only_the_halt_witness:
  "\<exists>c'. resume halted_conn = (Ok (), c') \<and> is_halted halted_conn \<and> \<not> is_halted c'
    \<and> get_engine_state c' ''peak_equity'' = Some ''2500.00''"
proof -
  have "faults halted_conn = (\<lambda>_. None)" by (simp add: halted_conn_def open_conn_def)
  then obtain c1 where "delete_states [halted_key, halted_reason_key, halted_at_key] halted_conn = (Ok (), c1)"
    "faults c1 = (\<lambda>_. None)" using delete_states_no_fault by blast
  then obtain c' where r: "resume halted_conn = (Ok (), c')" by (simp add: resume_def transaction_no_fault)
  have "is_halted halted_conn \<and> get_engine_state halted_conn ''peak_equity'' = Some ''2500.00''" by code_simp
  with r resume_clears_only_the_halt [OF r, of "''peak_equity''"] show ?thesis
    by (auto simp: halted_key_def halted_reason_key_def halted_at_key_def)
qed

end
