(* ===== verification/Source_Repository.thy ===== *)
theory Source_Repository
  imports Portfolio_Repository
begin

text \<open>
  ledger/source_repository.py: the provenance of an ingest and the mentions it brought. A mention
  whose id, or whose source, external id and ticker, are already stored is skipped. The stored
  texts of timestamps order as their instants when they are all in UTC.
\<close>

definition put_source :: "source_row \<Rightarrow> db \<Rightarrow> db" where
  "put_source r d = d\<lparr>sources := put_row src_source_id r (sources d)\<rparr>"

definition upsert_source :: "conn \<Rightarrow> string \<Rightarrow> string \<Rightarrow> datetime \<Rightarrow> string \<Rightarrow> int
    \<Rightarrow> (unit, LedgerError) result \<times> conn" where
  "upsert_source c source_id name imported_at file_sha256 record_count =
     wrap_stmt ''could not upsert source: '' ()
       (run_stmt (\<lambda>d. Ok (put_source \<lparr>src_source_id = source_id, src_name = name,
         src_imported_at = imported_at, src_file_sha256 = file_sha256,
         src_record_count = record_count\<rparr> d, ())) c)"

definition get_source :: "conn \<Rightarrow> string \<Rightarrow> source_row option" where
  "get_source c source_id = find_row src_source_id source_id (sources (working c))"

definition mention_key :: "Mention \<Rightarrow> string \<times> string \<times> string" where
  "mention_key m = (m_source_id m, m_external_id m, m_ticker m)"

text \<open>\<open>INSERT OR IGNORE\<close>: the row count is 0 for an ignored row; a missing source is an error.\<close>

definition insert_mention_stmt :: "Mention \<Rightarrow> db \<Rightarrow> (db \<times> nat, string) result" where
  "insert_mention_stmt m db =
    (if has_key m_id (m_id m) (mentions db) \<or> has_key mention_key (mention_key m) (mentions db)
     then Ok (db, 0)
     else if \<not> has_key src_source_id (m_source_id m) (sources db) then Err foreign_key_failed
     else Ok (db\<lparr>mentions := mentions db @ [m]\<rparr>, 1))"

fun insert_mentions_loop :: "nat \<Rightarrow> Mention list \<Rightarrow> conn \<Rightarrow> (nat, string) result \<times> conn" where
  "insert_mentions_loop inserted [] c = (Ok inserted, c)"
| "insert_mentions_loop inserted (m # ms) c = (case run_stmt (insert_mention_stmt m) c of
     (Err e, c') \<Rightarrow> (Err e, c')
   | (Ok n, c') \<Rightarrow> insert_mentions_loop (inserted + n) ms c')"

definition insert_mentions_many :: "conn \<Rightarrow> Mention list \<Rightarrow> (nat, LedgerError) result \<times> conn" where
  "insert_mentions_many c ms = (case insert_mentions_loop 0 ms c of
     (Ok n, c') \<Rightarrow> (Ok n, c')
   | (Err e, c') \<Rightarrow> (Err (''could not insert mentions: '' @ e), c'))"

definition list_mentions :: "conn \<Rightarrow> string \<Rightarrow> Mention list" where
  "list_mentions c source_id =
     sort_key m_posted_at (filter (\<lambda>m. m_source_id m = source_id) (mentions (working c)))"

lemma same_store_insert_mentions_loop:
  "insert_mentions_loop n ms c = (r, c') \<Longrightarrow> same_store c c'"
proof (induction ms arbitrary: n c)
  case (Cons m ms)
  then show ?case
    by (auto split: prod.splits result.splits dest: same_store_run_stmt intro: same_store_trans)
qed simp

text \<open>An ingest only ever adds mentions, and reports how many it added.\<close>

lemma insert_mentions_loop_grows:
  assumes "insert_mentions_loop n ms c = (Ok k, c')"
  shows "\<exists>new. mentions (working c') = mentions (working c) @ new \<and> k = n + length new
    \<and> set new \<subseteq> set ms \<and> sources (working c') = sources (working c)"
  using assms
proof (induction ms arbitrary: n c)
  case (Cons m ms)
  obtain j c1 where s: "run_stmt (insert_mention_stmt m) c = (Ok j, c1)"
    and l: "insert_mentions_loop (n + j) ms c1 = (Ok k, c')"
    using Cons.prems by (auto split: prod.splits result.splits)
  obtain new where new: "mentions (working c') = mentions (working c1) @ new" "k = n + j + length new"
    "set new \<subseteq> set ms" "sources (working c') = sources (working c1)"
    using Cons.IH [OF l] by auto
  from s have "mentions (working c1) = mentions (working c) \<and> j = 0 \<or>
      mentions (working c1) = mentions (working c) @ [m] \<and> j = 1"
    "sources (working c1) = sources (working c)"
    by (auto simp: run_stmt_Ok insert_mention_stmt_def split: if_splits)
  with new show ?case by auto
qed simp

text \<open>A mention already stored is not stored again.\<close>

lemma insert_mentions_loop_stored:
  assumes "\<And>m. m \<in> set ms \<Longrightarrow> has_key mention_key (mention_key m) (mentions (working c))"
    and "\<And>i. faults c i = None"
  shows "\<exists>c'. insert_mentions_loop n ms c = (Ok n, c') \<and> working c' = working c"
  using assms
proof (induction ms arbitrary: c)
  case (Cons m ms)
  let ?c = "c\<lparr>stmts := Suc (stmts c)\<rparr>"
  have "run_stmt (insert_mention_stmt m) c = (Ok 0, ?c)"
    using Cons.prems by (simp add: run_stmt_Ok insert_mention_stmt_def)
  moreover obtain c' where "insert_mentions_loop n ms ?c = (Ok n, c')" "working c' = working ?c"
    using Cons.IH [of ?c] Cons.prems by auto
  ultimately show ?case by auto
qed simp

lemma mention_stored:
  assumes "insert_mentions_loop n ms c = (Ok k, c')"
    and "\<And>m m'. m \<in> set ms \<Longrightarrow> m' \<in> set ms \<union> set (mentions (working c)) \<Longrightarrow> m_id m = m_id m'
      \<Longrightarrow> mention_key m = mention_key m'"
  shows "m \<in> set ms \<Longrightarrow> has_key mention_key (mention_key m) (mentions (working c'))"
  using assms
proof (induction ms arbitrary: n c)
  case (Cons x ms)
  obtain j c1 where s: "run_stmt (insert_mention_stmt x) c = (Ok j, c1)"
    and l: "insert_mentions_loop (n + j) ms c1 = (Ok k, c')"
    using Cons.prems(2) by (auto split: prod.splits result.splits)
  have x: "has_key mention_key (mention_key x) (mentions (working c1))"
    and sub: "set (mentions (working c1)) \<subseteq> insert x (set (mentions (working c)))"
    using s Cons.prems(3) [of x]
    by (auto simp: run_stmt_Ok insert_mention_stmt_def has_key_def split: if_splits)
  obtain new where "mentions (working c') = mentions (working c1) @ new"
    using insert_mentions_loop_grows [OF l] by auto
  with x have x': "has_key mention_key (mention_key x) (mentions (working c'))"
    by (auto simp: has_key_def)
  show ?case
  proof (cases "m = x")
    case False
    with Cons.prems(1) have "m \<in> set ms" by simp
    moreover have "mention_key a = mention_key b"
      if "a \<in> set ms" "b \<in> set ms \<union> set (mentions (working c1))" "m_id a = m_id b" for a b
      using that sub by (intro Cons.prems(3)) auto
    ultimately show ?thesis using l by (intro Cons.IH [of "n + j" c1]) auto
  qed (simp add: x')
qed simp

end
