(* ===== verification/Cycle.thy ===== *)
theory Cycle
  imports Candidates Fills Kill_Switch Source_Repository
begin

text \<open>
  engine/cycle.py: one decision and order cycle. What a cycle is given is the record \<open>CycleDeps\<close>; the
  connection, the outside world and the log of submissions are the engine's state. A cycle's value
  is \<open>None\<close> when polling does not return, and \<open>Raises\<close> when an exception escapes it. The process
  lock is two operations on the outside world.
\<close>

type_synonym CycleError = string

datatype CycleStatus = CS_ok | CS_halted | CS_market_unavailable | CS_error

definition cycle_status_value :: "CycleStatus \<Rightarrow> string" where
  "cycle_status_value st = (case st of CS_ok \<Rightarrow> ''ok'' | CS_halted \<Rightarrow> ''halted''
     | CS_market_unavailable \<Rightarrow> ''market_unavailable'' | CS_error \<Rightarrow> ''error'')"

record CycleOutcome =
  co_cycle_id :: string
  co_outcome :: CycleStatus
  co_decisions :: int
  co_orders :: int
  co_fills :: int
  co_error_summary :: "string option"
  co_candidates_skipped_reason :: "string option"

text \<open>Opening the lock file may raise \<open>OSError\<close>; \<open>flock\<close> says whether the lock was free.\<close>

record 'x CycleLock =
  lock_open :: "'x \<Rightarrow> unit py_call \<times> 'x"
  lock_flock :: "'x \<Rightarrow> bool \<times> 'x"
  lock_release :: "'x \<Rightarrow> 'x"

record 'x CycleDeps =
  cd_mode :: TradingMode
  cd_rules :: RuleSet
  cd_limits :: DerivedLimits
  cd_rule_set_sha256 :: string
  cd_broker :: "'x Broker"
  cd_market :: "'x MarketDataProvider"
  cd_llm :: "'x LlmClient option"
  cd_coerce :: "json \<Rightarrow> (LlmResponse, string list) result"
  cd_clock :: "'x Clock"
  cd_uuid4 :: "'x \<Rightarrow> string \<times> 'x"
  cd_ny_offset :: "datetime \<Rightarrow> int"
  cd_capital :: Money
  cd_poll_timeout_s :: int
  cd_poll_interval_s :: int
  cd_sleep :: "int \<Rightarrow> 'x \<Rightarrow> 'x"
  cd_lock :: "'x CycleLock option"

type_synonym 'x cycle_run = "(CycleOutcome, CycleError) result py_call \<times> 'x engine"

definition serenity_source_id :: string where
  "serenity_source_id = ''serenity''"

definition last_cycle_id_key :: string where
  "last_cycle_id_key = ''last_cycle_id''"

section \<open>Closing a cycle\<close>

text \<open>\<open>conn.commit()\<close> outside \<open>transaction\<close>: a failure raises and leaves the writes pending.\<close>

definition plain_commit :: "conn \<Rightarrow> (unit, string) result \<times> conn" where
  "plain_commit c = (case faults c (stmts c) of
     Some msg \<Rightarrow> (Err msg, c\<lparr>stmts := Suc (stmts c)\<rparr>)
   | None \<Rightarrow> (Ok (), c\<lparr>stmts := Suc (stmts c), committed := working c\<rparr>))"

definition commit_and_return :: "(CycleOutcome, CycleError) result \<Rightarrow> 'x engine \<Rightarrow> 'x cycle_run" where
  "commit_and_return v s = (case plain_commit (eng_conn s) of
     (Err m, c) \<Rightarrow> (Raises ''OperationalError'', s\<lparr>eng_conn := c\<rparr>)
   | (Ok _, c) \<Rightarrow> (Returns v, s\<lparr>eng_conn := c\<rparr>))"

definition finish :: "'x Clock \<Rightarrow> string \<Rightarrow> CycleStatus \<Rightarrow> string option \<Rightarrow> int \<Rightarrow> int \<Rightarrow> int \<Rightarrow> string option
    \<Rightarrow> 'x engine \<Rightarrow> 'x cycle_run" where
  "finish clock cycle_id outc error_summary ds os fs skipped_reason s =
    (let (now, x1) = clock (eng_world s); s1 = s\<lparr>eng_world := x1\<rparr> in
     case finish_cycle (eng_conn s1) cycle_id now (cycle_status_value outc) error_summary of
       (Err e, c1) \<Rightarrow> commit_and_return (Err e) (s1\<lparr>eng_conn := c1\<rparr>)
     | (Ok _, c1) \<Rightarrow>
         let c2 = (if outc \<noteq> CS_error then snd (set_engine_state c1 last_cycle_id_key cycle_id) else c1) in
         commit_and_return (Ok \<lparr>co_cycle_id = cycle_id, co_outcome = outc, co_decisions = ds, co_orders = os,
           co_fills = fs, co_error_summary = error_summary, co_candidates_skipped_reason = skipped_reason\<rparr>)
           (s1\<lparr>eng_conn := c2\<rparr>))"

section \<open>Risk\<close>

definition prior_peak_equity :: "conn \<Rightarrow> Money \<Rightarrow> day \<Rightarrow> Money" where
  "prior_peak_equity c capital today =
    (let prior = filter (\<lambda>s. s_snapshot_date s < today) (list_equity_snapshots c) in
     if prior = [] then capital else s_peak_equity (last prior))"

definition realized_totals :: "(datetime \<Rightarrow> int) \<Rightarrow> Trade list \<Rightarrow> datetime \<Rightarrow> Money \<times> Money" where
  "realized_totals ny ts now =
    (let today = trading_day ny now; week_start = trading_week_start ny now in
     foldl (\<lambda>(realized_today, realized_week) t.
       let trade_day = trading_day ny (t_closed_at t) in
       (if trade_day = today then money_add realized_today (t_realized_pnl t) else realized_today,
        if week_start \<le> trade_day then money_add realized_week (t_realized_pnl t) else realized_week))
      (zero_money, zero_money) ts)"

definition peak_of :: "Money \<Rightarrow> Money \<Rightarrow> Money" where
  "peak_of prior_peak equity = mk_Money (if dlt (money_amount prior_peak) (money_amount equity)
     then money_amount equity else money_amount prior_peak)"

definition snapshot_drawdown :: "Money \<Rightarrow> Money \<Rightarrow> decimal" where
  "snapshot_drawdown peak_equity equity =
     (if dlt (dec_of_int 0) (money_amount peak_equity) then drawdown_of peak_equity equity else dec_of_int 0)"

text \<open>\<open>None\<close> lets the cycle go on.\<close>

definition evaluate_risk :: "'x CycleDeps \<Rightarrow> string \<Rightarrow> HoldingsOutcome \<Rightarrow> int \<Rightarrow> 'x engine
    \<Rightarrow> (CycleOutcome, CycleError) result py_call option \<times> 'x engine" where
  "evaluate_risk deps cycle_id h n s =
    (let stop = (\<lambda>outc msg s. case finish (cd_clock deps) cycle_id outc (Some msg) n 0 0 None s of
         (r, s') \<Rightarrow> (Some r, s')) in
     case broker_account (cd_broker deps) (eng_world s) of
       (Err e, x1) \<Rightarrow> stop CS_market_unavailable e (s\<lparr>eng_world := x1\<rparr>)
     | (Ok account, x1) \<Rightarrow>
       let cash = ba_cash account;
           equity = money_add cash (ho_positions_value h);
           (now, x2) = cd_clock deps x1;
           s2 = s\<lparr>eng_world := x2\<rparr>;
           today = trading_day (cd_ny_offset deps) now;
           peak_equity = peak_of (prior_peak_equity (eng_conn s2) (cd_capital deps) today) equity in
       (case upsert_equity_snapshot (eng_conn s2) today (mode_value (cd_mode deps)) cash
              (ho_positions_value h) peak_equity (snapshot_drawdown peak_equity equity) now of
          (Err e, c3) \<Rightarrow> stop CS_error e (s2\<lparr>eng_conn := c3\<rparr>)
        | (Ok _, c3) \<Rightarrow>
          let (realized_today, realized_week) = realized_totals (cd_ny_offset deps) (list_trades c3) now in
          (case evaluate (cd_limits deps) realized_today (ho_unrealized_pnl h) realized_week equity peak_equity of
             None \<Rightarrow> (None, s2\<lparr>eng_conn := c3\<rparr>)
           | Some breach \<Rightarrow>
             (case trigger breach (cd_broker deps) (cd_clock deps) (s2\<lparr>eng_conn := c3\<rparr>) of
                (Err e, s4) \<Rightarrow> stop CS_error e s4
              | (Ok _, s4) \<Rightarrow> stop CS_halted (br_reason breach) s4))))"

section \<open>Execution\<close>

definition poll_args_of :: "'x CycleDeps \<Rightarrow> Decision \<Rightarrow> (string \<Rightarrow> ExitReason option) \<Rightarrow> Order \<Rightarrow> 'x poll_args" where
  "poll_args_of deps decision exit_reasons order =
     \<lparr>pa_broker = cd_broker deps, pa_clock = cd_clock deps, pa_sleep = cd_sleep deps, pa_uuid4 = cd_uuid4 deps,
      pa_client_order_id = o_client_order_id order, pa_order_id = o_id order, pa_decision = decision,
      pa_side = o_side order, pa_exit_reason = exit_reasons (d_id decision),
      pa_poll_timeout_s = cd_poll_timeout_s deps, pa_poll_interval_s = cd_poll_interval_s deps\<rparr>"

text \<open>One decision of the loop, with the orders and fills it adds.\<close>

definition execute_decision :: "'x CycleDeps \<Rightarrow> (string \<Rightarrow> ExitReason option) \<Rightarrow> MarketClock \<Rightarrow> Decision \<Rightarrow> 'x engine
    \<Rightarrow> ((int \<times> int) \<times> 'x engine) option" where
  "execute_decision deps exit_reasons mclock decision s =
    (if d_rule_check decision \<noteq> RC_passed \<or> d_action decision \<notin> {Action_buy, Action_sell} then Some ((0, 0), s)
     else (case resolve_approval (cd_uuid4 deps) (cd_clock deps) decision (cd_mode deps) (eng_conn s) mclock (eng_world s) of
       (Err e, x1) \<Rightarrow> Some ((0, 0), s\<lparr>eng_world := x1\<rparr>)
     | (Ok req, x1) \<Rightarrow> (case execute (cd_broker deps) (cd_clock deps) (cd_mode deps) req (s\<lparr>eng_world := x1\<rparr>) of
         (Err e, s2) \<Rightarrow> Some ((0, 0), s2)
       | (Ok order, s2) \<Rightarrow> (case poll_and_settle (poll_args_of deps decision exit_reasons order) s2 of
           None \<Rightarrow> None
         | Some (Err e, s3) \<Rightarrow> Some ((1, 0), s3)
         | Some (Ok p, s3) \<Rightarrow> Some ((1, po_fills_recorded p), s3)))))"

fun execute_passed_decisions :: "'x CycleDeps \<Rightarrow> (string \<Rightarrow> ExitReason option) \<Rightarrow> MarketClock \<Rightarrow> Decision list
    \<Rightarrow> int \<times> int \<Rightarrow> 'x engine \<Rightarrow> ((int \<times> int) \<times> 'x engine) option" where
  "execute_passed_decisions deps exit_reasons mclock [] counts s = Some (counts, s)"
| "execute_passed_decisions deps exit_reasons mclock (d # ds) counts s =
    (case execute_decision deps exit_reasons mclock d s of
       None \<Rightarrow> None
     | Some ((os, fs), s') \<Rightarrow>
         execute_passed_decisions deps exit_reasons mclock ds (fst counts + os, snd counts + fs) s')"

text \<open>Every way through the cycle that may trade ends like this.\<close>

definition execute_and_finish :: "'x CycleDeps \<Rightarrow> string \<Rightarrow> MarketClock \<Rightarrow> Decision list
    \<Rightarrow> (string \<Rightarrow> ExitReason option) \<Rightarrow> int \<Rightarrow> CycleStatus \<Rightarrow> string option \<Rightarrow> string option \<Rightarrow> 'x engine \<Rightarrow> 'x cycle_run option" where
  "execute_and_finish deps cycle_id mclock ds exit_reasons n outc error_summary skipped_reason s =
    (case (if mc_is_open mclock then execute_passed_decisions deps exit_reasons mclock ds (0, 0) s
           else Some ((0, 0), s)) of
       None \<Rightarrow> None
     | Some ((os, fs), s') \<Rightarrow> Some (finish (cd_clock deps) cycle_id outc error_summary n os fs skipped_reason s'))"

section \<open>The cycle\<close>

definition holdings_args_of :: "'x CycleDeps \<Rightarrow> string \<Rightarrow> 'x holdings_args" where
  "holdings_args_of deps cycle_id = \<lparr>ha_market = cd_market deps, ha_rules = cd_rules deps,
     ha_clock = cd_clock deps, ha_uuid4 = cd_uuid4 deps, ha_cycle_id = cycle_id,
     ha_rule_set_sha256 = cd_rule_set_sha256 deps, ha_mode = mode_value (cd_mode deps)\<rparr>"

definition candidates_args_of :: "'x CycleDeps \<Rightarrow> string \<Rightarrow> MarketClock \<Rightarrow> 'x candidates_args" where
  "candidates_args_of deps cycle_id mclock = \<lparr>ca_market = cd_market deps, ca_llm = cd_llm deps,
     ca_coerce = cd_coerce deps, ca_rules = cd_rules deps, ca_limits = cd_limits deps,
     ca_clock = cd_clock deps, ca_uuid4 = cd_uuid4 deps, ca_cycle_id = cycle_id,
     ca_rule_set_sha256 = cd_rule_set_sha256 deps, ca_mode = mode_value (cd_mode deps),
     ca_loss_breach = None, ca_market_open = mc_is_open mclock\<rparr>"

definition run_halted :: "'x CycleDeps \<Rightarrow> string \<Rightarrow> 'x engine \<Rightarrow> 'x cycle_run" where
  "run_halted deps cycle_id s =
    (case evaluate_holdings (holdings_args_of deps cycle_id) (list_positions (eng_conn s)) s of
       (r, s1) \<Rightarrow> finish (cd_clock deps) cycle_id CS_halted (Some ''engine is halted'')
         (case r of Ok h \<Rightarrow> int (length (ho_decisions h)) | Err e \<Rightarrow> 0) 0 0 None s1)"

definition run_buys :: "'x CycleDeps \<Rightarrow> string \<Rightarrow> MarketClock \<Rightarrow> Position list \<Rightarrow> HoldingsOutcome \<Rightarrow> int \<Rightarrow> 'x engine
    \<Rightarrow> 'x cycle_run option" where
  "run_buys deps cycle_id mclock ps h n s =
    (let held_tickers = remdups (map p_ticker ps);
         max_positions = max_concurrent_positions (rs_position (cd_rules deps)) in
     if max_positions \<le> int (length ps) then
       execute_and_finish deps cycle_id mclock (ho_decisions h) (ho_exit_reasons h) n CS_ok None
         (Some (''holdings '' @ show_nat (length ps) @ '' >= max_concurrent_positions '' @ show_int max_positions)) s
     else (case evaluate_candidates (candidates_args_of deps cycle_id mclock)
            (list_mentions (eng_conn s) serenity_source_id) held_tickers s of
         (Raises e, s1) \<Rightarrow> Some (Raises e, s1)
       | (Returns (Err e), s1) \<Rightarrow> Some (finish (cd_clock deps) cycle_id CS_error (Some e) n 0 0 None s1)
       | (Returns (Ok ds), s1) \<Rightarrow> execute_and_finish deps cycle_id mclock (ho_decisions h @ ds) (ho_exit_reasons h)
           (n + int (length ds)) CS_ok None None s1))"

definition run_open :: "'x CycleDeps \<Rightarrow> string \<Rightarrow> MarketClock \<Rightarrow> 'x engine \<Rightarrow> 'x cycle_run option" where
  "run_open deps cycle_id mclock s =
    (let ps = list_positions (eng_conn s) in
     case evaluate_holdings (holdings_args_of deps cycle_id) ps s of
       (Err e, s1) \<Rightarrow> Some (finish (cd_clock deps) cycle_id CS_error (Some e) 0 0 0 None s1)
     | (Ok h, s1) \<Rightarrow>
       let n = int (length (ho_decisions h)) in
       if ho_market_errors h \<noteq> [] then
         execute_and_finish deps cycle_id mclock (ho_decisions h) (ho_exit_reasons h) n CS_market_unavailable
           (Some (''no price for held ticker(s): '' @ join '', '' (ho_market_errors h))) None s1
       else (case evaluate_risk deps cycle_id h n s1 of
           (Some r, s2) \<Rightarrow> Some (r, s2)
         | (None, s2) \<Rightarrow> run_buys deps cycle_id mclock ps h n s2))"

definition run_locked :: "'x CycleDeps \<Rightarrow> 'x engine \<Rightarrow> 'x cycle_run option" where
  "run_locked deps s =
    (let (started_at, x1) = cd_clock deps (eng_world s);
         (u, x2) = cd_uuid4 deps x1;
         cycle_id = ''cycle_'' @ u in
     case insert_cycle (eng_conn s) cycle_id started_at (mode_value (cd_mode deps)) of
       (Err e, c) \<Rightarrow> Some (Returns (Err e), s\<lparr>eng_world := x2, eng_conn := c\<rparr>)
     | (Ok _, c) \<Rightarrow>
       if is_halted c then Some (run_halted deps cycle_id (s\<lparr>eng_world := x2, eng_conn := c\<rparr>))
       else (case market_clock (cd_market deps) x2 of
         (Err e, x3) \<Rightarrow> Some (finish (cd_clock deps) cycle_id CS_market_unavailable (Some e) 0 0 0 None
           (s\<lparr>eng_world := x3, eng_conn := c\<rparr>))
       | (Ok mclock, x3) \<Rightarrow> run_open deps cycle_id mclock (s\<lparr>eng_world := x3, eng_conn := c\<rparr>)))"

text \<open>The Japanese text "another cycle is running".\<close>

definition another_cycle_running :: string where
  "another_cycle_running = utf8 [229, 136, 165, 227, 129, 174, 227, 130, 181, 227, 130, 164, 227, 130, 175, 227, 131, 171, 227, 129, 140, 229, 174, 159, 232, 161, 140, 228, 184, 173, 227, 129, 167, 227, 129, 153]"

definition acquire_lock :: "'x CycleLock \<Rightarrow> 'x \<Rightarrow> (unit, CycleError) result py_call \<times> 'x" where
  "acquire_lock lock x = (case lock_open lock x of
     (Raises e, x1) \<Rightarrow> (Raises e, x1)
   | (Returns _, x1) \<Rightarrow> (case lock_flock lock x1 of
       (False, x2) \<Rightarrow> (Returns (Err another_cycle_running), x2)
     | (True, x2) \<Rightarrow> (Returns (Ok ()), x2)))"

definition run_cycle :: "'x CycleDeps \<Rightarrow> 'x engine \<Rightarrow> 'x cycle_run option" where
  "run_cycle deps s = (case cd_lock deps of
     None \<Rightarrow> run_locked deps s
   | Some lock \<Rightarrow> (case acquire_lock lock (eng_world s) of
       (Raises e, x1) \<Rightarrow> Some (Raises e, s\<lparr>eng_world := x1\<rparr>)
     | (Returns (Err e), x1) \<Rightarrow> Some (Returns (Err e), s\<lparr>eng_world := x1\<rparr>)
     | (Returns (Ok _), x1) \<Rightarrow> (case run_locked deps (s\<lparr>eng_world := x1\<rparr>) of
         None \<Rightarrow> None
       | Some (r, s') \<Rightarrow> Some (r, s'\<lparr>eng_world := lock_release lock (eng_world s')\<rparr>))))"

end
