(* ===== verification/Alpaca_Broker.thy ===== *)
theory Alpaca_Broker
  imports Llm_Output Llm_Client Fake_Broker Mode_Config
begin

text \<open>
  broker/alpaca_broker.py: the broker backed by Alpaca's trading API. The SDK's client is a parameter,
  a record of its calls; a call returns the decoded JSON of the response or raises. What pydantic
  makes of a \<open>datetime\<close> and Python's text of a \<open>float\<close> are parameters too. The order, position and
  account readers are modelled field by field.
\<close>

section \<open>The client\<close>

text \<open>
  The attributes of the SDK's client this module sets: the internal retry count (\<open>None\<close> when there is
  no such attribute) and the session's default timeout (\<open>None\<close> when there is no session).
\<close>

record client_settings =
  cs_retry :: "int option"
  cs_session_timeout :: "int option option"

datatype AlpacaOrderSide = BUY | SELL

datatype TimeInForce = DAY

record MarketOrderRequest =
  mo_symbol :: string
  mo_qty :: int
  mo_side :: AlpacaOrderSide
  mo_time_in_force :: TimeInForce
  mo_client_order_id :: string

record 'x TradingClient =
  tc_settings :: client_settings
  tc_submit_order :: "client_settings \<Rightarrow> MarketOrderRequest \<Rightarrow> 'x \<Rightarrow> json py_call \<times> 'x"
  tc_cancel_orders :: "client_settings \<Rightarrow> 'x \<Rightarrow> json py_call \<times> 'x"
  tc_get_order_by_client_id :: "client_settings \<Rightarrow> string \<Rightarrow> 'x \<Rightarrow> json py_call \<times> 'x"
  tc_get_all_positions :: "client_settings \<Rightarrow> 'x \<Rightarrow> json py_call \<times> 'x"
  tc_get_account :: "client_settings \<Rightarrow> 'x \<Rightarrow> json py_call \<times> 'x"
  tc_get_clock :: "client_settings \<Rightarrow> 'x \<Rightarrow> json py_call \<times> 'x"

text \<open>The arguments of the client's constructor.\<close>

record client_config =
  cf_api_key :: string
  cf_secret_key :: string
  cf_paper :: bool
  cf_raw_data :: bool
  cf_url_override :: "string option"

definition get_retry_policy :: RetryPolicy where
  "get_retry_policy = \<lparr>max_attempts = 3, base_delay_s = Dec False 5 (- 1), max_delay_s = Dec False 4 0\<rparr>"

definition default_timeout_s :: int where
  "default_timeout_s = 10"

definition paper_url :: string where
  "paper_url = ''https://paper-api.alpaca.markets''"

definition live_url :: string where
  "live_url = ''https://api.alpaca.markets''"

definition url_for_mode :: "TradingMode \<Rightarrow> string" where
  "url_for_mode m = (if m = Mode_paper then paper_url else live_url)"

definition install_timeout :: "int \<Rightarrow> 'x TradingClient \<Rightarrow> 'x TradingClient" where
  "install_timeout timeout_s client = client\<lparr>tc_settings := (tc_settings client)
     \<lparr>cs_session_timeout := map_option (\<lambda>t. Some timeout_s) (cs_session_timeout (tc_settings client))\<rparr>\<rparr>"

definition disable_internal_retry :: "'x TradingClient \<Rightarrow> 'x TradingClient" where
  "disable_internal_retry client = client\<lparr>tc_settings := (tc_settings client)
     \<lparr>cs_retry := map_option (\<lambda>n. 0) (cs_retry (tc_settings client))\<rparr>\<rparr>"

section \<open>Reading responses\<close>

text \<open>What the readers take from Python and pydantic.\<close>

record py_reading =
  float_repr :: "string \<Rightarrow> string"
  read_datetime :: "json \<Rightarrow> datetime option"

definition status_map :: "(string \<times> OrderStatus) list" where
  "status_map = [(''new'', OS_submitted), (''accepted'', OS_submitted), (''pending_new'', OS_submitted),
     (''partially_filled'', OS_partially_filled), (''filled'', OS_filled), (''canceled'', OS_canceled),
     (''expired'', OS_canceled), (''rejected'', OS_rejected)]"

text \<open>
  \<open>Decimal(str(value))\<close>: the text of a boolean, an array or an object is no number, and
  InvalidOperation is no ValueError, so pydantic does not turn it into a validation error.
\<close>

definition decimal_or_raise :: "string \<Rightarrow> dec_value option py_call" where
  "decimal_or_raise s = (case py_decimal s of None \<Rightarrow> Raises ''InvalidOperation'' | Some v \<Rightarrow> Returns (Some v))"

definition to_decimal :: "py_reading \<Rightarrow> json \<Rightarrow> dec_value option py_call" where
  "to_decimal rd j = (case j of
     JNull \<Rightarrow> Returns None
   | JString s \<Rightarrow> decimal_or_raise s
   | JInt n \<Rightarrow> decimal_or_raise (show_int n)
   | JFloat lit \<Rightarrow> decimal_or_raise (float_repr rd lit)
   | _ \<Rightarrow> Raises ''InvalidOperation'')"

text \<open>
  The fields of a model: \<open>None\<close> is a validation error of that field (missing, ill-typed, not finite).
\<close>

definition str_field :: "(string \<times> json) list \<Rightarrow> string \<Rightarrow> string option" where
  "str_field obj k = (case map_of obj k of Some (JString s) \<Rightarrow> Some s | _ \<Rightarrow> None)"

definition datetime_field :: "py_reading \<Rightarrow> (string \<times> json) list \<Rightarrow> string \<Rightarrow> datetime option" where
  "datetime_field rd obj k = (case map_of obj k of Some j \<Rightarrow> read_datetime rd j | None \<Rightarrow> None)"

definition finite_dec :: "dec_value option \<Rightarrow> decimal option" where
  "finite_dec v = (case v of Some (Finite d) \<Rightarrow> Some d | _ \<Rightarrow> None)"

definition decimal_field :: "py_reading \<Rightarrow> (string \<times> json) list \<Rightarrow> string \<Rightarrow> decimal option py_call" where
  "decimal_field rd obj k = (case map_of obj k of
     None \<Rightarrow> Returns None
   | Some j \<Rightarrow> (case to_decimal rd j of Raises e \<Rightarrow> Raises e | Returns v \<Rightarrow> Returns (finite_dec v)))"

text \<open>A field that may be absent or null.\<close>

definition optional_decimal_field :: "py_reading \<Rightarrow> (string \<times> json) list \<Rightarrow> string \<Rightarrow> decimal option option py_call" where
  "optional_decimal_field rd obj k = (case map_of obj k of
     None \<Rightarrow> Returns (Some None)
   | Some j \<Rightarrow> (case to_decimal rd j of
       Raises e \<Rightarrow> Raises e
     | Returns None \<Rightarrow> Returns (Some None)
     | Returns v \<Rightarrow> Returns (map_option Some (finite_dec v))))"

definition non_negative :: "decimal option \<Rightarrow> decimal option" where
  "non_negative v = (case v of Some d \<Rightarrow> if dlt d (dec_of_int 0) then None else Some d | None \<Rightarrow> None)"

definition non_negative_optional :: "decimal option option \<Rightarrow> decimal option option" where
  "non_negative_optional v = (case v of
     Some (Some d) \<Rightarrow> if dlt d (dec_of_int 0) then None else v
   | _ \<Rightarrow> v)"

text \<open>The names of the fields in error.\<close>

definition errors_of :: "(string \<times> bool) list \<Rightarrow> string list" where
  "errors_of checks = map fst (filter (\<lambda>(k, ok). \<not> ok) checks)"

record RawOrder =
  ro_id :: string
  ro_client_order_id :: string
  ro_status :: string
  ro_filled_qty :: decimal
  ro_filled_avg_price :: "decimal option"
  ro_updated_at :: datetime

definition raw_order :: "py_reading \<Rightarrow> json \<Rightarrow> (RawOrder, string list) result py_call" where
  "raw_order rd raw = (case raw of
     JObject obj \<Rightarrow>
       (case (decimal_field rd obj ''filled_qty'', optional_decimal_field rd obj ''filled_avg_price'') of
         (Returns qty, Returns price) \<Rightarrow>
           Returns (case (str_field obj ''id'', str_field obj ''client_order_id'', str_field obj ''status'',
               non_negative qty, non_negative_optional price, datetime_field rd obj ''updated_at'') of
             (Some i, Some cid, Some st, Some q, Some p, Some t) \<Rightarrow>
               Ok \<lparr>ro_id = i, ro_client_order_id = cid, ro_status = st, ro_filled_qty = q,
                 ro_filled_avg_price = p, ro_updated_at = t\<rparr>
           | (i, cid, st, q, p, t) \<Rightarrow> Err (errors_of [(''id'', i \<noteq> None), (''client_order_id'', cid \<noteq> None),
               (''status'', st \<noteq> None), (''filled_qty'', q \<noteq> None), (''filled_avg_price'', p \<noteq> None),
               (''updated_at'', t \<noteq> None)]))
       | (Raises e, _) \<Rightarrow> Raises e
       | (_, Raises e) \<Rightarrow> Raises e)
   | _ \<Rightarrow> Returns (Err []))"

record RawPosition =
  rp_symbol :: string
  rp_pos_qty :: decimal
  rp_avg_entry_price :: decimal

definition raw_position :: "py_reading \<Rightarrow> json \<Rightarrow> (RawPosition, string list) result py_call" where
  "raw_position rd raw = (case raw of
     JObject obj \<Rightarrow>
       (case (decimal_field rd obj ''qty'', decimal_field rd obj ''avg_entry_price'') of
         (Returns qty, Returns price) \<Rightarrow>
           Returns (case (str_field obj ''symbol'', qty, price) of
             (Some t, Some q, Some p) \<Rightarrow> Ok \<lparr>rp_symbol = t, rp_pos_qty = q, rp_avg_entry_price = p\<rparr>
           | (t, q, p) \<Rightarrow> Err (errors_of [(''symbol'', t \<noteq> None), (''qty'', q \<noteq> None),
               (''avg_entry_price'', p \<noteq> None)]))
       | (Raises e, _) \<Rightarrow> Raises e
       | (_, Raises e) \<Rightarrow> Raises e)
   | _ \<Rightarrow> Returns (Err []))"

record RawAccount =
  ra_cash :: decimal
  ra_equity :: decimal

definition raw_account :: "py_reading \<Rightarrow> json \<Rightarrow> (RawAccount, string list) result py_call" where
  "raw_account rd raw = (case raw of
     JObject obj \<Rightarrow>
       (case (decimal_field rd obj ''cash'', decimal_field rd obj ''equity'') of
         (Returns cash, Returns equity) \<Rightarrow>
           Returns (case (cash, equity) of
             (Some c, Some e) \<Rightarrow> Ok \<lparr>ra_cash = c, ra_equity = e\<rparr>
           | (c, e) \<Rightarrow> Err (errors_of [(''cash'', c \<noteq> None), (''equity'', e \<noteq> None)]))
       | (Raises e, _) \<Rightarrow> Raises e
       | (_, Raises e) \<Rightarrow> Raises e)
   | _ \<Rightarrow> Returns (Err []))"

definition quantity_from_decimal :: "decimal \<Rightarrow> (Quantity, BrokerError) result py_call" where
  "quantity_from_decimal d = (case quantity_parse (to_canonical d) of
     Raises e \<Rightarrow> Raises e
   | Returns (Err e) \<Rightarrow> Returns (Err ''broker returned a non-integer share quantity'')
   | Returns (Ok q) \<Rightarrow> Returns (Ok q))"

definition to_broker_order :: "py_reading \<Rightarrow> json \<Rightarrow> (BrokerOrder, BrokerError) result py_call" where
  "to_broker_order rd raw = (case raw_order rd raw of
     Raises e \<Rightarrow> Raises e
   | Returns (Err locs) \<Rightarrow> Returns (Err (''invalid order response: '' @ validation_summary locs))
   | Returns (Ok parsed) \<Rightarrow> (case map_of status_map (ro_status parsed) of
       None \<Rightarrow> Returns (Err ''invalid order response: unrecognized status'')
     | Some status \<Rightarrow> (case quantity_from_decimal (ro_filled_qty parsed) of
         Raises e \<Rightarrow> Raises e
       | Returns (Err e) \<Rightarrow> Returns (Err e)
       | Returns (Ok q) \<Rightarrow> Returns (Ok \<lparr>bo_broker_order_id = ro_id parsed,
           bo_client_order_id = ro_client_order_id parsed, bo_status = status, bo_filled_qty = q,
           bo_filled_avg_price = map_option mk_Price (ro_filled_avg_price parsed),
           bo_updated_at = ro_updated_at parsed\<rparr>))))"

definition to_broker_position :: "py_reading \<Rightarrow> json \<Rightarrow> (BrokerPosition, BrokerError) result py_call" where
  "to_broker_position rd raw = (case raw_position rd raw of
     Raises e \<Rightarrow> Raises e
   | Returns (Err locs) \<Rightarrow> Returns (Err (''invalid position response: '' @ validation_summary locs))
   | Returns (Ok parsed) \<Rightarrow> (case quantity_from_decimal (rp_pos_qty parsed) of
       Raises e \<Rightarrow> Raises e
     | Returns (Err e) \<Rightarrow> Returns (Err e)
     | Returns (Ok q) \<Rightarrow> Returns (Ok \<lparr>bp_ticker = rp_symbol parsed, bp_qty = q,
         bp_avg_cost = mk_Price (rp_avg_entry_price parsed)\<rparr>)))"

definition to_broker_account :: "py_reading \<Rightarrow> json \<Rightarrow> (BrokerAccount, BrokerError) result py_call" where
  "to_broker_account rd raw = (case raw_account rd raw of
     Raises e \<Rightarrow> Raises e
   | Returns (Err locs) \<Rightarrow> Returns (Err (''invalid account response: '' @ validation_summary locs))
   | Returns (Ok parsed) \<Rightarrow> Returns (Ok \<lparr>ba_cash = mk_Money (ra_cash parsed),
       ba_equity = mk_Money (ra_equity parsed)\<rparr>))"

section \<open>The operations\<close>

record 'x AlpacaBroker =
  ab_trading_client :: "'x TradingClient"
  ab_sleep :: "decimal \<Rightarrow> 'x \<Rightarrow> 'x"
  ab_retry_policy :: RetryPolicy

definition alpaca_create :: "(client_config \<Rightarrow> 'x TradingClient) \<Rightarrow> (decimal \<Rightarrow> 'x \<Rightarrow> 'x) \<Rightarrow> int
    \<Rightarrow> TradingMode \<Rightarrow> string \<Rightarrow> string \<Rightarrow> ('x AlpacaBroker, BrokerError) result" where
  "alpaca_create client_factory sleep timeout_s mode trade_key trade_secret =
    (if trade_key = '''' \<or> trade_secret = '''' then Err ''AlpacaBroker requires a non-empty trade key and secret''
     else Ok \<lparr>ab_trading_client = install_timeout timeout_s (disable_internal_retry (client_factory
            \<lparr>cf_api_key = trade_key, cf_secret_key = trade_secret, cf_paper = (mode = Mode_paper),
             cf_raw_data = True, cf_url_override = Some (url_for_mode mode)\<rparr>)),
          ab_sleep = sleep, ab_retry_policy = get_retry_policy\<rparr>)"

text \<open>The attempts that are left, each with the delay after it (none after the last).\<close>

fun call_attempts :: "('x \<Rightarrow> json py_call \<times> 'x) \<Rightarrow> (decimal \<Rightarrow> 'x \<Rightarrow> 'x) \<Rightarrow> decimal option list \<Rightarrow> string
    \<Rightarrow> 'x \<Rightarrow> json py_call \<times> 'x" where
  "call_attempts call sleep [] last_error x = (Raises last_error, x)"
| "call_attempts call sleep (delay # rest) last_error x = (case call x of
     (Returns j, x1) \<Rightarrow> (Returns j, x1)
   | (Raises e, x1) \<Rightarrow> call_attempts call sleep rest e
       (case delay of Some d \<Rightarrow> sleep d x1 | None \<Rightarrow> x1))"

definition call_with_retry :: "RetryPolicy \<Rightarrow> (decimal \<Rightarrow> 'x \<Rightarrow> 'x) \<Rightarrow> ('x \<Rightarrow> json py_call \<times> 'x) \<Rightarrow> string \<Rightarrow> 'x
    \<Rightarrow> (json, string) result \<times> 'x" where
  "call_with_retry policy sleep call op x =
    (case call_attempts call sleep (attempt_delays policy) ''NoneType'' x of
       (Returns j, x1) \<Rightarrow> (Ok j, x1)
     | (Raises e, x1) \<Rightarrow> (Err (op @ '' failed after '' @ show_int (max_attempts policy) @ '' attempts: '' @ e), x1))"

definition order_data :: "OrderRequest \<Rightarrow> MarketOrderRequest" where
  "order_data req = \<lparr>mo_symbol = or_ticker req, mo_qty = shares (or_qty req),
     mo_side = (if or_side req = Side_buy then BUY else SELL), mo_time_in_force = DAY,
     mo_client_order_id = or_client_order_id req\<rparr>"

definition alpaca_submit :: "py_reading \<Rightarrow> 'x AlpacaBroker \<Rightarrow> OrderRequest \<Rightarrow> 'x
    \<Rightarrow> (BrokerOrder, BrokerError) result py_call \<times> 'x" where
  "alpaca_submit rd b req x =
    (let client = ab_trading_client b in
     case tc_submit_order client (tc_settings client) (order_data req) x of
       (Raises e, x1) \<Rightarrow> (Returns (Err (''submit_market_order failed: '' @ e)), x1)
     | (Returns raw, x1) \<Rightarrow> (to_broker_order rd raw, x1))"

definition alpaca_cancel_all_open :: "'x AlpacaBroker \<Rightarrow> 'x \<Rightarrow> (int, BrokerError) result \<times> 'x" where
  "alpaca_cancel_all_open b x =
    (let client = ab_trading_client b in
     case tc_cancel_orders client (tc_settings client) x of
       (Raises e, x1) \<Rightarrow> (Err (''cancel_all_open failed: '' @ e), x1)
     | (Returns (JArray rs), x1) \<Rightarrow> (Ok (int (length rs)), x1)
     | (Returns _, x1) \<Rightarrow> (Err ''cancel_all_open returned an unexpected response shape'', x1))"

definition alpaca_get_order :: "py_reading \<Rightarrow> 'x AlpacaBroker \<Rightarrow> string \<Rightarrow> 'x
    \<Rightarrow> (BrokerOrder, BrokerError) result py_call \<times> 'x" where
  "alpaca_get_order rd b client_order_id x =
    (let client = ab_trading_client b in
     case call_with_retry (ab_retry_policy b) (ab_sleep b)
         (tc_get_order_by_client_id client (tc_settings client) client_order_id)
         (''get_order('' @ client_order_id @ '')'') x of
       (Err e, x1) \<Rightarrow> (Returns (Err e), x1)
     | (Ok raw, x1) \<Rightarrow> (to_broker_order rd raw, x1))"

fun read_positions :: "py_reading \<Rightarrow> json list \<Rightarrow> (BrokerPosition list, BrokerError) result py_call" where
  "read_positions rd [] = Returns (Ok [])"
| "read_positions rd (r # rs) = (case to_broker_position rd r of
     Raises e \<Rightarrow> Raises e
   | Returns (Err e) \<Rightarrow> Returns (Err e)
   | Returns (Ok p) \<Rightarrow> (case read_positions rd rs of
       Returns (Ok ps) \<Rightarrow> Returns (Ok (p # ps))
     | r' \<Rightarrow> r'))"

definition alpaca_positions :: "py_reading \<Rightarrow> 'x AlpacaBroker \<Rightarrow> 'x
    \<Rightarrow> (BrokerPosition list, BrokerError) result py_call \<times> 'x" where
  "alpaca_positions rd b x =
    (let client = ab_trading_client b in
     case call_with_retry (ab_retry_policy b) (ab_sleep b) (tc_get_all_positions client (tc_settings client)) ''positions'' x of
       (Err e, x1) \<Rightarrow> (Returns (Err e), x1)
     | (Ok (JArray rs), x1) \<Rightarrow> (read_positions rd rs, x1)
     | (Ok _, x1) \<Rightarrow> (Returns (Err ''positions returned an unexpected response shape''), x1))"

definition alpaca_account :: "py_reading \<Rightarrow> 'x AlpacaBroker \<Rightarrow> 'x
    \<Rightarrow> (BrokerAccount, BrokerError) result py_call \<times> 'x" where
  "alpaca_account rd b x =
    (let client = ab_trading_client b in
     case call_with_retry (ab_retry_policy b) (ab_sleep b) (tc_get_account client (tc_settings client)) ''account'' x of
       (Err e, x1) \<Rightarrow> (Returns (Err e), x1)
     | (Ok raw, x1) \<Rightarrow> (to_broker_account rd raw, x1))"

text \<open>
  The operations as the engine sees them. Its interface has no exceptions: \<open>returned\<close> makes an escaping
  one (a number that is none, see \<open>unreadable_quantity_escapes\<close>) an error.
\<close>

definition returned :: "('a, string) result py_call \<Rightarrow> ('a, string) result" where
  "returned r = (case r of Returns v \<Rightarrow> v | Raises e \<Rightarrow> Err e)"

definition alpaca_ops :: "py_reading \<Rightarrow> 'x AlpacaBroker \<Rightarrow> 'x Broker" where
  "alpaca_ops rd b = \<lparr>submit_market_order = (\<lambda>req x. apfst returned (alpaca_submit rd b req x)),
     cancel_all_open = alpaca_cancel_all_open b,
     broker_get_order = (\<lambda>cid x. apfst returned (alpaca_get_order rd b cid x)),
     broker_positions = (\<lambda>x. apfst returned (alpaca_positions rd b x)),
     broker_account = (\<lambda>x. apfst returned (alpaca_account rd b x))\<rparr>"

section \<open>Retries\<close>

text \<open>A read is tried at most as often as the policy says; only a failed attempt is repeated.\<close>

lemma call_attempts_keeps:
  assumes "\<And>x r x'. call x = (r, x') \<Longrightarrow> P x \<Longrightarrow> P x'" "\<And>d x. P x \<Longrightarrow> P (sleep d x)"
    and "call_attempts call sleep ds e x = (r, x')" "P x"
  shows "P x'"
  using assms(3,4)
proof (induction ds arbitrary: e x)
  case (Cons d ds)
  obtain r1 x1 where c: "call x = (r1, x1)" by fastforce
  then have "P x1" using assms(1) Cons.prems(2) by blast
  then show ?case using Cons c assms(2) by (cases r1) (auto split: option.splits)
qed simp

text \<open>The response of a successful read is that of the last call, made where the invariant held.\<close>

lemma call_attempts_Returns:
  assumes "\<And>x r x'. call x = (r, x') \<Longrightarrow> P x \<Longrightarrow> P x'" "\<And>d x. P x \<Longrightarrow> P (sleep d x)"
    and "call_attempts call sleep ds e x = (Returns j, x')" "P x"
  shows "\<exists>y. P y \<and> call y = (Returns j, x')"
  using assms(3,4)
proof (induction ds arbitrary: e x)
  case (Cons d ds)
  obtain r1 x1 where c: "call x = (r1, x1)" by fastforce
  then have "P x1" using assms(1) Cons.prems(2) by blast
  then show ?case using Cons c assms(2) by (cases r1) (auto split: option.splits)
qed simp

lemma call_with_retry_Ok:
  assumes "\<And>x r x'. call x = (r, x') \<Longrightarrow> P x \<Longrightarrow> P x'" "\<And>d x. P x \<Longrightarrow> P (sleep d x)"
    and "call_with_retry policy sleep call op x = (Ok j, x')" "P x"
  shows "\<exists>y. P y \<and> call y = (Returns j, x')"
proof -
  have "call_attempts call sleep (attempt_delays policy) ''NoneType'' x = (Returns j, x')"
    using assms(3) by (auto simp: call_with_retry_def split: prod.splits py_call.splits)
  from call_attempts_Returns [of call P sleep, OF _ _ this assms(4)] assms(1,2) show ?thesis by blast
qed

lemma call_with_retry_keeps:
  assumes "\<And>x r x'. call x = (r, x') \<Longrightarrow> P x \<Longrightarrow> P x'" "\<And>d x. P x \<Longrightarrow> P (sleep d x)"
    and "call_with_retry policy sleep call op x = (r, x')" "P x"
  shows "P x'"
  using assms(3) call_attempts_keeps [of call P sleep, OF assms(1,2) _ assms(4)]
  by (auto simp: call_with_retry_def split: prod.splits py_call.splits)

section \<open>What is read\<close>

lemma quantity_from_decimal_Ok:
  "quantity_from_decimal d = Returns (Ok q) \<longleftrightarrow> dval d = of_int (shares q) \<and> 0 \<le> shares q"
proof -
  have "quantity_from_decimal d = Returns (Ok q) \<longleftrightarrow> quantity_parse (to_canonical d) = Returns (Ok q)"
    by (simp add: quantity_from_decimal_def split: py_call.split result.split)
  then show ?thesis by (simp add: quantity_parse_exact to_canonical_def py_decimal_dformat dval_dplain)
qed

text \<open>An order is read exactly from what the response says of it.\<close>

lemma raw_order_Ok:
  assumes "raw_order rd raw = Returns (Ok r)"
  obtains obj where "raw = JObject obj" "str_field obj ''id'' = Some (ro_id r)"
    "str_field obj ''client_order_id'' = Some (ro_client_order_id r)"
    "str_field obj ''status'' = Some (ro_status r)"
    "decimal_field rd obj ''filled_qty'' = Returns (Some (ro_filled_qty r))"
    "\<not> dlt (ro_filled_qty r) (dec_of_int 0)"
    "optional_decimal_field rd obj ''filled_avg_price'' = Returns (Some (ro_filled_avg_price r))"
    "\<And>d. ro_filled_avg_price r = Some d \<Longrightarrow> \<not> dlt d (dec_of_int 0)"
    "datetime_field rd obj ''updated_at'' = Some (ro_updated_at r)"
  using assms
  by (cases raw) (fastforce simp: raw_order_def non_negative_def non_negative_optional_def
      split: py_call.splits option.splits if_splits)+

lemma to_broker_order_Ok:
  assumes "to_broker_order rd raw = Returns (Ok bo)"
  obtains obj d where "raw = JObject obj" "str_field obj ''client_order_id'' = Some (bo_client_order_id bo)"
    "decimal_field rd obj ''filled_qty'' = Returns (Some d)" "dval d = of_int (shares (bo_filled_qty bo))"
    "0 \<le> shares (bo_filled_qty bo)"
    "\<exists>st. str_field obj ''status'' = Some st \<and> map_of status_map st = Some (bo_status bo)"
    "\<And>p. bo_filled_avg_price bo = Some p \<Longrightarrow> \<exists>e. mk_Price e = p \<and> \<not> dlt e (dec_of_int 0)"
proof -
  obtain r where r: "raw_order rd raw = Returns (Ok r)"
    using assms by (auto simp: to_broker_order_def split: py_call.splits result.splits)
  show ?thesis
    by (rule raw_order_Ok [OF r], rule that)
      (use assms r in \<open>auto simp: to_broker_order_def quantity_from_decimal_Ok
        split: option.splits py_call.splits result.splits intro!: exI [of _ "the (ro_filled_avg_price r)"]\<close>)
qed

text \<open>
  A quantity that is no number escapes as an exception: a submission then raises although the broker
  has the order, and the interface promised an error.
\<close>

theorem unreadable_quantity_escapes:
  assumes "tc_submit_order (ab_trading_client b) (tc_settings (ab_trading_client b)) (order_data req) x
      = (Returns (JObject obj), x')"
    and "map_of obj ''filled_qty'' = Some (JString txt)" and "py_decimal txt = None"
  shows "alpaca_submit rd b req x = (Raises ''InvalidOperation'', x')"
  using assms by (simp add: alpaca_submit_def to_broker_order_def raw_order_def decimal_field_def to_decimal_def
      decimal_or_raise_def Let_def)

section \<open>The service and the interface\<close>

text \<open>The order that a request on the wire asks for.\<close>

definition ordered :: "MarketOrderRequest \<Rightarrow> OrderRequest" where
  "ordered q = \<lparr>or_client_order_id = mo_client_order_id q, or_ticker = mo_symbol q,
     or_side = (if mo_side q = BUY then Side_buy else Side_sell), or_qty = Quantity (mo_qty q)\<rparr>"

lemma ordered_data [simp]: "ordered (order_data req) = req"
  by (cases "or_side req") (simp_all add: ordered_def order_data_def)

text \<open>
  What the adapter relies on: a response to a submission names the submitted client order id, and the
  order that was asked for then exists; an order is reported only when it exists, with at most the ordered quantity
  filled; reading changes no order. A submission that raises may have reached the service.
\<close>

definition keeps_orders :: "('x \<Rightarrow> string \<Rightarrow> OrderRequest option) \<Rightarrow> ('x \<Rightarrow> bool) \<Rightarrow> 'x \<Rightarrow> 'x \<Rightarrow> bool" where
  "keeps_orders accepted sane x x' \<longleftrightarrow> accepted x' = accepted x \<and> (sane x \<longrightarrow> sane x')"

definition alpaca_service :: "py_reading \<Rightarrow> 'x AlpacaBroker \<Rightarrow> ('x \<Rightarrow> string \<Rightarrow> OrderRequest option) \<Rightarrow> ('x \<Rightarrow> bool) \<Rightarrow> bool" where
  "alpaca_service rd b accepted sane \<longleftrightarrow>
    (let c = ab_trading_client b; st = tc_settings c in
      (\<forall>q x r x'. tc_submit_order c st q x = (r, x') \<longrightarrow>
         (accepted x' = accepted x \<or> accepted x' = (accepted x)(mo_client_order_id q \<mapsto> ordered q))
         \<and> (sane x \<longrightarrow> 0 \<le> mo_qty q \<longrightarrow> sane x')
         \<and> (\<forall>obj. r = Returns (JObject obj) \<longrightarrow> accepted x' = (accepted x)(mo_client_order_id q \<mapsto> ordered q)
              \<and> str_field obj ''client_order_id'' = Some (mo_client_order_id q)))
      \<and> (\<forall>cid x r x'. tc_get_order_by_client_id c st cid x = (r, x') \<longrightarrow> keeps_orders accepted sane x x'
         \<and> (\<forall>obj. r = Returns (JObject obj) \<longrightarrow> sane x \<longrightarrow> (\<exists>req. accepted x cid = Some req
              \<and> (\<forall>d. decimal_field rd obj ''filled_qty'' = Returns (Some d) \<longrightarrow> dval d \<le> of_int (shares (or_qty req))))))
      \<and> (\<forall>x. keeps_orders accepted sane x (snd (tc_cancel_orders c st x)))
      \<and> (\<forall>x. keeps_orders accepted sane x (snd (tc_get_all_positions c st x)))
      \<and> (\<forall>x. keeps_orders accepted sane x (snd (tc_get_account c st x)))
      \<and> (\<forall>d x. keeps_orders accepted sane x (ab_sleep b d x)))"

lemma keeps_orders_retry:
  assumes "\<And>y. keeps_orders accepted sane y (snd (call y))" "\<And>d y. keeps_orders accepted sane y (sleep d y)"
    and "call_with_retry policy sleep call op x = (r, x')"
  shows "keeps_orders accepted sane x x'"
proof (rule call_with_retry_keeps [where P = "keeps_orders accepted sane x", OF _ _ assms(3)])
  show "keeps_orders accepted sane x y'" if "call y = (r', y')" "keeps_orders accepted sane x y" for y r' y'
    using assms(1) [of y] that by (auto simp: keeps_orders_def)
  show "keeps_orders accepted sane x (sleep d y)" if "keeps_orders accepted sane x y" for d y
    using assms(2) [of y d] that by (auto simp: keeps_orders_def)
qed (simp add: keeps_orders_def)

lemma returned_Ok: "returned r = Ok v \<longleftrightarrow> r = Returns (Ok v)" "Ok v = returned r \<longleftrightarrow> r = Returns (Ok v)"
  by (auto simp: returned_def split: py_call.splits)

lemma apfst_eq: "apfst f p = (r, x) \<longleftrightarrow> (\<exists>q. p = (q, x) \<and> r = f q)"
  by (cases p) auto

lemma service_submit:
  assumes "alpaca_service rd b accepted sane" "alpaca_submit rd b req x = (r, x')"
  shows "accepted x' = accepted x \<or> accepted x' = (accepted x)(or_client_order_id req \<mapsto> req)"
    and "sane x \<Longrightarrow> 0 \<le> shares (or_qty req) \<Longrightarrow> sane x'"
    and "r = Returns (Ok bo) \<Longrightarrow> accepted x' = (accepted x)(or_client_order_id req \<mapsto> req)
      \<and> bo_client_order_id bo = or_client_order_id req"
proof -
  let ?c = "ab_trading_client b"
  obtain s where s: "tc_submit_order ?c (tc_settings ?c) (order_data req) x = (s, x')"
    "r = (case s of Raises e \<Rightarrow> Returns (Err (''submit_market_order failed: '' @ e)) | Returns raw \<Rightarrow> to_broker_order rd raw)"
    using assms(2) by (auto simp: alpaca_submit_def Let_def split: prod.splits py_call.splits)
  have f: "(accepted x' = accepted x \<or> accepted x' = (accepted x)(or_client_order_id req \<mapsto> req))
      \<and> (sane x \<longrightarrow> 0 \<le> shares (or_qty req) \<longrightarrow> sane x')
      \<and> (\<forall>obj. s = Returns (JObject obj) \<longrightarrow> accepted x' = (accepted x)(or_client_order_id req \<mapsto> req)
           \<and> str_field obj ''client_order_id'' = Some (or_client_order_id req))"
  proof -
    let ?q = "order_data req"
    have "(accepted x' = accepted x \<or> accepted x' = (accepted x)(mo_client_order_id ?q \<mapsto> ordered ?q))
      \<and> (sane x \<longrightarrow> 0 \<le> mo_qty ?q \<longrightarrow> sane x')
      \<and> (\<forall>obj. s = Returns (JObject obj) \<longrightarrow> accepted x' = (accepted x)(mo_client_order_id ?q \<mapsto> ordered ?q)
           \<and> str_field obj ''client_order_id'' = Some (mo_client_order_id ?q))"
      using assms(1) s(1) unfolding alpaca_service_def Let_def by blast
    moreover have "mo_client_order_id ?q = or_client_order_id req" "mo_qty ?q = shares (or_qty req)"
      by (simp_all add: order_data_def)
    ultimately show ?thesis by simp
  qed
  show "accepted x' = accepted x \<or> accepted x' = (accepted x)(or_client_order_id req \<mapsto> req)"
    "sane x \<Longrightarrow> 0 \<le> shares (or_qty req) \<Longrightarrow> sane x'"
    using f by blast+
  assume "r = Returns (Ok bo)"
  then obtain raw where raw: "s = Returns raw" "to_broker_order rd raw = Returns (Ok bo)"
    using s(2) by (cases s) auto
  then show "accepted x' = (accepted x)(or_client_order_id req \<mapsto> req) \<and> bo_client_order_id bo = or_client_order_id req"
    using f by (auto elim!: to_broker_order_Ok)
qed

lemma service_get:
  assumes "alpaca_service rd b accepted sane" "alpaca_get_order rd b cid x = (r, x')"
  shows "keeps_orders accepted sane x x'"
    and "sane x \<Longrightarrow> r = Returns (Ok bo) \<Longrightarrow> \<exists>req. accepted x cid = Some req \<and> 0 \<le> shares (bo_filled_qty bo)
      \<and> shares (bo_filled_qty bo) \<le> shares (or_qty req)"
proof -
  let ?c = "ab_trading_client b"
  let ?call = "tc_get_order_by_client_id ?c (tc_settings ?c) cid"
  obtain q where q: "call_with_retry (ab_retry_policy b) (ab_sleep b) ?call (''get_order('' @ cid @ '')'') x = (q, x')"
    "r = (case q of Err e \<Rightarrow> Returns (Err e) | Ok raw \<Rightarrow> to_broker_order rd raw)"
    using assms(2) by (auto simp: alpaca_get_order_def Let_def split: prod.splits result.splits)
  have k: "keeps_orders accepted sane y (snd (?call y))" "keeps_orders accepted sane y (ab_sleep b d y)" for y d
    using assms(1) unfolding alpaca_service_def Let_def by (metis prod.collapse)+
  show "keeps_orders accepted sane x x'" by (rule keeps_orders_retry [OF k q(1)])
  assume "sane x" "r = Returns (Ok bo)"
  then obtain raw where raw: "q = Ok raw" "to_broker_order rd raw = Returns (Ok bo)" using q(2) by (cases q) auto
  let ?P = "keeps_orders accepted sane x"
  have "\<exists>y. ?P y \<and> ?call y = (Returns raw, x')"
  proof (rule call_with_retry_Ok [of ?call ?P "ab_sleep b", OF _ _ q(1) [unfolded raw(1)]])
    show "?P y'" if "?call y = (r', y')" "?P y" for y r' y'
      using k(1) [of y] that by (auto simp: keeps_orders_def)
    show "?P (ab_sleep b d y)" if "?P y" for y d
      using k(2) [of y d] that by (auto simp: keeps_orders_def)
  qed (simp add: keeps_orders_def)
  then obtain y where y: "?P y" "?call y = (Returns raw, x')" by blast
  obtain obj d where o: "raw = JObject obj" "decimal_field rd obj ''filled_qty'' = Returns (Some d)"
    "dval d = of_int (shares (bo_filled_qty bo))" "0 \<le> shares (bo_filled_qty bo)"
    using raw(2) by (rule to_broker_order_Ok)
  have "sane y" "accepted y = accepted x" using y(1) \<open>sane x\<close> by (simp_all add: keeps_orders_def)
  moreover have "\<exists>req. accepted y cid = Some req
      \<and> (\<forall>d. decimal_field rd obj ''filled_qty'' = Returns (Some d) \<longrightarrow> dval d \<le> of_int (shares (or_qty req)))"
    using assms(1) y(2) o(1) \<open>sane y\<close> unfolding alpaca_service_def Let_def by blast
  ultimately show "\<exists>req. accepted x cid = Some req \<and> 0 \<le> shares (bo_filled_qty bo) \<and> shares (bo_filled_qty bo) \<le> shares (or_qty req)"
    using o by auto
qed

lemma service_reads:
  assumes "alpaca_service rd b accepted sane"
  shows "alpaca_cancel_all_open b x = (n, x') \<Longrightarrow> keeps_orders accepted sane x x'"
    and "alpaca_positions rd b x = (ps, x') \<Longrightarrow> keeps_orders accepted sane x x'"
    and "alpaca_account rd b x = (a, x') \<Longrightarrow> keeps_orders accepted sane x x'"
proof -
  let ?c = "ab_trading_client b"
  have k: "keeps_orders accepted sane y (snd (tc_cancel_orders ?c (tc_settings ?c) y))"
    "keeps_orders accepted sane y (snd (tc_get_all_positions ?c (tc_settings ?c) y))"
    "keeps_orders accepted sane y (snd (tc_get_account ?c (tc_settings ?c) y))"
    "keeps_orders accepted sane y (ab_sleep b d y)" for y d
    using assms unfolding alpaca_service_def Let_def by blast+
  show "alpaca_cancel_all_open b x = (n, x') \<Longrightarrow> keeps_orders accepted sane x x'"
    using k(1) [of x] by (auto simp: alpaca_cancel_all_open_def Let_def split: prod.splits py_call.splits json.splits)
  show "alpaca_positions rd b x = (ps, x') \<Longrightarrow> keeps_orders accepted sane x x'"
    using keeps_orders_retry [OF k(2,4)]
    by (auto simp: alpaca_positions_def Let_def split: prod.splits result.splits json.splits)
  show "alpaca_account rd b x = (a, x') \<Longrightarrow> keeps_orders accepted sane x x'"
    using keeps_orders_retry [OF k(3,4)]
    by (auto simp: alpaca_account_def Let_def split: prod.splits result.splits)
qed

text \<open>
  C11: over a service that behaves as documented, the adapter implements the interface the engine is
  proved against: it names the order it was given, loses none, and never reports more shares filled
  than were ordered.
\<close>

theorem alpaca_refines_broker:
  assumes "alpaca_service rd b accepted sane"
  shows "broker_laws (alpaca_ops rd b) accepted sane"
proof
  fix x x' req cid bo e r r' n a ps
  note defs = alpaca_ops_def apfst_eq returned_Ok
  show "submit_market_order (alpaca_ops rd b) req x = (Ok bo, x') \<Longrightarrow>
      accepted x' = (accepted x)(or_client_order_id req \<mapsto> req)
      \<and> bo_client_order_id bo = or_client_order_id req"
    using service_submit(3) [OF assms, of req x _ x'] by (auto simp: defs)
  show "submit_market_order (alpaca_ops rd b) req x = (Err e, x') \<Longrightarrow>
      accepted x' = accepted x \<or> accepted x' = (accepted x)(or_client_order_id req \<mapsto> req)"
    using service_submit(1) [OF assms, of req x _ x'] by (auto simp: defs)
  show "sane x \<Longrightarrow> 0 \<le> shares (or_qty req) \<Longrightarrow> submit_market_order (alpaca_ops rd b) req x = (r, x') \<Longrightarrow> sane x'"
    using service_submit(2) [OF assms, of req x _ x'] by (auto simp: defs)
  show "sane x \<Longrightarrow> broker_get_order (alpaca_ops rd b) cid x = (Ok bo, x') \<Longrightarrow>
      \<exists>req. accepted x cid = Some req \<and> 0 \<le> shares (bo_filled_qty bo)
        \<and> shares (bo_filled_qty bo) \<le> shares (or_qty req)"
    using service_get(2) [OF assms, of cid x _ x'] by (auto simp: defs)
  show "broker_get_order (alpaca_ops rd b) cid x = (r', x') \<Longrightarrow> accepted x' = accepted x \<and> (sane x \<longrightarrow> sane x')"
    using service_get(1) [OF assms, of cid x _ x'] by (auto simp: defs keeps_orders_def)
  show "cancel_all_open (alpaca_ops rd b) x = (n, x') \<Longrightarrow> accepted x' = accepted x \<and> (sane x \<longrightarrow> sane x')"
    using service_reads(1) [OF assms, of x n x'] by (auto simp: defs keeps_orders_def)
  show "broker_account (alpaca_ops rd b) x = (a, x') \<Longrightarrow> accepted x' = accepted x \<and> (sane x \<longrightarrow> sane x')"
    using service_reads(3) [OF assms, of x _ x'] by (auto simp: defs keeps_orders_def)
  show "broker_positions (alpaca_ops rd b) x = (ps, x') \<Longrightarrow> accepted x' = accepted x \<and> (sane x \<longrightarrow> sane x')"
    using service_reads(2) [OF assms, of x _ x'] by (auto simp: defs keeps_orders_def)
qed

section \<open>Submissions are never repeated\<close>

text \<open>\<open>n\<close> counts the submissions the client has sent.\<close>

definition counts_submissions :: "('x \<Rightarrow> nat) \<Rightarrow> 'x AlpacaBroker \<Rightarrow> bool" where
  "counts_submissions n b \<longleftrightarrow>
    (let c = ab_trading_client b; st = tc_settings c in
      (\<forall>q x. n (snd (tc_submit_order c st q x)) = Suc (n x))
      \<and> (\<forall>cid x. n (snd (tc_get_order_by_client_id c st cid x)) = n x)
      \<and> (\<forall>x. n (snd (tc_cancel_orders c st x)) = n x) \<and> (\<forall>x. n (snd (tc_get_all_positions c st x)) = n x)
      \<and> (\<forall>x. n (snd (tc_get_account c st x)) = n x) \<and> (\<forall>d x. n (ab_sleep b d x) = n x))"

lemma retry_keeps_count:
  assumes "\<And>y. n (snd (call y)) = n y" "\<And>d y. n (sleep d y) = n y"
  shows "n (snd (call_with_retry policy sleep call op x)) = n x"
proof -
  obtain r x' where c: "call_with_retry policy sleep call op x = (r, x')" by fastforce
  have "n x' = n x"
  proof (rule call_with_retry_keeps [OF _ _ c])
    show "n y' = n x" if "call y = (r', y')" "n y = n x" for y r' y' using assms(1) [of y] that by simp
  qed (simp_all add: assms(2))
  then show ?thesis using c by simp
qed


section \<open>A simulated service\<close>

text \<open>The fake broker behind Alpaca's wire format.\<close>

definition status_text :: "OrderStatus \<Rightarrow> string" where
  "status_text s = (case s of OS_filled \<Rightarrow> ''filled'' | OS_partially_filled \<Rightarrow> ''partially_filled''
     | OS_canceled \<Rightarrow> ''canceled'' | OS_rejected \<Rightarrow> ''rejected'' | _ \<Rightarrow> ''accepted'')"

definition order_json :: "BrokerOrder \<Rightarrow> json" where
  "order_json bo = JObject [(''id'', JString (bo_broker_order_id bo)),
     (''client_order_id'', JString (bo_client_order_id bo)), (''status'', JString (status_text (bo_status bo))),
     (''filled_qty'', JString (dformat_f (dec_of_int (shares (bo_filled_qty bo))))),
     (''filled_avg_price'', case bo_filled_avg_price bo of None \<Rightarrow> JNull
        | Some p \<Rightarrow> JString (dformat_f (price_amount p))),
     (''updated_at'', JInt (bo_updated_at bo))]"

definition on_wire :: "(BrokerOrder, string) result \<times> 'x \<Rightarrow> json py_call \<times> 'x" where
  "on_wire rx = (case rx of (Ok bo, x) \<Rightarrow> (Returns (order_json bo), x) | (Err e, x) \<Rightarrow> (Raises ''APIError'', x))"

definition sample_client :: "client_config \<Rightarrow> FakeBroker TradingClient" where
  "sample_client cf = \<lparr>tc_settings = \<lparr>cs_retry = Some 3, cs_session_timeout = Some None\<rparr>,
     tc_submit_order = (\<lambda>st q x. on_wire (fake_submit (ordered q) x)),
     tc_cancel_orders = (\<lambda>st x. (Returns (JArray []), x)),
     tc_get_order_by_client_id = (\<lambda>st cid x. on_wire (fake_get_order cid x)),
     tc_get_all_positions = (\<lambda>st x. (Returns (JArray []), x)),
     tc_get_account = (\<lambda>st x. (Returns (JObject [(''cash'', JString ''2500''), (''equity'', JString ''2500'')]), x)),
     tc_get_clock = (\<lambda>st x. (Raises ''APIError'', x))\<rparr>"

definition sample_reading :: py_reading where
  "sample_reading = \<lparr>float_repr = id, read_datetime = (\<lambda>j. case j of JInt t \<Rightarrow> Some t | _ \<Rightarrow> None)\<rparr>"

definition sample_alpaca :: "FakeBroker AlpacaBroker" where
  "sample_alpaca = (case alpaca_create sample_client (\<lambda>d x. x) default_timeout_s Mode_paper ''k'' ''s'' of Ok b \<Rightarrow> b)"

lemma sample_alpaca_client:
  "tc_submit_order (ab_trading_client sample_alpaca) = (\<lambda>st q x. on_wire (fake_submit (ordered q) x))"
  "tc_cancel_orders (ab_trading_client sample_alpaca) = (\<lambda>st x. (Returns (JArray []), x))"
  "tc_get_order_by_client_id (ab_trading_client sample_alpaca) = (\<lambda>st cid x. on_wire (fake_get_order cid x))"
  "tc_get_all_positions (ab_trading_client sample_alpaca) = (\<lambda>st x. (Returns (JArray []), x))"
  "snd (tc_get_account (ab_trading_client sample_alpaca) st x) = x"
  "ab_sleep sample_alpaca d x = x"
  by (simp_all add: sample_alpaca_def alpaca_create_def sample_client_def install_timeout_def disable_internal_retry_def)

lemma wire_qty:
  assumes "order_json bo = JObject obj"
  shows "decimal_field rd obj ''filled_qty'' = Returns (Some (dplain (dec_of_int (shares (bo_filled_qty bo)))))"
    and "str_field obj ''client_order_id'' = Some (bo_client_order_id bo)"
  using assms by (auto simp: order_json_def decimal_field_def to_decimal_def decimal_or_raise_def str_field_def
      py_decimal_dformat finite_dec_def)

lemma sample_service: "alpaca_service sample_reading sample_alpaca fb_orders fake_sane"
proof -
  have o: "mo_client_order_id q = or_client_order_id (ordered q)" "mo_qty q = shares (or_qty (ordered q))" for q
    by (simp_all add: ordered_def)
  have s: "(fb_orders x' = fb_orders x \<or> fb_orders x' = (fb_orders x)(or_client_order_id req \<mapsto> req))
      \<and> (fake_sane x \<longrightarrow> 0 \<le> shares (or_qty req) \<longrightarrow> fake_sane x')
      \<and> (\<forall>obj. r = Returns (JObject obj) \<longrightarrow> fb_orders x' = (fb_orders x)(or_client_order_id req \<mapsto> req)
           \<and> str_field obj ''client_order_id'' = Some (or_client_order_id req))"
    if w: "on_wire (fake_submit req x) = (r, x')" for req x r x'
  proof -
    obtain q where q: "fake_submit req x = (q, x')" "r = (case q of Ok bo \<Rightarrow> Returns (order_json bo) | Err e \<Rightarrow> Raises ''APIError'')"
      using w by (auto simp: on_wire_def split: prod.splits result.splits)
    then have b: "submit_market_order fake_ops req x = (q, x')" by (simp add: fake_ops_def)
    show ?thesis
      using fake.submit_cases [OF b] fake.submit_sane [OF _ _ b] fake.submit_ok [of req x _ x'] b q(2) wire_qty(2)
      by (cases q) auto
  qed
  have g: "keeps_orders fb_orders fake_sane x x'
      \<and> (\<forall>obj. r = Returns (JObject obj) \<longrightarrow> fake_sane x \<longrightarrow> (\<exists>req. fb_orders x cid = Some req
           \<and> (\<forall>d. decimal_field rd obj ''filled_qty'' = Returns (Some d) \<longrightarrow> dval d \<le> of_int (shares (or_qty req)))))"
    if w: "on_wire (fake_get_order cid x) = (r, x')" for cid x r x' rd
  proof -
    obtain q where q: "fake_get_order cid x = (q, x')" "r = (case q of Ok bo \<Rightarrow> Returns (order_json bo) | Err e \<Rightarrow> Raises ''APIError'')"
      using w by (auto simp: on_wire_def split: prod.splits result.splits)
    then have b: "broker_get_order fake_ops cid x = (q, x')" by (simp add: fake_ops_def)
    show ?thesis
      using fake.get_keeps [OF b] fake.get_ok [of x cid _ x'] b q(2) wire_qty(1)
      by (cases q) (fastforce simp: keeps_orders_def dval_dplain)+
  qed
  show ?thesis
    unfolding alpaca_service_def Let_def sample_alpaca_client o
    using s g by (auto simp: keeps_orders_def sample_alpaca_client)
qed

theorem alpaca_refines_broker_witness:
  "broker_laws (alpaca_ops sample_reading sample_alpaca) fb_orders fake_sane"
  by (rule alpaca_refines_broker [OF sample_service])

text \<open>A client that counts its submissions, every one of which times out.\<close>

definition counting_client :: "client_config \<Rightarrow> nat TradingClient" where
  "counting_client cf = \<lparr>tc_settings = \<lparr>cs_retry = Some 3, cs_session_timeout = Some None\<rparr>,
     tc_submit_order = (\<lambda>st q x. (Raises ''Timeout'', Suc x)),
     tc_cancel_orders = (\<lambda>st x. (Raises ''Timeout'', x)),
     tc_get_order_by_client_id = (\<lambda>st cid x. (Raises ''Timeout'', x)),
     tc_get_all_positions = (\<lambda>st x. (Raises ''Timeout'', x)),
     tc_get_account = (\<lambda>st x. (Raises ''Timeout'', x)), tc_get_clock = (\<lambda>st x. (Raises ''Timeout'', x))\<rparr>"

definition counting_alpaca :: "nat AlpacaBroker" where
  "counting_alpaca = (case alpaca_create counting_client (\<lambda>d x. x) default_timeout_s Mode_paper ''k'' ''s'' of Ok b \<Rightarrow> b)"

definition sample_wire_order :: OrderRequest where
  "sample_wire_order = \<lparr>or_client_order_id = ''dec_1'', or_ticker = ''AXTI'', or_side = Side_buy, or_qty = Quantity 30\<rparr>"


text \<open>
  A broker is made only from a key and a secret; its address follows from the mode alone, the SDK's own
  retries are off and every request has a timeout.
\<close>

theorem alpaca_create_settings:
  assumes "alpaca_create factory sleep timeout_s mode key secret = Ok b"
  shows "key \<noteq> '''' \<and> secret \<noteq> ''''
    \<and> (\<exists>cf. ab_trading_client b = install_timeout timeout_s (disable_internal_retry (factory cf))
         \<and> cf_url_override cf = Some (url_for_mode mode) \<and> (cf_paper cf \<longleftrightarrow> mode = Mode_paper)
         \<and> cf_api_key cf = key \<and> cf_secret_key cf = secret)
    \<and> cs_retry (tc_settings (ab_trading_client b)) \<in> {None, Some 0}
    \<and> cs_session_timeout (tc_settings (ab_trading_client b)) \<in> {None, Some (Some timeout_s)}"
  using assms
  by (auto simp: alpaca_create_def install_timeout_def disable_internal_retry_def split: if_splits
      intro!: exI [of _ "\<lparr>cf_api_key = key, cf_secret_key = secret, cf_paper = (mode = Mode_paper),
        cf_raw_data = True, cf_url_override = Some (url_for_mode mode)\<rparr>"])

end
