(* ===== verification/Alpaca_Data.thy ===== *)
theory Alpaca_Data
  imports Alpaca_Broker Market
begin

text \<open>
  market/alpaca_data.py: prices, daily bars and market hours from Alpaca. The SDK's clients and
  pydantic's reading of a number, a timestamp and a boolean are parameters. A \<open>float\<close> is represented
  by the decimal number its text shows, which is what the code makes of it; floats that are not
  finite are not modelled.
\<close>

definition bars_lookback_days :: int where
  "bars_lookback_days = 45"

record market_reading =
  mr_float :: "json \<Rightarrow> decimal option"
  mr_datetime :: "json \<Rightarrow> py_datetime option"
  mr_bool :: "json \<Rightarrow> bool option"

section \<open>Reading responses\<close>

text \<open>A field is read under its alias or, when only that is there, under its name.\<close>

definition field_key :: "(string \<times> json) list \<Rightarrow> string \<Rightarrow> string \<Rightarrow> string" where
  "field_key obj alias name = (if map_of obj alias = None \<and> map_of obj name \<noteq> None then name else alias)"

definition float_field :: "market_reading \<Rightarrow> (string \<times> json) list \<Rightarrow> string \<Rightarrow> string \<Rightarrow> decimal option" where
  "float_field mr obj alias name = Option.bind (map_of obj (field_key obj alias name)) (mr_float mr)"

definition positive_only :: "decimal option \<Rightarrow> decimal option" where
  "positive_only v = (case v of Some d \<Rightarrow> if dle d (dec_of_int 0) then None else Some d | None \<Rightarrow> None)"

definition whole_only :: "decimal option \<Rightarrow> decimal option" where
  "whole_only v = (case v of Some d \<Rightarrow> if dec_is_integral d then Some d else None | None \<Rightarrow> None)"

record RawBar =
  rb_timestamp :: py_datetime
  rb_open :: decimal
  rb_high :: decimal
  rb_low :: decimal
  rb_close :: decimal
  rb_volume :: decimal

definition consistent_ohlc :: "RawBar \<Rightarrow> bool" where
  "consistent_ohlc b = (\<not> dlt (rb_high b) (rb_low b)
     \<and> dle (rb_low b) (rb_open b) \<and> dle (rb_open b) (rb_high b)
     \<and> dle (rb_low b) (rb_close b) \<and> dle (rb_close b) (rb_high b))"

text \<open>The error of an inconsistent bar has no location.\<close>

definition raw_bar :: "market_reading \<Rightarrow> json \<Rightarrow> (RawBar, string list) result" where
  "raw_bar mr raw = (case raw of
     JObject obj \<Rightarrow>
       (let num = (\<lambda>alias name. non_negative (float_field mr obj alias name)) in
        case (Option.bind (map_of obj (field_key obj ''t'' ''timestamp'')) (mr_datetime mr), num ''o'' ''open'', num ''h'' ''high'',
            num ''l'' ''low'', num ''c'' ''close'', whole_only (num ''v'' ''volume'')) of
          (Some t, Some o', Some h, Some l, Some c, Some v) \<Rightarrow>
            (let b = \<lparr>rb_timestamp = t, rb_open = o', rb_high = h, rb_low = l, rb_close = c, rb_volume = v\<rparr> in
             if consistent_ohlc b then Ok b else Err [])
        | (t, o', h, l, c, v) \<Rightarrow> Err (errors_of [(field_key obj ''t'' ''timestamp'', t \<noteq> None),
            (field_key obj ''o'' ''open'', o' \<noteq> None), (field_key obj ''h'' ''high'', h \<noteq> None),
            (field_key obj ''l'' ''low'', l \<noteq> None), (field_key obj ''c'' ''close'', c \<noteq> None),
            (field_key obj ''v'' ''volume'', v \<noteq> None)]))
   | _ \<Rightarrow> Err [])"

definition raw_trade :: "market_reading \<Rightarrow> json \<Rightarrow> (decimal, string list) result" where
  "raw_trade mr raw = (case raw of
     JObject obj \<Rightarrow> (case positive_only (float_field mr obj ''p'' ''price'') of
       Some p \<Rightarrow> Ok p | None \<Rightarrow> Err [field_key obj ''p'' ''price''])
   | _ \<Rightarrow> Err [])"

definition aware_only :: "py_datetime option \<Rightarrow> py_datetime option" where
  "aware_only t = (case t of Some (Aware w off) \<Rightarrow> t | _ \<Rightarrow> None)"

record RawClock =
  rk_is_open :: bool
  rk_next_open :: py_datetime
  rk_next_close :: py_datetime

definition raw_clock :: "market_reading \<Rightarrow> json \<Rightarrow> (RawClock, string list) result" where
  "raw_clock mr raw = (case raw of
     JObject obj \<Rightarrow>
       (let stamp = (\<lambda>k. aware_only (Option.bind (map_of obj k) (mr_datetime mr))) in
        case (Option.bind (map_of obj ''is_open'') (mr_bool mr), stamp ''next_open'', stamp ''next_close'') of
          (Some b, Some t, Some u) \<Rightarrow> Ok \<lparr>rk_is_open = b, rk_next_open = t, rk_next_close = u\<rparr>
        | (b, t, u) \<Rightarrow> Err (errors_of [(''is_open'', b \<noteq> None), (''next_open'', t \<noteq> None), (''next_close'', u \<noteq> None)]))
   | _ \<Rightarrow> Err [])"

definition to_bar :: "market_reading \<Rightarrow> string \<Rightarrow> json \<Rightarrow> (Bar, MarketError) result" where
  "to_bar mr ticker raw = (case raw_bar mr raw of
     Err locs \<Rightarrow> Err (''invalid bar data for '' @ ticker @ '': '' @ validation_summary locs)
   | Ok b \<Rightarrow> Ok \<lparr>bar_ticker = ticker, bar_date = utc_date (wall (rb_timestamp b)), bar_open = mk_Price (rb_open b),
       bar_high = mk_Price (rb_high b), bar_low = mk_Price (rb_low b), bar_close = mk_Price (rb_close b),
       bar_volume = dfloor (rb_volume b)\<rparr>)"

section \<open>The provider\<close>

record StockBarsRequest =
  sb_symbol :: string
  sb_start :: datetime

record 'x StockDataClient =
  dc_settings :: client_settings
  dc_get_stock_bars :: "client_settings \<Rightarrow> StockBarsRequest \<Rightarrow> 'x \<Rightarrow> json py_call \<times> 'x"
  dc_get_stock_latest_trade :: "client_settings \<Rightarrow> string \<Rightarrow> 'x \<Rightarrow> json py_call \<times> 'x"

record 'x AlpacaMarketData =
  am_data_client :: "'x StockDataClient"
  am_trading_client :: "'x TradingClient"
  am_sleep :: "decimal \<Rightarrow> 'x \<Rightarrow> 'x"
  am_retry_policy :: RetryPolicy
  am_now :: "'x Clock"

definition install_data_timeout :: "int \<Rightarrow> 'x StockDataClient \<Rightarrow> 'x StockDataClient" where
  "install_data_timeout timeout_s client = client\<lparr>dc_settings := (dc_settings client)
     \<lparr>cs_session_timeout := map_option (\<lambda>t. Some timeout_s) (cs_session_timeout (dc_settings client))\<rparr>\<rparr>"

definition alpaca_data_create :: "(client_config \<Rightarrow> 'x StockDataClient) \<Rightarrow> (client_config \<Rightarrow> 'x TradingClient)
    \<Rightarrow> (decimal \<Rightarrow> 'x \<Rightarrow> 'x) \<Rightarrow> int \<Rightarrow> 'x Clock \<Rightarrow> string \<Rightarrow> string \<Rightarrow> TradingMode \<Rightarrow> 'x AlpacaMarketData" where
  "alpaca_data_create data_client_factory trading_client_factory sleep timeout_s now read_key read_secret mode =
    \<lparr>am_data_client = install_data_timeout timeout_s (data_client_factory \<lparr>cf_api_key = read_key,
       cf_secret_key = read_secret, cf_paper = False, cf_raw_data = True, cf_url_override = None\<rparr>),
     am_trading_client = install_timeout timeout_s (trading_client_factory \<lparr>cf_api_key = read_key,
       cf_secret_key = read_secret, cf_paper = (mode = Mode_paper), cf_raw_data = True, cf_url_override = None\<rparr>),
     am_sleep = sleep, am_retry_policy = get_retry_policy, am_now = now\<rparr>"

text \<open>What a Python loop over the decoded value runs through; a number or \<open>None\<close> is not iterable.\<close>

definition iterated :: "json \<Rightarrow> json list option" where
  "iterated j = (case j of JArray rs \<Rightarrow> Some rs | JObject obj \<Rightarrow> Some (map (JString \<circ> fst) obj)
     | JString s \<Rightarrow> Some (map JString (utf8_chars s)) | _ \<Rightarrow> None)"

fun read_bars :: "market_reading \<Rightarrow> string \<Rightarrow> json list \<Rightarrow> (Bar list, MarketError) result" where
  "read_bars mr ticker [] = Ok []"
| "read_bars mr ticker (r # rs) = (case to_bar mr ticker r of
     Err e \<Rightarrow> Err e
   | Ok b \<Rightarrow> (case read_bars mr ticker rs of Err e \<Rightarrow> Err e | Ok bs \<Rightarrow> Ok (b # bs)))"

definition bars_of_response :: "market_reading \<Rightarrow> string \<Rightarrow> nat \<Rightarrow> json \<Rightarrow> (Bar list, MarketError) result py_call" where
  "bars_of_response mr ticker days raw_value =
    (case (case raw_value of JObject obj \<Rightarrow> map_of obj ticker | _ \<Rightarrow> None) of
       None \<Rightarrow> Returns (Err (''no bars data returned for '' @ ticker))
     | Some raw_bars \<Rightarrow> (case iterated raw_bars of
         None \<Rightarrow> Raises ''TypeError''
       | Some rs \<Rightarrow> (case read_bars mr ticker rs of
           Err e \<Rightarrow> Returns (Err e)
         | Ok bs \<Rightarrow> Returns (Ok (last_n days (sort_key bar_date bs))))))"

definition alpaca_daily_bars :: "market_reading \<Rightarrow> 'x AlpacaMarketData \<Rightarrow> string \<Rightarrow> nat \<Rightarrow> 'x
    \<Rightarrow> (Bar list, MarketError) result py_call \<times> 'x" where
  "alpaca_daily_bars mr m ticker days x =
    (let (now, x1) = am_now m x;
         client = am_data_client m;
         request = \<lparr>sb_symbol = ticker, sb_start = now - bars_lookback_days * microseconds_per_day\<rparr> in
     case call_with_retry (am_retry_policy m) (am_sleep m) (dc_get_stock_bars client (dc_settings client) request)
         (''daily_bars('' @ ticker @ '')'') x1 of
       (Err e, x2) \<Rightarrow> (Returns (Err e), x2)
     | (Ok raw_value, x2) \<Rightarrow> (bars_of_response mr ticker days raw_value, x2))"

definition alpaca_latest_price :: "market_reading \<Rightarrow> 'x AlpacaMarketData \<Rightarrow> string \<Rightarrow> 'x \<Rightarrow> (Price, MarketError) result \<times> 'x" where
  "alpaca_latest_price mr m ticker x =
    (let client = am_data_client m in
     case call_with_retry (am_retry_policy m) (am_sleep m) (dc_get_stock_latest_trade client (dc_settings client) ticker)
         (''latest_price('' @ ticker @ '')'') x of
       (Err e, x1) \<Rightarrow> (Err e, x1)
     | (Ok raw_value, x1) \<Rightarrow>
         (case (case raw_value of JObject obj \<Rightarrow> map_of obj ticker | _ \<Rightarrow> None) of
            None \<Rightarrow> (Err (''no latest trade returned for '' @ ticker), x1)
          | Some JNull \<Rightarrow> (Err (''no latest trade returned for '' @ ticker), x1)
          | Some raw_trade_value \<Rightarrow> (case raw_trade mr raw_trade_value of
              Err locs \<Rightarrow> (Err (''invalid trade data for '' @ ticker @ '': '' @ validation_summary locs), x1)
            | Ok p \<Rightarrow> (Ok (mk_Price p), x1))))"

definition alpaca_market_clock :: "market_reading \<Rightarrow> 'x AlpacaMarketData \<Rightarrow> 'x \<Rightarrow> (MarketClock, MarketError) result \<times> 'x" where
  "alpaca_market_clock mr m x =
    (let client = am_trading_client m in
     case call_with_retry (am_retry_policy m) (am_sleep m) (tc_get_clock client (tc_settings client)) ''market_clock'' x of
       (Err e, x1) \<Rightarrow> (Err e, x1)
     | (Ok raw, x1) \<Rightarrow> (case raw_clock mr raw of
         Err locs \<Rightarrow> (Err (''invalid clock data: '' @ validation_summary locs), x1)
       | Ok k \<Rightarrow> (Ok \<lparr>mc_is_open = rk_is_open k, mc_next_open = instant (astimezone_utc (rk_next_open k)),
           mc_next_close = instant (astimezone_utc (rk_next_close k))\<rparr>, x1)))"

definition alpaca_market :: "market_reading \<Rightarrow> 'x AlpacaMarketData \<Rightarrow> 'x MarketDataProvider" where
  "alpaca_market mr m = \<lparr>daily_bars = (\<lambda>ticker days x. apfst returned (alpaca_daily_bars mr m ticker days x)),
     latest_price = alpaca_latest_price mr m, market_clock = alpaca_market_clock mr m\<rparr>"

section \<open>Bars\<close>

lemma non_negative_Some: "non_negative v = Some d \<longleftrightarrow> v = Some d \<and> \<not> dlt d (dec_of_int 0)"
  by (auto simp: non_negative_def split: option.splits if_splits)

lemma raw_bar_Ok:
  assumes "raw_bar mr raw = Ok b"
  shows "consistent_ohlc b \<and> dec_is_integral (rb_volume b)
    \<and> (\<forall>d \<in> {rb_open b, rb_high b, rb_low b, rb_close b, rb_volume b}. \<not> dlt d (dec_of_int 0))"
  using assms
  by (cases raw) (auto simp: raw_bar_def Let_def whole_only_def non_negative_Some split: option.splits if_splits)

definition bar_ok :: "string \<Rightarrow> Bar \<Rightarrow> bool" where
  "bar_ok ticker b \<longleftrightarrow> bar_ticker b = ticker \<and> 0 \<le> ticks (bar_low b) \<and> 0 \<le> bar_volume b
     \<and> bar_low b \<le> bar_open b \<and> bar_open b \<le> bar_high b \<and> bar_low b \<le> bar_close b \<and> bar_close b \<le> bar_high b"

lemma to_bar_ok:
  assumes "to_bar mr ticker raw = Ok b" shows "bar_ok ticker b"
proof -
  obtain r where r: "raw_bar mr raw = Ok r" using assms by (auto simp: to_bar_def split: result.splits)
  have le: "mk_Price d \<le> mk_Price e" if "dle d e" for d e
    using that price.mk_mono by (simp add: dle_dval price_le_ticks)
  note ok = raw_bar_Ok [OF r]
  have "0 \<le> ticks (mk_Price (rb_low r))" using ok by (intro price.mk_ge_grid) (simp add: dlt_dval)
  moreover have "0 \<le> dfloor (rb_volume r)" using ok by (simp add: dfloor_floor dlt_dval)
  ultimately show ?thesis
    using assms r ok le by (auto simp: to_bar_def bar_ok_def consistent_ohlc_def)
qed

lemma read_bars_ok: "read_bars mr ticker rs = Ok bs \<Longrightarrow> b \<in> set bs \<Longrightarrow> bar_ok ticker b"
  by (induction rs arbitrary: bs) (auto split: result.splits dest: to_bar_ok)

lemma sorted_last_n: "sorted (map f xs) \<Longrightarrow> sorted (map f (last_n n xs))"
  by (simp add: last_n_def drop_map [symmetric] sorted_wrt_drop)

lemma alpaca_bars_origin:
  assumes "daily_bars (alpaca_market mr m) ticker days x = (Ok bs, x')"
  obtains rs all where "read_bars mr ticker rs = Ok all" "bs = last_n days (sort_key bar_date all)"
proof -
  obtain raw where "bars_of_response mr ticker days raw = Returns (Ok bs)"
    using assms
    by (auto simp: alpaca_market_def apfst_eq returned_Ok alpaca_daily_bars_def Let_def split: prod.splits result.splits)
  then show thesis using that by (auto simp: bars_of_response_def split: option.splits result.splits)
qed

interpretation alpaca_feed: bar_source "alpaca_market mr m" for mr :: market_reading and m :: "'x AlpacaMarketData"
proof unfold_locales
  show "length bs \<le> n" if "daily_bars (alpaca_market mr m) ticker n x = (Ok bs, x')" for n ticker x bs x'
    using that by (rule alpaca_bars_origin) simp
qed

text \<open>
  C37: the daily bars are at most as many as asked for, oldest first, the newest there are; each is of
  the asked ticker, with prices between its low and its high and no negative amount.
\<close>

theorem alpaca_bars_wellformed:
  assumes "daily_bars (alpaca_market mr m) ticker days x = (Ok bs, x')"
  shows "length bs \<le> days \<and> sorted (map bar_date bs) \<and> (\<forall>b \<in> set bs. bar_ok ticker b)"
proof -
  obtain rs all where r: "read_bars mr ticker rs = Ok all" "bs = last_n days (sort_key bar_date all)"
    using assms by (rule alpaca_bars_origin)
  have "\<forall>b \<in> set bs. bar_ok ticker b"
    using r read_bars_ok [OF r(1)] set_last_n [of days "sort_key bar_date all"] by auto
  moreover have "sorted (map bar_date bs)" using r(2) by (simp add: sorted_last_n)
  ultimately show ?thesis using r(2) by simp
qed

section \<open>A concrete answer\<close>

definition sample_bar_json :: "int \<Rightarrow> json" where
  "sample_bar_json t = JObject [(''t'', JInt t), (''o'', JInt 12), (''h'', JInt 14), (''l'', JInt 11),
     (''c'', JInt 13), (''v'', JInt 90000)]"

definition sample_data_client :: "client_config \<Rightarrow> unit StockDataClient" where
  "sample_data_client cf = \<lparr>dc_settings = \<lparr>cs_retry = Some 3, cs_session_timeout = Some None\<rparr>,
     dc_get_stock_bars = (\<lambda>st q x. (Returns (JObject [(sb_symbol q,
       JArray [sample_bar_json 86400000000, sample_bar_json 0])]), x)),
     dc_get_stock_latest_trade = (\<lambda>st ticker x. (Returns (JObject [(ticker, JObject [(''p'', JInt 13)])]), x))\<rparr>"

definition sample_clock_client :: "client_config \<Rightarrow> unit TradingClient" where
  "sample_clock_client cf = \<lparr>tc_settings = \<lparr>cs_retry = Some 3, cs_session_timeout = Some None\<rparr>,
     tc_submit_order = (\<lambda>st q x. (Raises ''APIError'', x)), tc_cancel_orders = (\<lambda>st x. (Raises ''APIError'', x)),
     tc_get_order_by_client_id = (\<lambda>st cid x. (Raises ''APIError'', x)),
     tc_get_all_positions = (\<lambda>st x. (Raises ''APIError'', x)), tc_get_account = (\<lambda>st x. (Raises ''APIError'', x)),
     tc_get_clock = (\<lambda>st x. (Raises ''APIError'', x))\<rparr>"

definition sample_market_reading :: market_reading where
  "sample_market_reading = \<lparr>mr_float = (\<lambda>j. case j of JInt n \<Rightarrow> Some (dec_of_int n) | _ \<Rightarrow> None),
     mr_datetime = (\<lambda>j. case j of JInt n \<Rightarrow> Some (Aware n 0) | _ \<Rightarrow> None),
     mr_bool = (\<lambda>j. case j of JBool b \<Rightarrow> Some b | _ \<Rightarrow> None)\<rparr>"

definition sample_alpaca_data :: "unit AlpacaMarketData" where
  "sample_alpaca_data = alpaca_data_create sample_data_client sample_clock_client (\<lambda>d x. x) default_timeout_s
     (\<lambda>x. (0, x)) ''k'' ''s'' Mode_paper"

lemma sample_to_bar: "\<exists>b. to_bar sample_market_reading ''AXTI'' (sample_bar_json t) = Ok b
    \<and> bar_date b = t div microseconds_per_day"
  by (simp add: to_bar_def raw_bar_def sample_bar_json_def Let_def float_field_def field_key_def sample_market_reading_def
      non_negative_def whole_only_def consistent_ohlc_def utc_date_def dlt_dval dle_dval dec_is_integral_def dec_of_int_def
      dval_def dsint_def)

theorem alpaca_bars_wellformed_witness:
  "\<exists>bs x'. daily_bars (alpaca_market sample_market_reading sample_alpaca_data) ''AXTI'' 20 () = (Ok bs, x')
    \<and> length bs = 2 \<and> sorted (map bar_date bs)"
proof -
  obtain b c where b: "to_bar sample_market_reading ''AXTI'' (sample_bar_json 86400000000) = Ok b"
    and c: "to_bar sample_market_reading ''AXTI'' (sample_bar_json 0) = Ok c"
    using sample_to_bar by blast
  have "call_with_retry get_retry_policy (\<lambda>d x. x) (\<lambda>x. (Returns j, x)) op x = (Ok j, x)" for j op and x :: unit
    by (simp add: call_with_retry_def attempt_delays_def get_retry_policy_def numeral_3_eq_3 upt_conv_Cons)
  then have "daily_bars (alpaca_market sample_market_reading sample_alpaca_data) ''AXTI'' 20 ()
      = (Ok (last_n 20 (sort_key bar_date [b, c])), ())"
    by (simp add: alpaca_market_def alpaca_daily_bars_def sample_alpaca_data_def alpaca_data_create_def
        install_data_timeout_def sample_data_client_def bars_of_response_def iterated_def b c returned_def)
  moreover from alpaca_bars_wellformed [OF this] have "sorted (map bar_date (last_n 20 (sort_key bar_date [b, c])))" by simp
  ultimately show ?thesis by (intro exI conjI) simp_all
qed

end
