(* ===== verification/Report.thy ===== *)
theory Report
  imports Prompt_Builder Py_Text Loss_Limits Iso_Time "HOL-Library.AList"
begin

text \<open>
  report/metrics.py, report/live_estimate.py and report/render.py: the indicators of a period, the
  estimate of what the same trades would have made with real money, and the report's text. A
  \<open>Counter\<close> is an association list in the order of first occurrence. The Japanese texts are given by
  their UTF-8 bytes.
\<close>

section \<open>Metrics\<close>

record Period =
  pd_start :: "day option"
  pd_end :: "day option"

record Metrics =
  m_period_pnl :: Money
  m_trade_count :: nat
  m_win_count :: nat
  m_loss_count :: nat
  m_win_rate_pct :: decimal
  m_avg_pnl :: Money
  m_max_drawdown_pct :: decimal
  m_exit_reason_counts :: "(ExitReason \<times> nat) list"
  m_decision_counts :: "(string \<times> nat) list"
  m_open_positions :: "Position list"

definition in_period :: "day \<Rightarrow> Period \<Rightarrow> bool" where
  "in_period d period =
    (if (case pd_start period of Some s \<Rightarrow> d < s | None \<Rightarrow> False) then False
     else if (case pd_end period of Some e \<Rightarrow> e < d | None \<Rightarrow> False) then False else True)"

definition filter_trades_by_period :: "Trade list \<Rightarrow> Period \<Rightarrow> Trade list" where
  "filter_trades_by_period ts period = filter (\<lambda>t. in_period (utc_date (t_closed_at t)) period) ts"

definition quantize_pct :: "decimal \<Rightarrow> decimal" where
  "quantize_pct d = dquantize (- 2) d"

definition zero_pct :: decimal where
  "zero_pct = Dec False 0 (- 2)"

text \<open>The running peak and the worst drawdown after each snapshot.\<close>

definition drawdown_step :: "decimal \<times> decimal \<Rightarrow> EquitySnapshot \<Rightarrow> decimal \<times> decimal" where
  "drawdown_step pw s = (case pw of (running_peak, worst) \<Rightarrow>
     let equity = money_amount (s_equity s);
         running_peak' = dmax running_peak equity in
     (running_peak', if dlt (dec_of_int 0) running_peak'
        then dmax worst (dmul (dquot (dsub running_peak' equity) running_peak') (dec_of_int 100))
        else worst))"

definition max_drawdown_pct :: "EquitySnapshot list \<Rightarrow> decimal" where
  "max_drawdown_pct snapshots = (case snapshots of [] \<Rightarrow> zero_pct
   | s # ss \<Rightarrow> quantize_pct (snd (foldl drawdown_step (money_amount (s_equity s), dec_of_int 0) snapshots)))"

definition decision_bucket :: "Decision \<Rightarrow> string" where
  "decision_bucket d = (if d_action d = Action_skip then ''skip''
     else if d_action d = Action_hold then ''hold'' else rule_check_value (d_rule_check d))"

definition counter :: "'a list \<Rightarrow> ('a \<times> nat) list" where
  "counter xs = foldl (\<lambda>m x. AList.update x (case map_of m x of None \<Rightarrow> 1 | Some n \<Rightarrow> n + 1) m) [] xs"

definition compute :: "Trade list \<Rightarrow> Decision list \<Rightarrow> EquitySnapshot list \<Rightarrow> Position list \<Rightarrow> Period \<Rightarrow> Metrics" where
  "compute ts ds snapshots ps period =
    (let period_trades = filter_trades_by_period ts period;
         period_decisions = filter (\<lambda>d. in_period (utc_date (d_decided_at d)) period) ds;
         trade_count = length period_trades;
         period_pnl = foldl money_add zero_money (map t_realized_pnl period_trades);
         win_count = length (filter (\<lambda>t. dlt (dec_of_int 0) (money_amount (t_realized_pnl t))) period_trades);
         loss_count = length (filter (\<lambda>t. dlt (money_amount (t_realized_pnl t)) (dec_of_int 0)) period_trades) in
     \<lparr>m_period_pnl = period_pnl, m_trade_count = trade_count, m_win_count = win_count, m_loss_count = loss_count,
      m_win_rate_pct = (if trade_count \<noteq> 0 then quantize_pct (dmul (dquot (dec_of_int (int win_count))
          (dec_of_int (int trade_count))) (dec_of_int 100)) else zero_pct),
      m_avg_pnl = (if trade_count \<noteq> 0 then mk_Money (dquot (money_amount period_pnl) (dec_of_int (int trade_count)))
        else zero_money),
      m_max_drawdown_pct = max_drawdown_pct snapshots,
      m_exit_reason_counts = counter (map t_exit_reason period_trades),
      m_decision_counts = counter (map decision_bucket period_decisions),
      m_open_positions = ps\<rparr>)"

section \<open>The estimate\<close>

record LiveEstimate =
  le_paper_pnl :: Money
  le_slippage_cost :: Money
  le_commission_cost :: Money
  le_fixed_commission_cost :: Money
  le_fx_cost :: Money
  le_estimated_live_pnl :: Money

definition fill_notional :: "Fill \<Rightarrow> decimal" where
  "fill_notional f = price_times (f_price f) (shares (f_qty f))"

definition slippage_cost :: "Fill list \<Rightarrow> CostAssumptions \<Rightarrow> Money" where
  "slippage_cost fs cost = mk_Money (foldl dadd (dec_of_int 0)
     (map (\<lambda>f. dquot (dmul (fill_notional f) (slippage_pct_per_side cost)) (dec_of_int 100)) fs))"

definition fill_commission :: "CostAssumptions \<Rightarrow> Fill \<Rightarrow> decimal" where
  "fill_commission cost f =
    (let c = dquot (dmul (fill_notional f) (commission_pct cost)) (dec_of_int 100) in
     case commission_cap_usd cost of None \<Rightarrow> c | Some cap \<Rightarrow> dmin c cap)"

definition commission_cost :: "Fill list \<Rightarrow> CostAssumptions \<Rightarrow> Money" where
  "commission_cost fs cost = mk_Money (foldl dadd (dec_of_int 0) (map (fill_commission cost) fs))"

definition estimate :: "Money \<Rightarrow> Fill list \<Rightarrow> nat \<Rightarrow> Money \<Rightarrow> CostAssumptions \<Rightarrow> LiveEstimate" where
  "estimate paper_pnl fs order_count capital cost =
    (let slippage = slippage_cost fs cost;
         commission = commission_cost fs cost;
         fixed = mk_Money (dmul (dec_of_int (int order_count)) (commission_usd_per_order cost));
         fx = mk_Money (dmul (dquot (dmul (money_amount capital) (fx_cost_pct_one_way cost)) (dec_of_int 100)) (dec_of_int 2)) in
     \<lparr>le_paper_pnl = paper_pnl, le_slippage_cost = slippage, le_commission_cost = commission,
      le_fixed_commission_cost = fixed, le_fx_cost = fx,
      le_estimated_live_pnl = money_sub (money_sub (money_sub (money_sub paper_pnl slippage) commission) fixed) fx\<rparr>)"

section \<open>The text\<close>

definition rationale_excerpt_len :: nat where
  "rationale_excerpt_len = 200"

definition day_or_unset :: "day option \<Rightarrow> string" where
  "day_or_unset d = (case d of Some t \<Rightarrow> iso_date t | None \<Rightarrow> utf8 [230, 140, 135, 229, 174, 154,
        227, 129, 170, 227, 129, 151])"

definition period_label :: "Period \<Rightarrow> string" where
  "period_label period = day_or_unset (pd_start period) @ utf8 [32, 227, 128, 156, 32] @ day_or_unset (pd_end period)"

definition render_summary :: "Metrics \<Rightarrow> string list" where
  "render_summary m =
    [utf8 [35, 35, 32, 230, 144, 141, 231, 155, 138, 227, 130, 181, 227, 131, 158, 227, 131, 170],
     utf8 [230, 156, 159, 233, 150, 147, 230, 144, 141, 231, 155, 138, 58, 32] @ money_text (m_period_pnl m),
     utf8 [227, 131, 136, 227, 131, 172, 227, 131, 188, 227, 131, 137, 230, 149, 176, 58,
        32] @ show_nat (m_trade_count m) @ utf8 [40, 229, 139, 157, 227, 129, 161, 32] @ show_nat (m_win_count m)
       @ utf8 [32, 47, 32, 232, 178, 160, 227, 129, 145, 32] @ show_nat (m_loss_count m) @ '')'',
     utf8 [229, 139, 157, 231, 142, 135, 58, 32] @ dstr (m_win_rate_pct m) @ ''%'',
     utf8 [229, 185, 179, 229, 157, 135, 230, 144, 141, 231, 155, 138, 58, 32] @ money_text (m_avg_pnl m),
     utf8 [230, 156, 128, 229, 164, 167, 227, 131, 137, 227, 131, 173, 227, 131, 188, 227, 131, 128, 227, 130, 166,
        227, 131, 179, 58, 32] @ dstr (m_max_drawdown_pct m) @ ''%'']"

definition render_live_estimate :: "LiveEstimate \<Rightarrow> string list" where
  "render_live_estimate e =
    [utf8 [35, 35, 32, 229, 174, 159, 229, 188, 190, 230, 156, 159, 229, 190, 133, 229, 128, 164, 40, 230, 166, 130,
        231, 174, 151, 41],
     utf8 [112, 97, 112, 101, 114, 32, 230, 144, 141, 231, 155, 138, 58, 32] @ money_text (le_paper_pnl e),
     utf8 [230, 131, 179, 229, 174, 154, 227, 130, 185, 227, 131, 170, 227, 131, 131, 227, 131, 154, 227, 131, 188,
        227, 130, 184, 58, 32, 45] @ money_text (le_slippage_cost e),
     utf8 [230, 131, 179, 229, 174, 154, 230, 137, 139, 230, 149, 176, 230, 150, 153, 40, 231, 180, 132, 229, 174, 154,
        233, 128, 163, 229, 139, 149, 41, 58, 32, 45] @ money_text (le_commission_cost e),
     utf8 [230, 131, 179, 229, 174, 154, 230, 137, 139, 230, 149, 176, 230, 150, 153, 40, 230, 179, 168, 230, 150, 135,
        229, 155, 186, 229, 174, 154, 41, 58, 32, 45] @ money_text (le_fixed_commission_cost e),
     utf8 [230, 131, 179, 229, 174, 154, 231, 130, 186, 230, 155, 191, 227, 130, 179, 227, 130, 185, 227, 131, 136, 58,
        32, 45] @ money_text (le_fx_cost e),
     utf8 [229, 174, 159, 229, 188, 190, 230, 156, 159, 229, 190, 133, 229, 128, 164, 58,
        32] @ money_text (le_estimated_live_pnl e)]"

definition render_decision_counts :: "Metrics \<Rightarrow> string list" where
  "render_decision_counts m = utf8 [35, 35, 32, 229, 136, 164, 230, 150, 173, 229, 134, 133, 232, 168, 179] #
    (if m_decision_counts m = [] then [utf8 [40, 229, 136, 164, 230, 150, 173, 227, 129, 170, 227, 129, 151, 41]]
     else map (\<lambda>(bucket, count). bucket @ '': '' @ show_nat count) (sort_key (\<lambda>e. e) (m_decision_counts m)))"

definition render_exit_reason_counts :: "Metrics \<Rightarrow> string list" where
  "render_exit_reason_counts m = utf8 [35, 35, 32, 227, 131, 171, 227, 131, 188, 227, 131, 171, 231, 153, 186, 231,
        129, 171, 229, 155, 158, 230, 149, 176, 40, 229, 163, 178, 229, 141, 180, 231, 144, 134, 231, 148, 177, 229, 136, 165, 41] #
    (if m_exit_reason_counts m = [] then [utf8 [40, 232, 169, 178, 229, 189, 147, 227, 131, 136, 227, 131, 172, 227,
        131, 188, 227, 131, 137, 227, 129, 170, 227, 129, 151, 41]]
     else map (\<lambda>(reason, count). exit_reason_value reason @ '': '' @ show_nat count)
       (sort_key (\<lambda>e. exit_reason_value (fst e)) (m_exit_reason_counts m)))"

definition render_open_positions :: "Metrics \<Rightarrow> string list" where
  "render_open_positions m = utf8 [35, 35, 32, 228, 191, 157, 230, 156, 137, 228, 184, 173, 227, 131, 157, 227, 130,
        184, 227, 130, 183, 227, 131, 167, 227, 131, 179] #
    (if m_open_positions m = [] then [utf8 [40, 228, 191, 157, 230, 156, 137, 227, 129, 170, 227, 129, 151, 41]]
     else map (\<lambda>p. p_ticker p @ '': '' @ show_int (shares (p_qty p)) @ utf8 [32, 230, 160, 170, 32, 64, 32,
        229, 185, 179, 229, 157, 135, 229, 143, 150, 229, 190, 151, 32]
       @ dstr (price_amount (p_avg_cost p)) @ utf8 [40, 233, 171, 152, 229, 128, 164,
        32] @ dstr (price_amount (p_high_watermark p)) @ '')'')
       (m_open_positions m))"

definition render_trade :: "Trade \<Rightarrow> (string \<Rightarrow> Decision option) \<Rightarrow> string list" where
  "render_trade t entry_decisions =
    [''### '' @ t_ticker t @ ''(closed '' @ iso_date (utc_date (t_closed_at t)) @ '')'',
     (case entry_decisions (t_entry_decision_id t) of
        Some d \<Rightarrow> utf8 [230, 160, 185, 230, 139, 160, 58, 32] @ take_text rationale_excerpt_len (d_rationale d)
          @ ''(evidence '' @ show_nat (length (d_evidence_mention_ids d)) @ utf8 [32, 228, 187, 182, 41]
      | None \<Rightarrow> utf8 [230, 160, 185, 230, 139, 160, 58, 32, 40, 101, 110, 116, 114, 121, 32, 100, 101, 99,
        105, 115, 105, 111, 110, 32, 227, 129, 140, 232, 166, 139, 227, 129, 164, 227, 129, 139, 227, 130, 138, 227, 129, 190, 227, 129, 155, 227, 130, 147, 41]),
     utf8 [229, 163, 178, 229, 141, 180, 231, 144, 134, 231, 148, 177, 58, 32] @ exit_reason_value (t_exit_reason t),
     utf8 [230, 144, 141, 231, 155, 138, 58, 32, 229, 174, 159, 231, 143, 190, 230, 144, 141, 231, 155, 138,
        32] @ money_text (t_realized_pnl t) @ utf8 [32, 47, 32, 230, 137, 139, 230, 149, 176, 230, 150, 153,
        32] @ money_text (t_fees t),
     utf8 [228, 191, 157, 230, 156, 137, 230, 151, 165, 230, 149, 176, 58, 32] @ show_int (t_holding_days t)]"

definition render_trades :: "Trade list \<Rightarrow> (string \<Rightarrow> Decision option) \<Rightarrow> string list" where
  "render_trades ts entry_decisions = utf8 [35, 35, 32, 227, 131, 136, 227, 131, 172, 227, 131, 188, 227, 131, 137,
        228, 184, 128, 232, 166, 167] #
    (if ts = [] then [utf8 [40, 232, 169, 178, 229, 189, 147, 230, 156, 159, 233, 150, 147, 227, 129, 174, 227, 131,
        136, 227, 131, 172, 227, 131, 188, 227, 131, 137, 227, 129, 170, 227, 129, 151, 41]]
     else concat (map (\<lambda>t. render_trade t entry_decisions) ts))"

definition render_report :: "Metrics \<Rightarrow> LiveEstimate \<Rightarrow> Trade list \<Rightarrow> (string \<Rightarrow> Decision option) \<Rightarrow> Period \<Rightarrow> string" where
  "render_report m e ts entry_decisions period =
    join newline ([''# trader report'', utf8 [230, 156, 159, 233, 150, 147, 58, 32] @ period_label period]
      @ render_summary m @ render_live_estimate e @ render_decision_counts m @ render_exit_reason_counts m
      @ render_open_positions m @ render_trades ts entry_decisions) @ newline"

section \<open>Counting\<close>

lemma counter_snoc:
  "counter (xs @ [x]) = AList.update x (case map_of (counter xs) x of None \<Rightarrow> 1 | Some n \<Rightarrow> n + 1) (counter xs)"
  by (simp add: counter_def)

lemma counter_Nil [simp]: "counter [] = []"
  by (simp add: counter_def)

lemma map_of_counter: "map_of (counter xs) x = (if x \<in> set xs then Some (count_list xs x) else None)"
  by (induction xs rule: rev_induct) (auto simp: counter_snoc update_conv' count_notin)

lemma distinct_counter: "distinct (map fst (counter xs))"
  by (induction xs rule: rev_induct) (auto simp: counter_snoc distinct_update)

lemma keys_counter: "set (map fst (counter xs)) = set xs"
  by (induction xs rule: rev_induct) (auto simp: counter_snoc dom_update)

lemma sum_counter: "sum_list (map snd (counter xs)) = length xs"
proof -
  have "sum_list (map snd (counter xs)) = sum_list (map (\<lambda>k. the (map_of (counter xs) k)) (map fst (counter xs)))"
    unfolding map_map using distinct_counter [of xs] by (intro arg_cong [where f = sum_list]) (auto simp: map_of_is_SomeI)
  also have "\<dots> = (\<Sum>k \<in> set (map fst (counter xs)). the (map_of (counter xs) k))"
    by (rule sum_list_distinct_conv_sum_set [OF distinct_counter])
  also have "\<dots> = (\<Sum>k \<in> set xs. count_list xs k)"
    unfolding keys_counter by (intro sum.cong) (simp_all add: map_of_counter)
  also have "\<dots> = length xs" by (rule sum_count_set) simp_all
  finally show ?thesis .
qed

lemma cents_foldl_add: "cents (foldl money_add m ms) = cents m + sum_list (map cents ms)"
  by (induction ms arbitrary: m) (simp_all add: money_add_def)

text \<open>
  C35: the report accounts for every trade and decision of the period: the profit is the exact sum of
  the trades' profits, each reason and each bucket is counted as often as it occurs, and winning and
  losing trades are disjoint.
\<close>

theorem report_accounts_for_period:
  "let m = compute ts ds snapshots ps period; pts = filter_trades_by_period ts period;
      pds = filter (\<lambda>d. in_period (utc_date (d_decided_at d)) period) ds in
    cents (m_period_pnl m) = sum_list (map (cents \<circ> t_realized_pnl) pts)
    \<and> m_trade_count m = length pts \<and> m_win_count m + m_loss_count m \<le> m_trade_count m
    \<and> sum_list (map snd (m_exit_reason_counts m)) = length pts
    \<and> sum_list (map snd (m_decision_counts m)) = length pds
    \<and> (\<forall>r. map_of (m_exit_reason_counts m) r = (let n = length (filter (\<lambda>t. t_exit_reason t = r) pts) in
         if n = 0 then None else Some n))
    \<and> (\<forall>b. map_of (m_decision_counts m) b = (let n = length (filter (\<lambda>d. decision_bucket d = b) pds) in
         if n = 0 then None else Some n))"
proof -
  have c: "map_of (counter (map f xs)) k = (let n = length (filter (\<lambda>x. f x = k) xs) in if n = 0 then None else Some n)"
    for f :: "'a \<Rightarrow> 'b" and xs k
    by (auto simp: map_of_counter Let_def filter_empty_conv count_list_eq_length_filter filter_map comp_def
        eq_commute [of k])
  have "length (filter P xs) + length (filter Q xs) \<le> length xs" if "\<And>x. P x \<Longrightarrow> \<not> Q x" for P Q and xs :: "Trade list"
    using that by (induction xs) auto
  moreover have "cents zero_money = 0" by (simp add: zero_money_def money.units_mk_rhe)
  ultimately show ?thesis
    by (simp add: compute_def Let_def c [unfolded Let_def] sum_counter cents_foldl_add dlt_dval)
qed

section \<open>Costs\<close>

lemma dfix_nonneg: "0 \<le> dval d \<Longrightarrow> 0 \<le> dval (dfix d)"
  by (cases "dcoef d = 0") (auto simp: dval_nonneg_iff dneg_dfix)

lemma dmul_nonneg: "0 \<le> dval a \<Longrightarrow> 0 \<le> dval b \<Longrightarrow> 0 \<le> dval (dmul a b)"
  unfolding dmul_def by (rule dfix_nonneg) (auto simp: dval_nonneg_iff)

lemma dadd_nonneg:
  assumes "0 \<le> dval a" "0 \<le> dval b" shows "0 \<le> dval (dadd a b)"
proof -
  let ?t = "min (dexp a) (dexp b)"
  have "0 \<le> dscale ?t a" "0 \<le> dscale ?t b"
    using assms dval_dscale [of ?t a] dval_dscale [of ?t b] by (simp_all add: zero_le_mult_iff)
  then show ?thesis unfolding dadd_def Let_def by (intro dfix_nonneg) (auto simp: dval_nonneg_iff)
qed

lemma dquot_nonneg:
  assumes "0 \<le> dval a" "0 < dval b" shows "0 \<le> dval (dquot a b)"
proof (cases "dcoef a = 0")
  case True
  then show ?thesis by (simp add: dquot_def Let_def dval_nonneg_iff)
next
  case False
  then have "0 < dval a" using assms(1) by (simp add: dval_nonneg_iff dval_pos_iff)
  then obtain d where "dquot a b = dfix d" "\<not> dneg d" using dquot_as_dfix [OF _ assms(2)] by metis
  then show ?thesis using dfix_nonneg [of d] dval_nonneg_iff [of d] by metis
qed

lemma foldl_dadd_nonneg: "(\<And>d. d \<in> set ds \<Longrightarrow> 0 \<le> dval d) \<Longrightarrow> 0 \<le> dval a \<Longrightarrow> 0 \<le> dval (foldl dadd a ds)"
  by (induction ds arbitrary: a) (auto intro: dadd_nonneg)

lemma mk_Money_nonneg: "0 \<le> dval d \<Longrightarrow> 0 \<le> cents (mk_Money d)"
  by (intro money.mk_ge_grid) simp

definition fill_ok :: "Fill \<Rightarrow> bool" where
  "fill_ok f \<longleftrightarrow> 0 \<le> ticks (f_price f) \<and> 0 \<le> shares (f_qty f)"

lemma fill_notional_nonneg: "fill_ok f \<Longrightarrow> 0 \<le> dval (fill_notional f)"
  unfolding fill_notional_def price_times_def fill_ok_def
  by (intro dmul_nonneg) (simp_all add: price.dval_amount)

lemma pct_cost_nonneg: "fill_ok f \<Longrightarrow> 0 \<le> dval p \<Longrightarrow> 0 \<le> dval (dquot (dmul (fill_notional f) p) (dec_of_int 100))"
  by (intro dquot_nonneg dmul_nonneg fill_notional_nonneg) simp_all

lemma cost_assumptions_nonneg:
  assumes "cost_assumptions_ok cost"
  shows "0 \<le> dval (slippage_pct_per_side cost)" "0 \<le> dval (commission_pct cost)"
    "0 \<le> dval (commission_usd_per_order cost)" "0 \<le> dval (fx_cost_pct_one_way cost)"
    "commission_cap_usd cost = Some cap \<Longrightarrow> 0 < dval cap"
  using assms by (auto simp: cost_assumptions_ok_def ge_def gt_def dle_dval dlt_dval)

lemma fill_commission_bounds:
  assumes "cost_assumptions_ok cost" "fill_ok f"
  shows "0 \<le> dval (fill_commission cost f)"
    and "commission_cap_usd cost = Some cap \<Longrightarrow> dval (fill_commission cost f) \<le> dval cap"
  using pct_cost_nonneg [OF assms(2) cost_assumptions_nonneg(2) [OF assms(1)]] cost_assumptions_nonneg(5) [OF assms(1)]
  by (auto simp: fill_commission_def Let_def split: option.splits intro: less_imp_le)


text \<open>A drawdown is never negative.\<close>

lemma drawdown_step_nonneg:
  "0 \<le> dval (snd pw) \<Longrightarrow> 0 \<le> dval (snd (drawdown_step pw s))"
  by (cases pw) (simp add: drawdown_step_def Let_def le_max_iff_disj)

lemma max_drawdown_nonneg: "0 \<le> dval (max_drawdown_pct snapshots)"
proof (cases snapshots)
  case (Cons s ss)
  have "0 \<le> dval (snd (foldl drawdown_step pw xs))" if "0 \<le> dval (snd pw)" for pw xs
    using that by (induction xs arbitrary: pw) (simp_all add: drawdown_step_nonneg)
  then have "0 \<le> dval (snd (foldl drawdown_step (money_amount (s_equity s), dec_of_int 0) snapshots))" by simp
  then have "rhe 0 \<le> rhe (dval (snd (foldl drawdown_step (money_amount (s_equity s), dec_of_int 0) snapshots)) / 10 powi (- 2))"
    by (intro rhe_mono) simp
  then show ?thesis using Cons by (simp add: max_drawdown_pct_def quantize_pct_def dval_dquantize)
qed (simp add: max_drawdown_pct_def zero_pct_def dval_def dsint_def)

section \<open>A concrete estimate\<close>

definition sample_costs :: CostAssumptions where
  "sample_costs = \<lparr>slippage_pct_per_side = Dec False 5 (- 2), commission_pct = Dec False 495 (- 3),
     commission_cap_usd = Some (Dec False 22 0), commission_usd_per_order = Dec False 0 0,
     fx_cost_pct_one_way = Dec False 15 (- 2)\<rparr>"

definition bought_fill :: Fill where
  "bought_fill = \<lparr>f_id = ''fill_1'', f_order_id = ''order_1'', f_filled_at = 0, f_qty = Quantity 30,
     f_price = Price 123400, f_fee = Money 0\<rparr>"


end
