(* ===== verification/Serenity.thy ===== *)
theory Serenity
  imports Json_Text Domain_Models Iso_Time
begin

text \<open>
  sources/serenity and sources/adapter.py: the tweet archive, from the two files of a data directory to
  validated mentions, and the registry of adapters. Pydantic's reading of a timestamp and its JSON of
  a tweet, the hash function and the word characters beyond ASCII are parameters. Files are taken to
  be valid UTF-8.
\<close>

section \<open>Files\<close>

text \<open>An entry of a directory: a file, a file that cannot be read, or something else.\<close>

datatype dir_entry = Regular string | Unreadable | Other_entry

record data_dir =
  dd_is_dir :: bool
  dd_entries :: "(string \<times> dir_entry) list"

text \<open>\<open>read_text\<close>: \<open>None\<close> is an \<open>OSError\<close>.\<close>

definition read_file :: "data_dir \<Rightarrow> string \<Rightarrow> string option" where
  "read_file dir name = (case map_of (dd_entries dir) name of Some (Regular s) \<Rightarrow> Some s | _ \<Rightarrow> None)"

section \<open>Twitter's dates\<close>

text \<open>
  \<open>strptime\<close> with "%a %b %d %H:%M:%S %z %Y": the names in any case, white space between the parts,
  one or two digits for day and time, an offset with or without colons.
\<close>

definition weekday_names :: "string list" where
  "weekday_names = [''mon'', ''tue'', ''wed'', ''thu'', ''fri'', ''sat'', ''sun'']"

definition month_names :: "string list" where
  "month_names = [''jan'', ''feb'', ''mar'', ''apr'', ''may'', ''jun'', ''jul'', ''aug'', ''sep'', ''oct'', ''nov'', ''dec'']"

definition read_name :: "string list \<Rightarrow> string \<Rightarrow> (nat \<times> string) option" where
  "read_name names s = (case find (\<lambda>(i, n). n = py_lower (take 3 s)) (enumerate 1 names) of
     Some (i, n) \<Rightarrow> Some (i, drop 3 s) | None \<Rightarrow> None)"

definition read_blank :: "string \<Rightarrow> string option" where
  "read_blank s = (if starts_with_any space_words s = None then None else Some (drop_words space_words s))"

definition read_upto2 :: "nat \<Rightarrow> nat \<Rightarrow> string \<Rightarrow> (nat \<times> string) option" where
  "read_upto2 lo hi s =
    (let ds = takeWhile is_digit s; n = read_nat ds in
     if ds \<noteq> [] \<and> length ds \<le> 2 \<and> lo \<le> n \<and> n \<le> hi then Some (n, dropWhile is_digit s) else None)"

definition read_below :: "nat \<Rightarrow> string \<Rightarrow> (nat \<times> string) option" where
  "read_below n s = (case read_fixed 2 s of Some (k, r) \<Rightarrow> if k < n then Some (k, r) else None | None \<Rightarrow> None)"

text \<open>The fraction of an offset's second: one to six digits, in microseconds.\<close>

definition read_micros :: "string \<Rightarrow> (nat \<times> string) option" where
  "read_micros s = (case expect (CHR ''.'') s of
     None \<Rightarrow> Some (0, s)
   | Some r \<Rightarrow> (let ds = takeWhile is_digit r in
       if ds \<noteq> [] \<and> length ds \<le> 6 then Some (read_nat ds * 10 ^ (6 - length ds), dropWhile is_digit r) else None))"

definition read_offset_seconds :: "bool \<Rightarrow> string \<Rightarrow> (nat \<times> string) option" where
  "read_offset_seconds colon s =
    (if read_blank s \<noteq> None then Some (0, s)
     else Option.bind (if colon then expect (CHR '':'') s else Some s)
       (\<lambda>s. Option.bind (read_below 60 s) (\<lambda>(sec, s). Option.bind (read_micros s)
       (\<lambda>(us, s). Some (sec * 1000000 + us, s)))))"

definition read_offset :: "string \<Rightarrow> (int \<times> string) option" where
  "read_offset s = (case s of [] \<Rightarrow> None
   | c # cs \<Rightarrow> if c = CHR ''Z'' then Some (0, cs)
     else if c \<noteq> CHR ''+'' \<and> c \<noteq> CHR ''-'' then None
     else Option.bind (read_fixed 2 cs) (\<lambda>(h, r).
       let colon = (take 1 r = '':''); r' = (if colon then drop 1 r else r) in
       Option.bind (read_below 60 r') (\<lambda>(mi, r'').
         Option.bind (read_offset_seconds colon r'') (\<lambda>(us, rest).
           let off = int (h * 3600000000 + mi * 60000000 + us) in
           if 24 \<le> h then None else Some (if c = CHR ''-'' then - off else off, rest)))))"

definition month_length :: "int \<Rightarrow> nat \<Rightarrow> nat" where
  "month_length y m = (if m = 2 then (if is_leap y then 29 else 28) else if m \<in> {4, 6, 9, 11} then 30 else 31)"

definition strptime_twitter :: "string \<Rightarrow> py_datetime option" where
  "strptime_twitter s =
    Option.bind (read_name weekday_names s) (\<lambda>(wd, s). Option.bind (read_blank s)
    (\<lambda>s. Option.bind (read_name month_names s) (\<lambda>(mo, s). Option.bind (read_blank s)
    (\<lambda>s. Option.bind (read_upto2 1 31 s) (\<lambda>(d, s). Option.bind (read_blank s)
    (\<lambda>s. Option.bind (read_upto2 0 23 s) (\<lambda>(h, s). Option.bind (expect (CHR '':'') s)
    (\<lambda>s. Option.bind (read_upto2 0 59 s) (\<lambda>(mi, s). Option.bind (expect (CHR '':'') s)
    (\<lambda>s. Option.bind (read_upto2 0 59 s) (\<lambda>(sec, s). Option.bind (read_blank s)
    (\<lambda>s. Option.bind (read_offset s) (\<lambda>(off, s). Option.bind (read_blank s)
    (\<lambda>s. Option.bind (read_fixed 4 s) (\<lambda>(y, s).
      if s \<noteq> [] \<or> y = 0 \<or> month_length (int y) mo < d then None
      else Some (Aware (((ymd2ord (int y) (int mo) (int d) - epoch_ordinal) * 86400
        + int (h * 3600 + mi * 60 + sec)) * 1000000) off))))))))))))))))"

section \<open>A tweet\<close>

record Tweet =
  tw_id :: string
  tw_created_at :: "py_datetime option"
  tw_timestamp :: "py_datetime option"
  tw_text :: string
  tw_url :: "string option"

record tweet_reading =
  tr_datetime :: "json \<Rightarrow> (py_datetime, string) result"
  tr_dump_json :: "Tweet \<Rightarrow> string"
  tr_sha256 :: "string \<Rightarrow> string"
  tr_word_point :: "nat \<Rightarrow> bool"

text \<open>Pydantic's messages; a location is empty for an error of the whole model.\<close>

type_synonym field_error = "string \<times> string"

definition read_str :: "string \<Rightarrow> json \<Rightarrow> (string, field_error) result" where
  "read_str k j = (case j of JString s \<Rightarrow> Ok s | _ \<Rightarrow> Err (k, ''Input should be a valid string''))"

definition required_str :: "(string \<times> json) list \<Rightarrow> string \<Rightarrow> (string, field_error) result" where
  "required_str obj k = (case map_of obj k of None \<Rightarrow> Err (k, ''Field required'') | Some j \<Rightarrow> read_str k j)"

text \<open>The first of a field's names that is there.\<close>

definition first_key :: "(string \<times> json) list \<Rightarrow> string list \<Rightarrow> string option" where
  "first_key obj ks = find (\<lambda>k. map_of obj k \<noteq> None) ks"

definition optional_field :: "(string \<Rightarrow> json \<Rightarrow> ('a, field_error) result) \<Rightarrow> (string \<times> json) list \<Rightarrow> string list
    \<Rightarrow> ('a option, field_error) result" where
  "optional_field read obj ks = (case first_key obj ks of
     None \<Rightarrow> Ok None
   | Some k \<Rightarrow> (case the (map_of obj k) of
       JNull \<Rightarrow> Ok None
     | j \<Rightarrow> (case read k j of Ok v \<Rightarrow> Ok (Some v) | Err e \<Rightarrow> Err e)))"

definition read_timestamp :: "tweet_reading \<Rightarrow> string \<Rightarrow> json \<Rightarrow> (py_datetime, field_error) result" where
  "read_timestamp tr k j = (case tr_datetime tr j of Ok t \<Rightarrow> Ok t | Err msg \<Rightarrow> Err (k, msg))"

definition read_created_at :: "tweet_reading \<Rightarrow> string \<Rightarrow> json \<Rightarrow> (py_datetime, field_error) result" where
  "read_created_at tr k j = (case (case j of JString s \<Rightarrow> strptime_twitter s | _ \<Rightarrow> None) of
     Some t \<Rightarrow> Ok t | None \<Rightarrow> read_timestamp tr k j)"

text \<open>\<open>^[0-9]+$\<close> with \<open>match\<close>: a line feed may follow.\<close>

definition is_numeric_id :: "string \<Rightarrow> bool" where
  "is_numeric_id s =
    (let t = (if s \<noteq> [] \<and> last s = CHR 0x0A then butlast s else s) in t \<noteq> [] \<and> list_all is_digit t)"

definition numeric_id :: "(string, field_error) result \<Rightarrow> (string, field_error) result" where
  "numeric_id r = (case r of
     Ok s \<Rightarrow> if is_numeric_id s then Ok s else Err (''id'', ''Value error, id must be a numeric string'')
   | Err e \<Rightarrow> Err e)"

definition error_list :: "('a, 'e) result \<Rightarrow> 'e list" where
  "error_list r = (case r of Ok v \<Rightarrow> [] | Err e \<Rightarrow> [e])"

definition validate_tweet :: "tweet_reading \<Rightarrow> json \<Rightarrow> (Tweet, field_error list) result" where
  "validate_tweet tr record = (case record of
     JObject obj \<Rightarrow>
       (let i = numeric_id (required_str obj ''id'');
            c = optional_field (read_created_at tr) obj [''created_at'', ''createdAtISO'', ''createdAt''];
            t = optional_field (read_timestamp tr) obj [''timestamp''];
            x = required_str obj ''text'';
            u = optional_field read_str obj [''url'', ''sourceUrl''] in
        case (i, c, t, x, u) of
          (Ok i, Ok c, Ok t, Ok x, Ok u) \<Rightarrow>
            (if c = None \<and> t = None then Err [('''', ''Value error, created_at or timestamp is required'')]
             else Ok \<lparr>tw_id = i, tw_created_at = c, tw_timestamp = t, tw_text = x, tw_url = u\<rparr>)
        | _ \<Rightarrow> Err (error_list i @ error_list c @ error_list t @ error_list x @ error_list u))
   | _ \<Rightarrow> Err [('''', ''Input should be a valid dictionary or instance of Tweet'')])"

definition posted_at :: "Tweet \<Rightarrow> datetime py_call" where
  "posted_at tweet =
    (let raw = (if tw_created_at tweet \<noteq> None then tw_created_at tweet else tw_timestamp tweet) in
     case raw of None \<Rightarrow> Raises ''ValueError'' | Some t \<Rightarrow> Returns (instant t))"

section \<open>Tickers\<close>

definition is_upper :: "char \<Rightarrow> bool" where
  "is_upper c = (65 \<le> byte c \<and> byte c \<le> 90)"

definition ticker_shaped :: "string \<Rightarrow> bool" where
  "ticker_shaped s = (s \<noteq> [] \<and> length s \<le> 5 \<and> list_all is_upper s)"

text \<open>What a line of the whitelist contributes.\<close>

definition line_ticker :: "string \<Rightarrow> string option" where
  "line_ticker line =
    (let stripped = strip_text line; token = first_word stripped in
     if stripped = '''' \<or> take 1 stripped = ''#'' then None
     else if ticker_shaped token then Some token else None)"

definition parse_ticker_whitelist :: "string \<Rightarrow> string list" where
  "parse_ticker_whitelist s = remdups (List.map_filter line_ticker (py_splitlines s))"

text \<open>Whether a text begins with a word character, the other side of \<open>\b\<close>.\<close>

definition word_start :: "(nat \<Rightarrow> bool) \<Rightarrow> string \<Rightarrow> bool" where
  "word_start word_point s = (case s of [] \<Rightarrow> False
   | c # cs \<Rightarrow> if byte c < 128 then is_digit c \<or> is_upper c \<or> (97 \<le> byte c \<and> byte c \<le> 122) \<or> c = CHR ''_''
     else word_point (hd (code_points s)))"

text \<open>The matches of \<open>\$([A-Z]{1,5})\b\<close>, from left to right.\<close>

function mention_matches :: "(nat \<Rightarrow> bool) \<Rightarrow> string \<Rightarrow> string list" where
  "mention_matches w [] = []"
| "mention_matches w (c # cs) =
    (let run = takeWhile is_upper cs; rest = dropWhile is_upper cs in
     if c = CHR ''$'' \<and> ticker_shaped run \<and> \<not> word_start w rest then run # mention_matches w rest
     else mention_matches w cs)"
  by pat_completeness auto
termination by (relation "measure (\<lambda>(w, s). length s)") (auto intro: le_imp_less_Suc length_dropWhile_le)

definition extract_tickers :: "(nat \<Rightarrow> bool) \<Rightarrow> string \<Rightarrow> string list \<Rightarrow> string list" where
  "extract_tickers w body whitelist = foldl (\<lambda>seen t. if t \<in> set whitelist \<and> t \<notin> set seen then seen @ [t] else seen)
     [] (mention_matches w body)"

section \<open>The adapter\<close>

record IngestError =
  ie_message :: string
  ie_invalid_count :: nat
  ie_first_errors :: "string list"

definition max_excerpt_chars :: nat where
  "max_excerpt_chars = 280"

definition max_first_errors :: nat where
  "max_first_errors = 5"

definition source_id :: string where
  "source_id = ''serenity''"

definition boundary_error :: "string \<Rightarrow> IngestError" where
  "boundary_error message = \<lparr>ie_message = message, ie_invalid_count = 0, ie_first_errors = []\<rparr>"

text \<open>The messages, which are in Japanese: unreadable, no JSON, wrong shape, not a list.\<close>

definition msg_tweets_unreadable :: string where
  "msg_tweets_unreadable = utf8 [116, 119, 101, 101, 116, 115, 46, 106, 115, 111, 110, 32, 227, 129, 140, 232, 166,
    139, 227, 129, 164, 227, 129, 139, 227, 130, 137, 227, 129, 170, 227, 129, 132, 227, 128, 129, 227, 129, 190, 227,
    129, 159, 227, 129, 175, 232, 170, 173, 227, 129, 191, 232, 190, 188, 227, 130, 129, 227, 129, 170, 227, 129, 132]"

definition msg_tweets_not_json :: string where
  "msg_tweets_not_json = utf8 [116, 119, 101, 101, 116, 115, 46, 106, 115, 111, 110, 32, 227, 129, 174, 229, 189, 162,
    229, 188, 143, 227, 129, 140, 228, 184, 141, 230, 173, 163, 32, 40, 74, 83, 79, 78, 32, 227, 129, 168, 227, 129,
    151, 227, 129, 166, 232, 167, 163, 230, 158, 144, 227, 129, 167, 227, 129, 141, 227, 129, 170, 227, 129, 132, 41]"

definition msg_tweets_shape :: string where
  "msg_tweets_shape = utf8 [116, 119, 101, 101, 116, 115, 46, 106, 115, 111, 110, 32, 227, 129, 174, 229, 189, 162,
    229, 188, 143, 227, 129, 140, 228, 184, 141, 230, 173, 163, 32, 40, 227, 131, 136, 227, 131, 131, 227, 131, 151,
    227, 131, 172, 227, 131, 153, 227, 131, 171, 227, 129, 140, 233, 133, 141, 229, 136, 151, 227, 128, 129, 227, 129,
    190, 227, 129, 159, 227, 129, 175, 32, 39, 116, 119, 101, 101, 116, 115, 39, 32, 227, 130, 173, 227, 131, 188, 227,
    129, 171, 233, 133, 141, 229, 136, 151, 227, 130, 146, 230, 140, 129, 227, 129, 164, 227, 130, 170, 227, 131, 150,
    227, 130, 184, 227, 130, 167, 227, 130, 175, 227, 131, 136, 227, 129, 167, 227, 129, 130, 227, 130, 139, 229, 191,
    133, 232, 166, 129, 227, 129, 140, 227, 129, 130, 227, 130, 139, 41]"

definition msg_tweets_not_list :: string where
  "msg_tweets_not_list = utf8 [116, 119, 101, 101, 116, 115, 46, 106, 115, 111, 110, 32, 227, 129, 174, 229, 189, 162,
    229, 188, 143, 227, 129, 140, 228, 184, 141, 230, 173, 163, 32, 40, 233, 133, 141, 229, 136, 151, 227, 129, 140,
    230, 156, 159, 229, 190, 133, 227, 129, 149, 227, 130, 140, 227, 130, 139, 41]"

definition msg_whitelist_unreadable :: string where
  "msg_whitelist_unreadable = utf8 [116, 105, 99, 107, 101, 114, 95, 115, 116, 97, 116, 115, 46, 116, 120, 116, 32,
    227, 129, 140, 232, 166, 139, 227, 129, 164, 227, 129, 139, 227, 130, 137, 227, 129, 170, 227, 129, 132, 227, 128,
    129, 227, 129, 190, 227, 129, 159, 227, 129, 175, 232, 170, 173, 227, 129, 191, 232, 190, 188, 227, 130, 129, 227,
    129, 170, 227, 129, 132]"

definition msg_invalid_records :: string where
  "msg_invalid_records = utf8 [32, 228, 187, 182, 227, 129, 174, 227, 131, 172, 227, 130, 179, 227, 131, 188, 227, 131,
    137, 227, 129, 140, 228, 184, 141, 230, 173, 163, 227, 129, 167, 227, 129, 153]"

text \<open>An integer too long for \<open>int\<close> is a \<open>ValueError\<close> but no \<open>JSONDecodeError\<close>, and escapes.\<close>

definition read_tweets :: "data_dir \<Rightarrow> (json list, IngestError) result py_call" where
  "read_tweets dir = (case read_file dir ''tweets.json'' of
     None \<Rightarrow> Returns (Err (boundary_error msg_tweets_unreadable))
   | Some raw_text \<Rightarrow> (case json_loads raw_text of
       Err JSONDecodeError \<Rightarrow> Returns (Err (boundary_error msg_tweets_not_json))
     | Err _ \<Rightarrow> Raises ''ValueError''
     | Ok (JObject obj) \<Rightarrow> (case map_of obj ''tweets'' of
         Some (JArray rs) \<Rightarrow> Returns (Ok rs)
       | _ \<Rightarrow> Returns (Err (boundary_error msg_tweets_shape)))
     | Ok (JArray rs) \<Rightarrow> Returns (Ok rs)
     | Ok _ \<Rightarrow> Returns (Err (boundary_error msg_tweets_not_list))))"

definition read_whitelist :: "data_dir \<Rightarrow> (string list, IngestError) result" where
  "read_whitelist dir = (case read_file dir ''ticker_stats.body'' of
     None \<Rightarrow> Err (boundary_error msg_whitelist_unreadable)
   | Some s \<Rightarrow> Ok (parse_ticker_whitelist s))"

definition error_line :: "nat \<Rightarrow> field_error \<Rightarrow> string" where
  "error_line index e = ''index '' @ show_nat index @ '': '' @ (if fst e = '''' then ''value'' else fst e) @ '': '' @ snd e"

text \<open>The valid tweets, the errors of all records in order, and the number of invalid records.\<close>

fun validate_loop :: "tweet_reading \<Rightarrow> nat \<Rightarrow> json list \<Rightarrow> Tweet list \<times> string list \<times> nat" where
  "validate_loop tr index [] = ([], [], 0)"
| "validate_loop tr index (r # rs) = (case validate_loop tr (index + 1) rs of (tweets, errors, invalid) \<Rightarrow>
     (case validate_tweet tr r of
        Ok t \<Rightarrow> (t # tweets, errors, invalid)
      | Err es \<Rightarrow> (tweets, map (error_line index) es @ errors, invalid + 1)))"

definition validate_all :: "tweet_reading \<Rightarrow> json list \<Rightarrow> (Tweet list, IngestError) result" where
  "validate_all tr records = (case validate_loop tr 0 records of (tweets, errors, invalid) \<Rightarrow>
     if invalid \<noteq> 0 then Err \<lparr>ie_message = show_nat invalid @ msg_invalid_records, ie_invalid_count = invalid,
       ie_first_errors = take max_first_errors errors\<rparr>
     else Ok tweets)"

definition mention_of :: "tweet_reading \<Rightarrow> Tweet \<Rightarrow> datetime \<Rightarrow> string \<Rightarrow> Mention" where
  "mention_of tr tweet posted ticker =
     \<lparr>m_id = source_id @ '':'' @ tw_id tweet @ '':'' @ ticker, m_source_id = source_id,
      m_external_id = tw_id tweet, m_ticker = ticker, m_posted_at = posted,
      m_text_excerpt = take_text max_excerpt_chars (tw_text tweet), m_url = tw_url tweet,
      m_raw_sha256 = tr_sha256 tr (tr_dump_json tr tweet)\<rparr>"

definition tweet_to_mentions :: "tweet_reading \<Rightarrow> Tweet \<Rightarrow> string list \<Rightarrow> Mention list py_call" where
  "tweet_to_mentions tr tweet whitelist =
    (let tickers = extract_tickers (tr_word_point tr) (tw_text tweet) whitelist in
     if tickers = [] then Returns []
     else (case posted_at tweet of
       Raises e \<Rightarrow> Raises e
     | Returns posted \<Rightarrow> Returns (map (mention_of tr tweet posted) tickers)))"

fun all_mentions :: "tweet_reading \<Rightarrow> string list \<Rightarrow> Tweet list \<Rightarrow> Mention list py_call" where
  "all_mentions tr whitelist [] = Returns []"
| "all_mentions tr whitelist (t # ts) = (case tweet_to_mentions tr t whitelist of
     Raises e \<Rightarrow> Raises e
   | Returns ms \<Rightarrow> (case all_mentions tr whitelist ts of
       Raises e \<Rightarrow> Raises e | Returns ms' \<Rightarrow> Returns (ms @ ms')))"

definition serenity_load :: "tweet_reading \<Rightarrow> data_dir \<Rightarrow> (Mention list, IngestError) result py_call" where
  "serenity_load tr dir = (case read_tweets dir of
     Raises e \<Rightarrow> Raises e
   | Returns (Err e) \<Rightarrow> Returns (Err e)
   | Returns (Ok records) \<Rightarrow> (case read_whitelist dir of
       Err e \<Rightarrow> Returns (Err e)
     | Ok whitelist \<Rightarrow> (case validate_all tr records of
         Err e \<Rightarrow> Returns (Err e)
       | Ok tweets \<Rightarrow> (case all_mentions tr whitelist tweets of
           Raises e \<Rightarrow> Raises e
         | Returns ms \<Rightarrow> Returns (Ok ms)))))"

section \<open>The registry\<close>

record SourceAdapter =
  sa_source_id :: string
  sa_load :: "data_dir \<Rightarrow> (Mention list, IngestError) result py_call"

type_synonym AdapterRegistry = "(string \<times> SourceAdapter) list"

definition register :: "SourceAdapter \<Rightarrow> AdapterRegistry \<Rightarrow> AdapterRegistry" where
  "register adapter reg = AList.update (sa_source_id adapter) adapter reg"

definition registry_get :: "AdapterRegistry \<Rightarrow> string \<Rightarrow> (SourceAdapter, IngestError) result" where
  "registry_get reg sid = (case map_of reg sid of
     None \<Rightarrow> Err \<lparr>ie_message = ''unknown source '' @ [CHR 0x27] @ sid @ [CHR 0x27], ie_invalid_count = 0, ie_first_errors = []\<rparr>
   | Some adapter \<Rightarrow> Ok adapter)"

definition serenity_adapter :: "tweet_reading \<Rightarrow> SourceAdapter" where
  "serenity_adapter tr = \<lparr>sa_source_id = source_id, sa_load = serenity_load tr\<rparr>"

definition default_registry :: "tweet_reading \<Rightarrow> AdapterRegistry" where
  "default_registry tr = register (serenity_adapter tr) []"

section \<open>Extraction\<close>

lemma mention_matches_shaped: "t \<in> set (mention_matches w body) \<Longrightarrow> ticker_shaped t"
  by (induction w body rule: mention_matches.induct) (auto simp: Let_def split: if_splits)

lemma mention_matches_found:
  "t \<in> set (mention_matches w body) \<Longrightarrow>
    \<exists>before after. body = before @ CHR ''$'' # t @ after \<and> \<not> word_start w after"
proof (induction w body rule: mention_matches.induct)
  case (2 w c cs)
  let ?run = "takeWhile is_upper cs" and ?rest = "dropWhile is_upper cs"
  show ?case
  proof (cases "c = CHR ''$'' \<and> ticker_shaped ?run \<and> \<not> word_start w ?rest")
    case True
    show ?thesis
    proof (cases "t = ?run")
      case eq: True
      then have "c # cs = [] @ CHR ''$'' # t @ ?rest" using True by simp
      then show ?thesis using True by blast
    next
      case False
      then have "t \<in> set (mention_matches w ?rest)" using 2(3) True by (simp add: Let_def)
      then obtain b a where "?rest = b @ CHR ''$'' # t @ a" "\<not> word_start w a"
        using 2(1) [OF refl refl] True by blast
      then have "c # cs = (c # ?run @ b) @ CHR ''$'' # t @ a" by (metis append.assoc append_Cons takeWhile_dropWhile_id)
      then show ?thesis using \<open>\<not> word_start w a\<close> by blast
    qed
  next
    case False
    then have "t \<in> set (mention_matches w cs)" using 2(3) by (auto simp: Let_def split: if_splits)
    then obtain b a where "cs = b @ CHR ''$'' # t @ a" "\<not> word_start w a" using 2(2) [OF refl refl] False by blast
    then have "c # cs = (c # b) @ CHR ''$'' # t @ a" by simp
    then show ?thesis using \<open>\<not> word_start w a\<close> by blast
  qed
qed simp

lemma is_upper_word: "is_upper c \<Longrightarrow> word_start w (c # cs)"
  by (simp add: word_start_def is_upper_def)

lemma upper_run:
  assumes "list_all is_upper t" "\<not> word_start w after"
  shows "takeWhile is_upper (t @ after) = t" "dropWhile is_upper (t @ after) = after"
proof -
  have "after = [] \<or> \<not> is_upper (hd after)" using assms(2) is_upper_word by (cases after) auto
  then have "takeWhile is_upper after = []" "dropWhile is_upper after = after" by (cases after, simp_all)+
  then show "takeWhile is_upper (t @ after) = t" "dropWhile is_upper (t @ after) = after"
    using assms(1) by (simp_all add: list_all_iff)
qed

lemma mention_matches_complete:
  assumes "ticker_shaped t" "\<not> word_start w after"
  shows "t \<in> set (mention_matches w (before @ CHR ''$'' # t @ after))"
proof (induction before rule: length_induct)
  case (1 before)
  have run: "takeWhile is_upper (t @ after) = t" "dropWhile is_upper (t @ after) = after"
    using upper_run [OF _ assms(2)] assms(1) by (simp_all add: ticker_shaped_def)
  show ?case
  proof (cases before)
    case Nil
    then show ?thesis using run assms by (simp add: Let_def)
  next
    case (Cons c b)
    let ?cs = "b @ CHR ''$'' # t @ after"
    show ?thesis
    proof (cases "c = CHR ''$'' \<and> ticker_shaped (takeWhile is_upper ?cs) \<and> \<not> word_start w (dropWhile is_upper ?cs)")
      case True
      have "\<not> is_upper (CHR ''$'')" by (simp add: is_upper_def byte_def)
      then have "dropWhile is_upper ?cs = dropWhile is_upper b @ CHR ''$'' # t @ after"
        by (cases "\<exists>x \<in> set b. \<not> is_upper x") (auto simp: dropWhile_append1 dropWhile_append2 dropWhile_eq_Nil_conv)
      moreover have "length (dropWhile is_upper b) < length before" using Cons length_dropWhile_le [of is_upper b] by simp
      ultimately show ?thesis using 1 Cons True by (simp add: Let_def)
    next
      case False
      then have "mention_matches w (c # ?cs) = mention_matches w ?cs" by (simp only: mention_matches.simps Let_def if_False)
      moreover have "t \<in> set (mention_matches w ?cs)" using 1 Cons by simp
      ultimately show ?thesis by (simp only: Cons append_Cons)
    qed
  qed
qed

lemma set_extract: "set (extract_tickers w body wl) = set wl \<inter> set (mention_matches w body)"
proof -
  have "set (foldl (\<lambda>seen t. if t \<in> set wl \<and> t \<notin> set seen then seen @ [t] else seen) acc ts)
      = set acc \<union> (set wl \<inter> set ts)" for acc ts
    by (induction ts arbitrary: acc) auto
  then show ?thesis by (simp add: extract_tickers_def)
qed

lemma distinct_extract: "distinct (extract_tickers w body wl)"
proof -
  have "distinct acc \<Longrightarrow> distinct (foldl (\<lambda>seen t. if t \<in> set wl \<and> t \<notin> set seen then seen @ [t] else seen) acc ts)" for acc ts
    by (induction ts arbitrary: acc) auto
  then show ?thesis by (simp add: extract_tickers_def)
qed

text \<open>
  C32: the tickers of a tweet are, without repetition, exactly the whitelisted ones the text has after
  a dollar sign as a word of one to five capital letters.
\<close>

theorem extract_tickers_exact:
  "distinct (extract_tickers w body wl)
    \<and> set (extract_tickers w body wl) = {t \<in> set wl. ticker_shaped t
        \<and> (\<exists>before after. body = before @ CHR ''$'' # t @ after \<and> \<not> word_start w after)}"
  using mention_matches_shaped mention_matches_found mention_matches_complete distinct_extract
  unfolding set_extract by (auto 0 3)

section \<open>Loading\<close>

lemma validate_tweet_Ok:
  assumes "validate_tweet tr r = Ok t"
  shows "is_numeric_id (tw_id t) \<and> (tw_created_at t \<noteq> None \<or> tw_timestamp t \<noteq> None)"
  using assms
  by (cases r) (auto simp: validate_tweet_def Let_def numeric_id_def split: result.splits if_splits)

lemma validate_loop_Ok:
  "validate_loop tr i rs = (ts, es, 0) \<Longrightarrow> map Ok ts = map (validate_tweet tr) rs"
  by (induction rs arbitrary: i ts es) (auto split: prod.splits result.splits)

lemma validate_all_Ok: "validate_all tr rs = Ok ts \<Longrightarrow> map Ok ts = map (validate_tweet tr) rs"
  by (auto simp: validate_all_def split: prod.splits if_splits intro: validate_loop_Ok)

text \<open>A validated tweet has a time, so no exception escapes.\<close>

lemma tweet_to_mentions_valid:
  assumes "validate_tweet tr r = Ok t"
  shows "\<exists>posted. tweet_to_mentions tr t wl
    = Returns (map (mention_of tr t posted) (extract_tickers (tr_word_point tr) (tw_text t) wl))"
  using validate_tweet_Ok [OF assms]
  by (auto simp: tweet_to_mentions_def Let_def posted_at_def split: option.splits)

lemma all_mentions_valid:
  assumes "\<And>t. t \<in> set ts \<Longrightarrow> \<exists>r. validate_tweet tr r = Ok t"
  shows "\<exists>ms. all_mentions tr wl ts = Returns ms
    \<and> (\<forall>m \<in> set ms. \<exists>t \<in> set ts. \<exists>posted ticker. m = mention_of tr t posted ticker
         \<and> ticker \<in> set (extract_tickers (tr_word_point tr) (tw_text t) wl))"
  using assms
proof (induction ts)
  case (Cons t ts)
  obtain r where "validate_tweet tr r = Ok t" using Cons.prems by auto
  then obtain posted where "tweet_to_mentions tr t wl
      = Returns (map (mention_of tr t posted) (extract_tickers (tr_word_point tr) (tw_text t) wl))"
    using tweet_to_mentions_valid by blast
  moreover obtain ms where "all_mentions tr wl ts = Returns ms"
    "\<forall>m \<in> set ms. \<exists>t \<in> set ts. \<exists>posted ticker. m = mention_of tr t posted ticker
         \<and> ticker \<in> set (extract_tickers (tr_word_point tr) (tw_text t) wl)"
    using Cons by auto
  ultimately show ?case by fastforce
qed simp

lemma utf8_chars_take: "utf8_chars (concat (take n (utf8_chars s))) = take n (utf8_chars s)"
proof (induction s arbitrary: n rule: utf8_chars.induct)
  case (2 c cs)
  show ?case
  proof (cases n)
    case (Suc m)
    let ?k = "lead_length c - 1"
    show ?thesis
    proof (cases "length cs \<le> ?k")
      case True
      then show ?thesis using Suc by simp
    next
      case False
      then have "length (take ?k cs) = ?k" by simp
      then show ?thesis using Suc 2 by simp
    qed
  qed simp
qed simp

lemma text_length_take: "text_length (take_text n s) \<le> n"
  by (simp add: take_text_def utf8_chars_take flip: length_utf8_chars)

text \<open>
  An archive is taken whole or not at all: when it loads, every record was valid, and every mention
  names its tweet and a whitelisted ticker and quotes at most 280 characters.
\<close>

theorem serenity_all_or_nothing:
  assumes "serenity_load tr dir = Returns (Ok ms)"
  obtains rs wl where "read_tweets dir = Returns (Ok rs)" "read_whitelist dir = Ok wl"
    "\<And>r. r \<in> set rs \<Longrightarrow> \<exists>t. validate_tweet tr r = Ok t"
    "\<And>m. m \<in> set ms \<Longrightarrow> m_source_id m = source_id \<and> m_ticker m \<in> set wl \<and> is_numeric_id (m_external_id m)
      \<and> m_id m = source_id @ '':'' @ m_external_id m @ '':'' @ m_ticker m \<and> text_length (m_text_excerpt m) \<le> 280"
proof -
  obtain rs wl ts where l: "read_tweets dir = Returns (Ok rs)" "read_whitelist dir = Ok wl" "validate_all tr rs = Ok ts"
    "all_mentions tr wl ts = Returns ms"
    using assms by (auto simp: serenity_load_def split: py_call.splits result.splits)
  note v = validate_all_Ok [OF l(3)]
  have "\<exists>r \<in> set rs. validate_tweet tr r = Ok t" if "t \<in> set ts" for t
    using v that by (metis imageE imageI list.set_map)
  then have t: "is_numeric_id (tw_id t)" "\<exists>r. validate_tweet tr r = Ok t" if "t \<in> set ts" for t
    using that validate_tweet_Ok by blast+
  obtain ms' where "all_mentions tr wl ts = Returns ms'"
    "\<forall>m \<in> set ms'. \<exists>t \<in> set ts. \<exists>posted ticker. m = mention_of tr t posted ticker
       \<and> ticker \<in> set (extract_tickers (tr_word_point tr) (tw_text t) wl)"
    using all_mentions_valid [OF t(2)] by blast
  then have m: "\<exists>t \<in> set ts. \<exists>posted ticker. m = mention_of tr t posted ticker \<and> ticker \<in> set wl" if "m \<in> set ms" for m
    using l(4) that by (simp add: set_extract) blast
  show thesis
  proof (rule that [OF l(1,2)])
    show "\<exists>t. validate_tweet tr r = Ok t" if "r \<in> set rs" for r
      using v that by (metis imageE imageI list.set_map)
    show "m_source_id m = source_id \<and> m_ticker m \<in> set wl \<and> is_numeric_id (m_external_id m)
      \<and> m_id m = source_id @ '':'' @ m_external_id m @ '':'' @ m_ticker m \<and> text_length (m_text_excerpt m) \<le> 280"
      if "m \<in> set ms" for m
      using m [OF that] t(1) text_length_take [of 280] by (auto simp: mention_of_def max_excerpt_chars_def)
  qed
qed

text \<open>An identifier that ends in a newline passes as numeric.\<close>

lemma newline_id_accepted: "is_numeric_id (''12'' @ [CHR 0x0A])"
  by (simp add: is_numeric_id_def Let_def is_digit_def)

end
