(* ===== verification/Migrations.thy ===== *)
theory Migrations
  imports Ledger_Db
begin

text \<open>
  ledger/db.py: opening the ledger and applying the shipped migrations. A script is the list of its
  statements; \<open>executescript\<close> ends the open transaction and runs them one by one, each taking effect
  at once. \<open>exec\<close> is SQLite's effect of a statement on the tables, a parameter; any other statement
  may fail as \<open>ms_faults\<close> says.
\<close>

record 'd migration_store =
  ms_versions :: "string list option"
  ms_tables :: 'd
  ms_faults :: "nat \<Rightarrow> string option"
  ms_stmts :: nat

definition tick :: "'d migration_store \<Rightarrow> (unit, string) result \<times> 'd migration_store" where
  "tick st = (case ms_faults st (ms_stmts st) of
     Some msg \<Rightarrow> (Err msg, st\<lparr>ms_stmts := Suc (ms_stmts st)\<rparr>)
   | None \<Rightarrow> (Ok (), st\<lparr>ms_stmts := Suc (ms_stmts st)\<rparr>))"

definition create_versions :: "'d migration_store \<Rightarrow> (unit, string) result \<times> 'd migration_store" where
  "create_versions st = (case tick st of
     (Err e, st1) \<Rightarrow> (Err e, st1)
   | (Ok _, st1) \<Rightarrow> (Ok (), st1\<lparr>ms_versions := Some (case ms_versions st1 of None \<Rightarrow> [] | Some vs \<Rightarrow> vs)\<rparr>))"

fun execute_script :: "('s \<Rightarrow> 'd \<Rightarrow> ('d, string) result) \<Rightarrow> 's list \<Rightarrow> 'd migration_store
    \<Rightarrow> (unit, string) result \<times> 'd migration_store" where
  "execute_script exec [] st = (Ok (), st)"
| "execute_script exec (s # ss) st = (case exec s (ms_tables st) of
     Err e \<Rightarrow> (Err e, st)
   | Ok d \<Rightarrow> execute_script exec ss (st\<lparr>ms_tables := d\<rparr>))"

definition applied_versions :: "'d migration_store \<Rightarrow> string list" where
  "applied_versions st = (case ms_versions st of None \<Rightarrow> [] | Some vs \<Rightarrow> vs)"

definition apply_one :: "('s \<Rightarrow> 'd \<Rightarrow> ('d, string) result) \<Rightarrow> string \<Rightarrow> 's list \<Rightarrow> 'd migration_store
    \<Rightarrow> (unit, string) result \<times> 'd migration_store" where
  "apply_one exec version script st = (case execute_script exec script st of
     (Err e, st1) \<Rightarrow> (Err e, st1)
   | (Ok _, st1) \<Rightarrow> (case tick st1 of
       (Err e, st2) \<Rightarrow> (Err e, st2)
     | (Ok _, st2) \<Rightarrow> (Ok (), st2\<lparr>ms_versions := Some (applied_versions st2 @ [version])\<rparr>)))"

fun apply_files :: "('s \<Rightarrow> 'd \<Rightarrow> ('d, string) result) \<Rightarrow> string list \<Rightarrow> (string \<times> 's list) list \<Rightarrow> 'd migration_store
    \<Rightarrow> (unit, string) result \<times> 'd migration_store" where
  "apply_files exec applied [] st = (Ok (), st)"
| "apply_files exec applied ((version, script) # fs) st =
    (if version \<in> set applied then apply_files exec applied fs st
     else (case apply_one exec version script st of
       (Err e, st1) \<Rightarrow> (Err e, st1)
     | (Ok _, st1) \<Rightarrow> apply_files exec applied fs st1))"

definition apply_migrations :: "('s \<Rightarrow> 'd \<Rightarrow> ('d, string) result) \<Rightarrow> (string \<times> 's list) list \<Rightarrow> 'd migration_store
    \<Rightarrow> (unit, LedgerError) result \<times> 'd migration_store" where
  "apply_migrations exec files st = (case create_versions st of
     (Err e, st1) \<Rightarrow> (Err (''migration failed: '' @ e), st1)
   | (Ok _, st1) \<Rightarrow> (case apply_files exec (applied_versions st1) (sort_key fst files) st1 of
       (Err e, st2) \<Rightarrow> (Err (''migration failed: '' @ e), st2)
     | (Ok _, st2) \<Rightarrow> (Ok (), st2)))"

section \<open>Opening\<close>

text \<open>
  How connecting ends: the directory cannot be made, or SQLite refuses the file or a pragma. Only the
  first is caught.
\<close>

datatype connecting = Connected | Os_error string | Sqlite_error string

text \<open>What opening a database file meets: the connection, the migrations and the failing statements.\<close>

record db_file =
  df_connecting :: connecting
  df_migrations :: "(unit, LedgerError) result"
  df_faults :: "nat \<Rightarrow> string option"

definition open_db :: "db_file \<Rightarrow> db \<Rightarrow> (conn, LedgerError) result py_call" where
  "open_db f d = (case df_connecting f of
     Os_error e \<Rightarrow> Returns (Err (''could not open database: '' @ e))
   | Sqlite_error e \<Rightarrow> Raises ''OperationalError''
   | Connected \<Rightarrow> (case df_migrations f of
       Err e \<Rightarrow> Returns (Err e)
     | Ok _ \<Rightarrow> Returns (Ok (open_conn d (df_faults f)))))"

section \<open>Migrations\<close>

lemma tick_tables: "tick st = (r, st') \<Longrightarrow> ms_tables st' = ms_tables st \<and> ms_versions st' = ms_versions st"
  by (auto simp: tick_def split: option.splits)

lemma execute_script_versions: "execute_script exec ss st = (r, st') \<Longrightarrow> ms_versions st' = ms_versions st"
  by (induction ss arbitrary: st) (auto split: result.splits)

lemma apply_one_Ok:
  "apply_one exec v ss st = (Ok u, st') \<Longrightarrow> applied_versions st' = applied_versions st @ [v]"
  by (auto simp: apply_one_def applied_versions_def split: prod.splits result.splits
      dest!: execute_script_versions tick_tables)

lemma apply_files_Ok:
  "apply_files exec applied fs st = (Ok u, st') \<Longrightarrow>
    applied_versions st' = applied_versions st @ map fst (filter (\<lambda>f. fst f \<notin> set applied) fs)"
  by (induction exec applied fs st rule: apply_files.induct)
    (auto split: prod.splits result.splits if_splits dest: apply_one_Ok)

lemma apply_files_applied:
  "fst ` set fs \<subseteq> set applied \<Longrightarrow> apply_files exec applied fs st = (Ok (), st)"
  by (induction fs) auto

lemma create_versions_Ok:
  "create_versions st = (Ok u, st') \<Longrightarrow> applied_versions st' = applied_versions st \<and> ms_tables st' = ms_tables st
    \<and> ms_versions st' = Some (applied_versions st)"
  by (auto simp: create_versions_def applied_versions_def split: prod.splits result.splits dest!: tick_tables)

lemma apply_files_versions:
  "apply_files exec applied fs st = (Ok u, st') \<Longrightarrow> ms_versions st \<noteq> None \<Longrightarrow> ms_versions st' = Some (applied_versions st')"
proof (induction exec applied fs st rule: apply_files.induct)
  case (2 exec applied v script fs st)
  have "ms_versions st1 \<noteq> None" if "apply_one exec v script st = (Ok (), st1)" for st1
    using that by (auto simp: apply_one_def split: prod.splits result.splits)
  then show ?case using 2 by (auto split: prod.splits result.splits if_splits)
qed (auto simp: applied_versions_def)

text \<open>
  Once the migrations have been applied, applying them again changes neither the tables nor the
  record of what was applied.
\<close>

theorem migrations_idempotent:
  assumes "apply_migrations exec files st = (Ok u, st1)" and "apply_migrations exec files st1 = (r, st2)"
  shows "ms_tables st2 = ms_tables st1 \<and> ms_versions st2 = ms_versions st1"
proof -
  obtain a where a: "create_versions st = (Ok (), a)"
    "apply_files exec (applied_versions a) (sort_key fst files) a = (Ok (), st1)"
    using assms(1) by (auto simp: apply_migrations_def split: prod.splits result.splits)
  have v: "fst ` set (sort_key fst files) \<subseteq> set (applied_versions st1)" using apply_files_Ok [OF a(2)] by auto
  have s: "ms_versions st1 = Some (applied_versions st1)"
    using create_versions_Ok [OF a(1)] by (intro apply_files_versions [OF a(2)]) simp
  obtain q b where b: "create_versions st1 = (q, b)" by fastforce
  show ?thesis
  proof (cases q)
    case (Err e)
    then have "st2 = b" using assms(2) b by (simp add: apply_migrations_def)
    then show ?thesis using b Err by (auto simp: create_versions_def split: prod.splits result.splits dest: tick_tables)
  next
    case (Ok w)
    have f: "ms_versions b = ms_versions st1" "ms_tables b = ms_tables st1" "applied_versions b = applied_versions st1"
      using create_versions_Ok [of st1 w b] b Ok s by auto
    then have "apply_files exec (applied_versions b) (sort_key fst files) b = (Ok (), b)"
      using v by (intro apply_files_applied) simp
    then have "st2 = b" using assms(2) b Ok by (simp add: apply_migrations_def)
    then show ?thesis using f by simp
  qed
qed

text \<open>
  A script that fails halfway has taken effect up to there and is not recorded as applied, so the next
  opening runs it again from its first statement.
\<close>

theorem failed_migration_keeps_statements:
  assumes "exec s1 (ms_tables st) = Ok d1" and "exec s2 d1 = Err e" and "v \<notin> set (applied_versions st)"
    and "ms_faults st = (\<lambda>n. None)" and "apply_migrations exec [(v, [s1, s2])] st = (r, st')"
  shows "r = Err (''migration failed: '' @ e) \<and> ms_tables st' = d1 \<and> v \<notin> set (applied_versions st')"
  using assms by (auto simp: apply_migrations_def create_versions_def tick_def apply_one_def applied_versions_def
      split: option.splits)

text \<open>An unreadable database escapes as an exception.\<close>

lemma open_db_raises: "open_db f d = Raises e \<longleftrightarrow> e = ''OperationalError'' \<and> (\<exists>m. df_connecting f = Sqlite_error m)"
  by (auto simp: open_db_def split: connecting.splits result.splits)

lemma open_db_Ok: "open_db f d = Returns (Ok c) \<Longrightarrow> c = open_conn d (df_faults f)"
  by (auto simp: open_db_def split: connecting.splits result.splits)

end
