(* ===== verification/Ingest.thy ===== *)
theory Ingest
  imports Serenity Source_Repository Migrations
begin

text \<open>
  cli.py: \<open>run_ingest\<close> and the \<open>ingest\<close> command. A data directory is fingerprinted, loaded by the
  adapter registered for it and recorded in one transaction; data already recorded changes nothing.
  What a command prints is a list of lines with their stream; its value is the exit code.
\<close>

datatype echo = Echo string | Echo_err string

type_synonym cli_result = "int \<times> echo list"

text \<open>\<open>typer.echo\<close> of an error followed by \<open>typer.Exit(code=1)\<close>.\<close>

definition cli_fail :: "string \<Rightarrow> string \<Rightarrow> cli_result" where
  "cli_fail command message = (1, [Echo_err (''trader '' @ command @ '': '' @ message)])"

definition cli_ok :: "string \<Rightarrow> string \<Rightarrow> cli_result" where
  "cli_ok command message = (0, [Echo (''trader '' @ command @ '': '' @ message)])"

definition default_sources_dir :: string where
  "default_sources_dir = ''data/sources''"

text \<open>The bytes that are hashed; an unreadable file raises.\<close>

fun hashed_entries :: "(string \<times> dir_entry) list \<Rightarrow> string py_call" where
  "hashed_entries [] = Returns ''''"
| "hashed_entries ((name, e) # es) = (case e of
     Other_entry \<Rightarrow> hashed_entries es
   | Unreadable \<Rightarrow> Raises ''PermissionError''
   | Regular s \<Rightarrow> (case hashed_entries es of Raises x \<Rightarrow> Raises x | Returns r \<Rightarrow> Returns (name @ s @ r)))"

definition compute_data_dir_sha256 :: "(string \<Rightarrow> string) \<Rightarrow> data_dir \<Rightarrow> string py_call" where
  "compute_data_dir_sha256 sha256_hex dir = (case map_of (dd_entries dir) ''tweets.json'' of
     Some (Regular s) \<Rightarrow> Returns (sha256_hex s)
   | Some Unreadable \<Rightarrow> Raises ''PermissionError''
   | _ \<Rightarrow> (case (if dd_is_dir dir then hashed_entries (sort_key fst (dd_entries dir)) else Returns '''') of
       Raises e \<Rightarrow> Raises e | Returns s \<Rightarrow> Returns (sha256_hex s)))"

text \<open>The Japanese messages: "no change" and "n records taken in (m of them new)".\<close>

definition msg_unchanged :: string where
  "msg_unchanged = utf8 [229, 164, 137, 230, 155, 180, 227, 129, 170, 227, 129, 151]"

definition msg_ingested :: "nat \<Rightarrow> nat \<Rightarrow> string" where
  "msg_ingested total_count inserted = show_nat total_count @ utf8 [32, 228, 187, 182, 229, 143, 150, 227, 130, 138,
    232, 190, 188, 227, 129, 191, 40, 230, 150, 176, 232, 166, 143, 32] @ show_nat inserted
     @ utf8 [32, 228, 187, 182, 41]"

text \<open>The block of the transaction.\<close>

definition record_ingest :: "string \<Rightarrow> datetime \<Rightarrow> string \<Rightarrow> Mention list \<Rightarrow> conn \<Rightarrow> (nat, string) result \<times> conn" where
  "record_ingest sid now file_sha256 ms c = (case upsert_source c sid sid now file_sha256 (int (length ms)) of
     (Err e, c1) \<Rightarrow> (Err e, c1)
   | (Ok _, c1) \<Rightarrow> insert_mentions_many c1 ms)"

definition ingest_loaded :: "string \<Rightarrow> datetime \<Rightarrow> string \<Rightarrow> Mention list \<Rightarrow> conn \<Rightarrow> (string, string) result \<times> conn" where
  "ingest_loaded sid now file_sha256 ms c =
    (if (case get_source c sid of Some existing \<Rightarrow> src_file_sha256 existing = file_sha256 | None \<Rightarrow> False)
     then (Ok msg_unchanged, c)
     else (case transaction (record_ingest sid now file_sha256 ms) c of
       (Err e, c1) \<Rightarrow> (Err e, c1)
     | (Ok inserted, c1) \<Rightarrow> (Ok (msg_ingested (length ms) inserted), c1)))"

definition load_error_text :: "IngestError \<Rightarrow> string" where
  "load_error_text e = (if ie_first_errors e \<noteq> [] then ie_message e @ '': '' @ join ''; '' (ie_first_errors e) else ie_message e)"

text \<open>The connection is closed at the end, so only what was committed stays.\<close>

definition run_ingest :: "(string \<Rightarrow> string) \<Rightarrow> AdapterRegistry \<Rightarrow> string \<Rightarrow> data_dir \<Rightarrow> db_file \<Rightarrow> datetime \<Rightarrow> db
    \<Rightarrow> (string, string) result py_call \<times> db" where
  "run_ingest sha256_hex reg sid dir file now d = (case registry_get reg sid of
     Err e \<Rightarrow> (Returns (Err (ie_message e)), d)
   | Ok adapter \<Rightarrow> (case sa_load adapter dir of
       Raises x \<Rightarrow> (Raises x, d)
     | Returns (Err e) \<Rightarrow> (Returns (Err (load_error_text e)), d)
     | Returns (Ok ms) \<Rightarrow> (case compute_data_dir_sha256 sha256_hex dir of
         Raises x \<Rightarrow> (Raises x, d)
       | Returns file_sha256 \<Rightarrow> (case open_db file d of
           Raises x \<Rightarrow> (Raises x, d)
         | Returns (Err e) \<Rightarrow> (Returns (Err e), d)
         | Returns (Ok c) \<Rightarrow> (case ingest_loaded sid now file_sha256 ms c of
             (r, c1) \<Rightarrow> (Returns r, committed c1))))))"

text \<open>The command, with what its options resolve to.\<close>

definition ingest_command :: "(string \<Rightarrow> string) \<Rightarrow> AdapterRegistry \<Rightarrow> string \<Rightarrow> data_dir \<Rightarrow> db_file \<Rightarrow> datetime \<Rightarrow> db
    \<Rightarrow> cli_result py_call \<times> db" where
  "ingest_command sha256_hex reg sid dir file now d = (case run_ingest sha256_hex reg sid dir file now d of
     (Raises x, d') \<Rightarrow> (Raises x, d')
   | (Returns (Err e), d') \<Rightarrow> (Returns (cli_fail ''ingest'' e), d')
   | (Returns (Ok m), d') \<Rightarrow> (Returns (cli_ok ''ingest'' m), d'))"

text \<open>\<open>Path(data_dir) if data_dir else Path("data/sources") / source\<close>.\<close>

definition ingest_data_dir :: "string option \<Rightarrow> string \<Rightarrow> string" where
  "ingest_data_dir option sid = (case option of
     Some p \<Rightarrow> if p = '''' then default_sources_dir @ ''/'' @ sid else p
   | None \<Rightarrow> default_sources_dir @ ''/'' @ sid)"

section \<open>What an ingest does\<close>

lemma same_store_insert_mentions_many [frame]: "insert_mentions_many c ms = (r, c') \<Longrightarrow> same_store c c'"
  by (auto simp: insert_mentions_many_def split: prod.splits result.splits dest: same_store_insert_mentions_loop)

lemma same_store_upsert_source [frame]: "upsert_source c a b t h n = (r, c') \<Longrightarrow> same_store c c'"
  by (auto simp: upsert_source_def wrap_stmt_def split: prod.splits result.splits dest: same_store_run_stmt)

lemma same_store_record_ingest: "record_ingest sid now h ms c = (r, c') \<Longrightarrow> same_store c c'"
  by (auto simp: record_ingest_def split: prod.splits result.splits
      dest: same_store_upsert_source same_store_insert_mentions_many intro: same_store_trans)

lemma record_ingest_Ok:
  assumes "record_ingest sid now h ms c = (Ok n, c')"
  shows "find_row src_source_id sid (sources (working c')) = Some \<lparr>src_source_id = sid, src_name = sid,
      src_imported_at = now, src_file_sha256 = h, src_record_count = int (length ms)\<rparr>
    \<and> (\<exists>new. mentions (working c') = mentions (working c) @ new \<and> n = length new \<and> set new \<subseteq> set ms)"
proof -
  obtain u c1 where u: "upsert_source c sid sid now h (int (length ms)) = (Ok u, c1)"
    and m: "insert_mentions_many c1 ms = (Ok n, c')"
    using assms by (auto simp: record_ingest_def split: prod.splits result.splits)
  have "insert_mentions_loop 0 ms c1 = (Ok n, c')"
    using m by (auto simp: insert_mentions_many_def split: prod.splits result.splits)
  from insert_mentions_loop_grows [OF this] u show ?thesis
    by (auto simp: upsert_source_def wrap_stmt_def run_stmt_Ok put_source_def find_row_put
        split: prod.splits result.splits)
qed

text \<open>What the database holds after the connection is closed.\<close>

lemma ingest_loaded_cases:
  assumes "ingest_loaded sid now h ms (open_conn d fs) = (r, c1)"
  shows "(\<forall>m. r \<noteq> Ok m) \<longrightarrow> committed c1 = d"
    and "r = Ok m \<Longrightarrow> (\<exists>x. find_row src_source_id sid (sources (committed c1)) = Some x \<and> src_file_sha256 x = h)
      \<and> (\<exists>new. mentions (committed c1) = mentions d @ new \<and> set new \<subseteq> set ms)"
proof -
  let ?c = "open_conn d fs"
  have o: "committed ?c = d" "working ?c = d" by (simp_all add: open_conn_def)
  consider (same) x where "find_row src_source_id sid (sources d) = Some x" "src_file_sha256 x = h" "r = Ok msg_unchanged" "c1 = ?c"
    | (failed) e where "transaction (record_ingest sid now h ms) ?c = (Err e, c1)" "r = Err e"
    | (recorded) n where "transaction (record_ingest sid now h ms) ?c = (Ok n, c1)" "r = Ok (msg_ingested (length ms) n)"
    using assms by (auto simp: ingest_loaded_def get_source_def o split: if_splits option.splits prod.splits result.splits)
  note cs = this
  from cs show "(\<forall>m. r \<noteq> Ok m) \<longrightarrow> committed c1 = d"
  proof cases
    case failed
    then show ?thesis using transaction_Err [OF failed(1) same_store_record_ingest] o by simp
  qed simp_all
  assume "r = Ok m"
  with cs show "(\<exists>x. find_row src_source_id sid (sources (committed c1)) = Some x \<and> src_file_sha256 x = h)
      \<and> (\<exists>new. mentions (committed c1) = mentions d @ new \<and> set new \<subseteq> set ms)"
  proof cases
    case recorded
    obtain c2 where "record_ingest sid now h ms ?c = (Ok n, c2)" "committed c1 = working c2"
      using transaction_Ok [OF recorded(1)] by auto
    then show ?thesis using record_ingest_Ok [of sid now h ms ?c n c2] o by auto
  qed (use o in auto)
qed

lemma run_ingest_cases:
  assumes "run_ingest sha reg sid dir file now d = (r, d')"
  obtains (stopped) "\<forall>m. r \<noteq> Returns (Ok m)" "d' = d"
    | (loaded) adapter ms h q c1 where "registry_get reg sid = Ok adapter" "sa_load adapter dir = Returns (Ok ms)"
      "compute_data_dir_sha256 sha dir = Returns h"
      "ingest_loaded sid now h ms (open_conn d (df_faults file)) = (q, c1)" "r = Returns q" "d' = committed c1"
  using assms
  by (auto simp: run_ingest_def split: result.splits py_call.splits prod.splits dest: open_db_Ok)

lemma ingest_again:
  assumes "registry_get reg sid = Ok adapter" "sa_load adapter dir = Returns (Ok ms)"
    "compute_data_dir_sha256 sha dir = Returns h"
    and "find_row src_source_id sid (sources d) = Some x" "src_file_sha256 x = h"
    and "run_ingest sha reg sid dir file now d = (r, d')"
  shows "d' = d \<and> (df_connecting file = Connected \<and> df_migrations file = Ok () \<longrightarrow> r = Returns (Ok msg_unchanged))"
proof -
  have "ingest_loaded sid now h ms (open_conn d fs) = (Ok msg_unchanged, open_conn d fs)" for fs
    using assms(4,5) by (simp add: ingest_loaded_def get_source_def open_conn_def)
  then show ?thesis
    using assms(1-3,6)
    by (auto simp: run_ingest_def open_db_def open_conn_def split: connecting.splits result.splits)
qed

text \<open>
  C31: an ingest that does not succeed leaves the database as it was; one that does only adds mentions,
  and doing it again with the same data, whenever and however often, changes nothing and says so.
\<close>

theorem ingest_all_or_nothing:
  assumes "run_ingest sha reg sid dir file now d = (r, d')"
  shows "if \<exists>m. r = Returns (Ok m)
    then (\<exists>new. mentions d' = mentions d @ new)
      \<and> (\<forall>file' now' r' d''. run_ingest sha reg sid dir file' now' d' = (r', d'') \<longrightarrow> d'' = d'
           \<and> (df_connecting file' = Connected \<and> df_migrations file' = Ok () \<longrightarrow> r' = Returns (Ok msg_unchanged)))
    else d' = d"
  using assms
proof (cases rule: run_ingest_cases)
  case (loaded adapter ms h q c1)
  show ?thesis
  proof (cases q)
    case (Ok m)
    from ingest_loaded_cases(2) [OF loaded(4) Ok] loaded(6)
    obtain x where x: "find_row src_source_id sid (sources d') = Some x" "src_file_sha256 x = h"
      and new: "\<exists>new. mentions d' = mentions d @ new" by auto
    from ingest_again [OF loaded(1-3) x] new loaded(5) Ok show ?thesis by simp
  next
    case (Err e)
    then show ?thesis using ingest_loaded_cases(1) [OF loaded(4)] loaded(5,6) by simp
  qed
qed simp

section \<open>A concrete ingest\<close>

definition archived_mention :: Mention where
  "archived_mention = \<lparr>m_id = ''serenity:1:AXTI'', m_source_id = ''serenity'', m_external_id = ''1'', m_ticker = ''AXTI'',
     m_posted_at = 0, m_text_excerpt = ''buy $AXTI'', m_url = None, m_raw_sha256 = ''ab''\<rparr>"

definition archive_registry :: AdapterRegistry where
  "archive_registry = register \<lparr>sa_source_id = ''serenity'', sa_load = (\<lambda>dir. Returns (Ok [archived_mention]))\<rparr> []"

definition archive_dir :: data_dir where
  "archive_dir = \<lparr>dd_is_dir = True, dd_entries = [(''tweets.json'', Regular ''[]'')]\<rparr>"

definition plain_file :: db_file where
  "plain_file = \<lparr>df_connecting = Connected, df_migrations = Ok (), df_faults = (\<lambda>n. None)\<rparr>"

lemma sample_ingest:
  "\<exists>m d'. run_ingest id archive_registry ''serenity'' archive_dir plain_file 5 empty_db = (Returns (Ok m), d')
    \<and> mentions d' = [archived_mention]"
  by (simp add: run_ingest_def archive_registry_def register_def registry_get_def compute_data_dir_sha256_def
      archive_dir_def open_db_def plain_file_def ingest_loaded_def get_source_def find_row_def open_conn_def empty_db_def
      transaction_def record_ingest_def upsert_source_def wrap_stmt_def run_stmt_def put_source_def put_row_def has_key_def
      insert_mentions_many_def insert_mention_stmt_def archived_mention_def commit_def Let_def)

theorem ingest_all_or_nothing_witness:
  "\<exists>m d'. run_ingest id archive_registry ''serenity'' archive_dir plain_file 5 empty_db = (Returns (Ok m), d')
    \<and> (\<exists>new. mentions d' = mentions empty_db @ new)"
proof -
  obtain m d' where r: "run_ingest id archive_registry ''serenity'' archive_dir plain_file 5 empty_db = (Returns (Ok m), d')"
    using sample_ingest by blast
  from ingest_all_or_nothing [OF r] r show ?thesis by auto
qed

end
