(* ===== verification/Cli.thy ===== *)
theory Cli
  imports Cycle Alpaca_Data Report Ingest Mode_Config
begin

text \<open>
  cli.py: the commands. A command is given what it finds in its environment (variables, files, the
  SDK's factories, how opening the database goes) and the committed database; it returns its exit code
  and output and the database as committed when it closes its connection. Typer's parsing of the
  arguments is not modelled.
\<close>

section \<open>approve\<close>

definition approve_command :: "('x \<Rightarrow> string \<times> 'x) \<Rightarrow> 'x Clock \<Rightarrow> (string \<Rightarrow> py_datetime option) \<Rightarrow> string
    \<Rightarrow> string option \<Rightarrow> db_file \<Rightarrow> db \<Rightarrow> 'x \<Rightarrow> cli_result py_call \<times> db \<times> 'x" where
  "approve_command uuid4 clock parse_iso decision_id expires_at file d x = (case expires_at of
     None \<Rightarrow> (Returns (cli_fail ''approve'' (''--expires-at is required (see '' @ quoted ''trader approve --help'' @ '')'')), d, x)
   | Some s \<Rightarrow> (case parse_iso s of
       None \<Rightarrow> (Returns (cli_fail ''approve'' (''--expires-at is not a valid ISO 8601 timestamp: '' @ s)), d, x)
     | Some parsed \<Rightarrow>
       let expires = instant (to_utc parsed) in
       (case open_db file d of
          Raises e \<Rightarrow> (Raises e, d, x)
        | Returns (Err e) \<Rightarrow> (Returns (cli_fail ''approve'' e), d, x)
        | Returns (Ok c) \<Rightarrow>
          (case record_human_approval uuid4 clock c decision_id
              \<lparr>mc_is_open = False, mc_next_open = expires, mc_next_close = expires\<rparr> x of
             (Err e, c1, x1) \<Rightarrow> (Returns (cli_fail ''approve'' e), committed c1, x1)
           | (Ok _, c1, x1) \<Rightarrow> (Returns (cli_ok ''approve'' (''approved decision '' @ decision_id
               @ '' (expires '' @ isoformat expires @ '')'')), committed c1, x1)))))"

section \<open>resume and status\<close>

definition resume_command :: "db_file \<Rightarrow> db \<Rightarrow> cli_result py_call \<times> db" where
  "resume_command file d = (case open_db file d of
     Raises e \<Rightarrow> (Raises e, d)
   | Returns (Err e) \<Rightarrow> (Returns (cli_fail ''resume'' e), d)
   | Returns (Ok c) \<Rightarrow>
     if \<not> is_halted c then (Returns (cli_ok ''resume'' ''engine is not halted''), d)
     else (case resume c of
       (Err e, c1) \<Rightarrow> (Returns (cli_fail ''resume'' e), committed c1)
     | (Ok _, c1) \<Rightarrow> (Returns (cli_ok ''resume'' ''resumed''), committed c1)))"

text \<open>\<open>ORDER BY started_at DESC LIMIT 1\<close>; of several that started together, the first.\<close>

definition last_cycle :: "conn \<Rightarrow> cycle_row option" where
  "last_cycle c = foldl (\<lambda>best r. case best of None \<Rightarrow> Some r
     | Some b \<Rightarrow> if cyc_started_at b < cyc_started_at r then Some r else Some b) None (cycles (working c))"

definition or_dash :: "string option \<Rightarrow> string" where
  "or_dash s = (case s of None \<Rightarrow> ''-'' | Some t \<Rightarrow> if t = '''' then ''-'' else t)"

definition status_lines :: "conn \<Rightarrow> echo list py_call" where
  "status_lines c = (case halt_info c of
     Raises e \<Rightarrow> Raises e
   | Returns info \<Rightarrow> Returns (
       (case info of None \<Rightarrow> [Echo ''engine: running'']
        | Some h \<Rightarrow> [Echo (''engine: HALTED ('' @ hi_reason h @ '') at '' @ isoformat (hi_halted_at h))])
       @ (case list_positions c of
            [] \<Rightarrow> [Echo ''positions: none'']
          | ps \<Rightarrow> Echo ''positions:'' # map (\<lambda>p. Echo (''  '' @ p_ticker p @ '': '' @ show_int (shares (p_qty p))
              @ '' shares @ avg '' @ dstr (price_amount (p_avg_cost p)))) ps)
       @ (case last_cycle c of
            None \<Rightarrow> [Echo ''last cycle: none'']
          | Some r \<Rightarrow> [Echo (''last cycle: '' @ cyc_id r @ '' ('' @ cyc_mode r @ '') started ''
              @ isoformat (cyc_started_at r) @ '' finished '' @ or_dash (map_option isoformat (cyc_finished_at r))
              @ '' outcome '' @ or_dash (cyc_outcome r))])))"

definition status_command :: "bool \<Rightarrow> db_file \<Rightarrow> db \<Rightarrow> cli_result py_call" where
  "status_command db_exists file d =
    (if \<not> db_exists then Returns (cli_fail ''status'' (''no database found (run '' @ quoted ''trader ingest'' @ '' first)''))
     else (case open_db file d of
       Raises e \<Rightarrow> Raises e
     | Returns (Err e) \<Rightarrow> Returns (cli_fail ''status'' e)
     | Returns (Ok c) \<Rightarrow> (case status_lines c of
         Raises e \<Rightarrow> Raises e | Returns ls \<Rightarrow> Returns (0, ls))))"

section \<open>rules approve\<close>

text \<open>What reading YAML and its types is given to \<open>load_rules\<close>, and the rules file with its lock.\<close>

record 'y yaml_reading =
  yr_safe_load :: "string \<Rightarrow> 'y option"
  yr_as_dict :: "'y \<Rightarrow> bool"
  yr_coerce :: "'y \<Rightarrow> (RuleSet, string) result"
  yr_bounds_message :: "RuleSet \<Rightarrow> string"

record rules_files =
  rf_rules :: "string option"
  rf_reread :: "string option"
  rf_lock :: "string option option"
  rf_writable :: bool

definition rules_of :: "'y yaml_reading \<Rightarrow> rules_files \<Rightarrow> (RuleSet, RulesError) result" where
  "rules_of yr files = load_rules (rf_rules files) (yr_safe_load yr) (yr_as_dict yr) (yr_coerce yr) (yr_bounds_message yr)"

text \<open>The rule set is recorded with its lock already written.\<close>

definition record_rule_set :: "string \<Rightarrow> RuleSet \<Rightarrow> string option \<Rightarrow> conn \<Rightarrow> cli_result py_call \<times> db" where
  "record_rule_set sha256 rules content_yaml c =
    (if get_rule_set c sha256 \<noteq> None
     then (Returns (cli_ok ''rules approve'' ''this rule set is already approved''), committed c)
     else (case content_yaml of
       None \<Rightarrow> (Returns (cli_fail ''rules approve'' ''could not read rules file''), committed c)
     | Some yaml \<Rightarrow> (case insert_rule_set c sha256 (rs_approved_by rules) (rs_approved_at rules)
            (mk_Money (rs_capital_usd rules)) yaml of
         (r, c1) \<Rightarrow> (case commit c1 of
           (Err e, c2) \<Rightarrow> (Raises ''OperationalError'', committed c2)
         | (Ok _, c2) \<Rightarrow> (case r of
             Err e \<Rightarrow> (Returns (cli_fail ''rules approve'' e), committed c2)
           | Ok _ \<Rightarrow> (Returns (cli_ok ''rules approve'' (''approved rule set '' @ take 12 sha256)), committed c2))))))"

definition rules_approve_command :: "'y yaml_reading \<Rightarrow> (string \<Rightarrow> string) \<Rightarrow> rules_files \<Rightarrow> db_file \<Rightarrow> db
    \<Rightarrow> cli_result py_call \<times> db \<times> string option option" where
  "rules_approve_command yr sha256_hex files file d =
    (let stop = (\<lambda>e. (Returns (cli_fail ''rules approve'' e), d, rf_lock files)) in
     case rules_of yr files of
       Err e \<Rightarrow> stop e
     | Ok rules \<Rightarrow>
       if strip_text (rs_approved_by rules) = '''' \<or> strip_text (rs_approved_at rules) = '''' then
         stop (''rules file needs '' @ quoted ''approved_by'' @ '' and '' @ quoted ''approved_at'' @ '' filled in before approving'')
       else (case sha256_of_file sha256_hex (rf_rules files) of
         Err e \<Rightarrow> stop e
       | Ok sha256 \<Rightarrow>
         (case write_lock (rf_writable files) (rf_lock files) \<lparr>lk_sha256 = sha256,
              lk_approved_by = rs_approved_by rules, lk_approved_at = rs_approved_at rules\<rparr> of
            (Err e, lock) \<Rightarrow> (Returns (cli_fail ''rules approve'' e), d, lock)
          | (Ok _, lock) \<Rightarrow> (case open_db file d of
              Raises e \<Rightarrow> (Raises e, d, lock)
            | Returns (Err e) \<Rightarrow> (Returns (cli_fail ''rules approve'' e), d, lock)
            | Returns (Ok c) \<Rightarrow> (case record_rule_set sha256 rules (rf_reread files) c of
                (r, d') \<Rightarrow> (r, d', lock))))))"

section \<open>report\<close>

definition date_in_period :: "datetime \<Rightarrow> Period \<Rightarrow> bool" where
  "date_in_period t period =
    (let day = utc_date t in
     if (case pd_start period of Some s \<Rightarrow> day < s | None \<Rightarrow> False) then False
     else if (case pd_end period of Some e \<Rightarrow> e < day | None \<Rightarrow> False) then False else True)"

text \<open>An option that is absent or empty leaves the period open; \<open>None\<close> is a malformed date.\<close>

definition read_bound :: "(string \<Rightarrow> day option) \<Rightarrow> string option \<Rightarrow> day option option" where
  "read_bound parse_day s = (case s of None \<Rightarrow> Some None
   | Some t \<Rightarrow> if t = '''' then Some None else map_option Some (parse_day t))"

definition report_output :: "RuleSet \<Rightarrow> Period \<Rightarrow> conn \<Rightarrow> string" where
  "report_output rules period c =
    (let ts = list_trades c;
         ds = list_decisions c None;
         m = compute ts ds (list_equity_snapshots c) (list_positions c) period;
         fs = filter (\<lambda>f. date_in_period (f_filled_at f) period) (list_all_fills c);
         order_count = length (filter (\<lambda>o'. case o_submitted_at o' of None \<Rightarrow> False | Some t \<Rightarrow> date_in_period t period)
           (list_orders c));
         e = estimate (m_period_pnl m) fs order_count (mk_Money (rs_capital_usd rules)) (rs_cost_assumptions rules);
         period_trades = filter_trades_by_period ts period;
         entry_ids = map t_entry_decision_id period_trades;
         entry_decisions = map_of (rev (map (\<lambda>d. (d_id d, d)) (filter (\<lambda>d. d_id d \<in> set entry_ids) ds))) in
     render_report m e period_trades entry_decisions period)"

definition report_command :: "'y yaml_reading \<Rightarrow> (string \<Rightarrow> day option) \<Rightarrow> bool \<Rightarrow> rules_files \<Rightarrow> string option
    \<Rightarrow> string option \<Rightarrow> db_file \<Rightarrow> db \<Rightarrow> cli_result py_call" where
  "report_command yr parse_day db_exists files since until file d =
    (if \<not> db_exists then Returns (cli_fail ''report'' (''no database found (run '' @ quoted ''trader ingest'' @ '' first)''))
     else (case rules_of yr files of
       Err e \<Rightarrow> Returns (cli_fail ''report'' e)
     | Ok rules \<Rightarrow> (case (read_bound parse_day since, read_bound parse_day until) of
         (Some s, Some u) \<Rightarrow> (case open_db file d of
             Raises e \<Rightarrow> Raises e
           | Returns (Err e) \<Rightarrow> Returns (cli_fail ''report'' e)
           | Returns (Ok c) \<Rightarrow> Returns (0, [Echo (report_output rules \<lparr>pd_start = s, pd_end = u\<rparr> c)]))
       | _ \<Rightarrow> Returns (cli_fail ''report'' ''--from/--to must be YYYY-MM-DD''))))"

section \<open>run-cycle\<close>

definition default_lock_path :: string where
  "default_lock_path = ''var/run-cycle.lock''"

text \<open>
  What the command finds: the variables, the rules file with its lock at a path, the database at a
  path, the SDK's clients, the language model, the process lock at a path, and the readings.
\<close>

record ('x, 'y) cycle_env =
  ce_environ :: environ
  ce_rules_at :: "string \<Rightarrow> rules_files"
  ce_db_at :: "string \<Rightarrow> db_file"
  ce_yaml :: "'y yaml_reading"
  ce_sha256 :: "string \<Rightarrow> string"
  ce_trading_client :: "client_config \<Rightarrow> 'x TradingClient"
  ce_data_client :: "client_config \<Rightarrow> 'x StockDataClient"
  ce_wait :: "decimal \<Rightarrow> 'x \<Rightarrow> 'x"
  ce_llm :: "string \<Rightarrow> string \<Rightarrow> 'x LlmClient"
  ce_reading :: py_reading
  ce_market_reading :: market_reading
  ce_coerce :: "json \<Rightarrow> (LlmResponse, string list) result"
  ce_clock :: "'x Clock"
  ce_uuid4 :: "'x \<Rightarrow> string \<times> 'x"
  ce_ny_offset :: "datetime \<Rightarrow> int"
  ce_sleep :: "int \<Rightarrow> 'x \<Rightarrow> 'x"
  ce_lock_at :: "string \<Rightarrow> 'x CycleLock"

definition msg_test_environment :: string where
  "msg_test_environment = utf8 [227, 131, 134, 227, 130, 185, 227, 131, 136, 231, 146, 176, 229, 162, 131, 227, 129,
    167, 227, 129, 175, 229, 174, 159, 232, 161, 140, 227, 129, 151, 227, 129, 190, 227, 129, 155, 227, 130, 147, 32,
    40, 84, 82, 65, 68, 69, 82, 95, 69, 78, 86, 61, 116, 101, 115, 116, 41]"

definition trade_keys :: "Settings \<Rightarrow> string \<times> string" where
  "trade_keys s = (case s of
     Paper p \<Rightarrow> (ALPACA_PAPER_TRADE_KEY p, ALPACA_PAPER_TRADE_SECRET p)
   | Live l \<Rightarrow> (ALPACA_LIVE_TRADE_KEY l, ALPACA_LIVE_TRADE_SECRET l))"

definition read_keys :: "Settings \<Rightarrow> string \<times> string" where
  "read_keys s = (case s of
     Paper p \<Rightarrow> (ALPACA_PAPER_READ_KEY p, ALPACA_PAPER_READ_SECRET p)
   | Live l \<Rightarrow> (ALPACA_LIVE_READ_KEY l, ALPACA_LIVE_READ_SECRET l))"

definition common_settings :: "Settings \<Rightarrow> CommonSettings" where
  "common_settings s = (case s of Paper p \<Rightarrow> CommonSettings.truncate p | Live l \<Rightarrow> CommonSettings.truncate l)"

text \<open>The rules that are in force: locked, valid and hashed.\<close>

definition approved_rules :: "('x, 'y) cycle_env \<Rightarrow> string \<Rightarrow> (RuleSet \<times> string, string) result" where
  "approved_rules env path =
    (let files = ce_rules_at env path in
     case verify_lock (ce_sha256 env) (rf_rules files) (rf_lock files) of
       Err e \<Rightarrow> Err e
     | Ok _ \<Rightarrow> (case rules_of (ce_yaml env) files of
         Err e \<Rightarrow> Err e
       | Ok rules \<Rightarrow> (case sha256_of_file (ce_sha256 env) (rf_rules files) of
           Err e \<Rightarrow> Err e
         | Ok sha256 \<Rightarrow> Ok (rules, sha256))))"

definition cycle_deps :: "('x, 'y) cycle_env \<Rightarrow> Settings \<Rightarrow> RuleSet \<Rightarrow> string \<Rightarrow> 'x AlpacaBroker \<Rightarrow> 'x CycleDeps" where
  "cycle_deps env s rules sha256 broker =
    \<lparr>cd_mode = settings_mode s, cd_rules = rules, cd_limits = derive_limits rules, cd_rule_set_sha256 = sha256,
     cd_broker = alpaca_ops (ce_reading env) broker,
     cd_market = alpaca_market (ce_market_reading env) (alpaca_data_create (ce_data_client env) (ce_trading_client env)
       (ce_wait env) default_timeout_s (ce_clock env) (fst (read_keys s)) (snd (read_keys s)) (settings_mode s)),
     cd_llm = Some (ce_llm env (ANTHROPIC_API_KEY (common_settings s)) (ANTHROPIC_MODEL (common_settings s))),
     cd_coerce = ce_coerce env, cd_clock = ce_clock env, cd_uuid4 = ce_uuid4 env, cd_ny_offset = ce_ny_offset env,
     cd_capital = mk_Money (rs_capital_usd rules), cd_poll_timeout_s = 60, cd_poll_interval_s = 2,
     cd_sleep = ce_sleep env,
     cd_lock = Some (ce_lock_at env (getor (ce_environ env) ''TRADER_LOCK_PATH'' default_lock_path))\<rparr>"

definition outcome_lines :: "CycleOutcome \<Rightarrow> echo list" where
  "outcome_lines outc =
     [Echo (''trader run-cycle: cycle '' @ co_cycle_id outc @ '' outcome='' @ cycle_status_value (co_outcome outc)
       @ '' decisions='' @ show_int (co_decisions outc) @ '' orders='' @ show_int (co_orders outc)
       @ '' fills='' @ show_int (co_fills outc))]
     @ (case none_if_empty (co_error_summary outc) of None \<Rightarrow> [] | Some e \<Rightarrow> [Echo (''  detail: '' @ e)])
     @ (case none_if_empty (co_candidates_skipped_reason outc) of None \<Rightarrow> []
        | Some e \<Rightarrow> [Echo (''  candidates: skipped ('' @ e @ '')'')])"

text \<open>Everything before the cycle: the dependencies and the open connection.\<close>

definition prepare_cycle :: "('x, 'y) cycle_env \<Rightarrow> db \<Rightarrow> ('x CycleDeps \<times> conn, string) result py_call" where
  "prepare_cycle env d =
    (if ce_environ env ''TRADER_ENV'' = Some ''test'' then Returns (Err msg_test_environment)
     else (case load_settings (ce_environ env) of
       Err e \<Rightarrow> Returns (Err e)
     | Ok s \<Rightarrow> (case approved_rules env (TRADER_RULES_PATH (common_settings s)) of
         Err e \<Rightarrow> Returns (Err e)
       | Ok (rules, sha256) \<Rightarrow> (case open_db (ce_db_at env (TRADER_DB_PATH (common_settings s))) d of
           Raises e \<Rightarrow> Raises e
         | Returns (Err e) \<Rightarrow> Returns (Err e)
         | Returns (Ok c) \<Rightarrow> (case alpaca_create (ce_trading_client env) (ce_wait env) default_timeout_s
               (settings_mode s) (fst (trade_keys s)) (snd (trade_keys s)) of
             Err e \<Rightarrow> Returns (Err e)
           | Ok broker \<Rightarrow> Returns (Ok (cycle_deps env s rules sha256 broker, c)))))))"

text \<open>The value is \<open>None\<close> when the cycle does not return.\<close>

definition run_cycle_command :: "('x, 'y) cycle_env \<Rightarrow> db \<Rightarrow> 'x \<Rightarrow> (OrderRequest \<times> db) list
    \<Rightarrow> (cli_result py_call \<times> db \<times> 'x \<times> (OrderRequest \<times> db) list) option" where
  "run_cycle_command env d x sent = (case prepare_cycle env d of
     Raises e \<Rightarrow> Some (Raises e, d, x, sent)
   | Returns (Err e) \<Rightarrow> Some (Returns (cli_fail ''run-cycle'' e), d, x, sent)
   | Returns (Ok (deps, c)) \<Rightarrow> (case run_cycle deps \<lparr>eng_conn = c, eng_world = x, eng_log = sent\<rparr> of
       None \<Rightarrow> None
     | Some (r, s') \<Rightarrow> Some (case r of
           Raises e \<Rightarrow> Raises e
         | Returns (Err e) \<Rightarrow> Returns (cli_fail ''run-cycle'' e)
         | Returns (Ok outc) \<Rightarrow> Returns (if co_outcome outc = CS_error then 1 else 0, outcome_lines outc),
         committed (eng_conn s'), eng_world s', eng_log s')))"

section \<open>Nothing happens without approval\<close>

text \<open>
  What the operator has to have arranged: not the test environment, complete settings, and a rule file
  that is readable, valid and the one its lock was made for.
\<close>

definition cleared :: "('x, 'y) cycle_env \<Rightarrow> bool" where
  "cleared env \<longleftrightarrow> ce_environ env ''TRADER_ENV'' \<noteq> Some ''test''
     \<and> (\<exists>s lk rules. load_settings (ce_environ env) = Ok s
        \<and> verify_lock (ce_sha256 env) (rf_rules (ce_rules_at env (TRADER_RULES_PATH (common_settings s))))
            (rf_lock (ce_rules_at env (TRADER_RULES_PATH (common_settings s)))) = Ok lk
        \<and> rules_of (ce_yaml env) (ce_rules_at env (TRADER_RULES_PATH (common_settings s))) = Ok rules)"

lemma prepare_cycle_cleared:
  assumes "\<not> cleared env" shows "\<exists>e. prepare_cycle env d = Returns (Err e)"
  using assms
  by (auto simp: prepare_cycle_def approved_rules_def cleared_def Let_def split: result.splits)

text \<open>
  C5: as long as the environment is a test, a setting is missing, or the rule file is unreadable,
  invalid or changed since it was approved, \<open>run-cycle\<close> fails with a message, and neither the ledger
  nor the outside world is touched: no order, no call, no row.
\<close>

theorem unapproved_run_changes_nothing:
  assumes "\<not> cleared env" and "run_cycle_command env d x sent = Some (r, d', x', sent')"
  shows "d' = d \<and> x' = x \<and> sent' = sent \<and> (\<exists>e. r = Returns (cli_fail ''run-cycle'' e))"
proof -
  obtain e where "prepare_cycle env d = Returns (Err e)" using prepare_cycle_cleared [OF assms(1)] by blast
  then show ?thesis using assms(2) by (auto simp: run_cycle_command_def)
qed

text \<open>A complete installation whose rules were never approved: there is no lock file.\<close>

definition idle_trading_client :: "client_config \<Rightarrow> unit TradingClient" where
  "idle_trading_client cf = \<lparr>tc_settings = \<lparr>cs_retry = Some 3, cs_session_timeout = Some None\<rparr>,
     tc_submit_order = (\<lambda>st q x. (Raises ''Timeout'', x)), tc_cancel_orders = (\<lambda>st x. (Raises ''Timeout'', x)),
     tc_get_order_by_client_id = (\<lambda>st cid x. (Raises ''Timeout'', x)),
     tc_get_all_positions = (\<lambda>st x. (Raises ''Timeout'', x)), tc_get_account = (\<lambda>st x. (Raises ''Timeout'', x)),
     tc_get_clock = (\<lambda>st x. (Raises ''Timeout'', x))\<rparr>"

definition unlocked_env :: "(unit, json) cycle_env" where
  "unlocked_env = \<lparr>ce_environ = sample_paper_env,
     ce_rules_at = (\<lambda>p. \<lparr>rf_rules = Some '''', rf_reread = Some '''', rf_lock = None, rf_writable = True\<rparr>),
     ce_db_at = (\<lambda>p. plain_file),
     ce_yaml = \<lparr>yr_safe_load = (\<lambda>s. None), yr_as_dict = (\<lambda>y. False), yr_coerce = (\<lambda>y. Err ''''), yr_bounds_message = (\<lambda>r. '''')\<rparr>,
     ce_sha256 = id, ce_trading_client = idle_trading_client, ce_data_client = sample_data_client,
     ce_wait = (\<lambda>d x. x), ce_llm = (\<lambda>k m. \<lparr>llm_model = m, llm_complete = (\<lambda>p x. (Err \<lparr>le_message = ''no answer'', le_retryable = False\<rparr>, x))\<rparr>),
     ce_reading = sample_reading, ce_market_reading = sample_market_reading, ce_coerce = (\<lambda>j. Ok []),
     ce_clock = (\<lambda>x. (5, x)), ce_uuid4 = (\<lambda>x. (''7'', x)), ce_ny_offset = (\<lambda>t. 0), ce_sleep = (\<lambda>n x. x),
     ce_lock_at = (\<lambda>p. \<lparr>lock_open = (\<lambda>x. (Returns (), x)), lock_flock = (\<lambda>x. (True, x)), lock_release = id\<rparr>)\<rparr>"

theorem unapproved_run_changes_nothing_witness:
  "\<exists>e. run_cycle_command unlocked_env empty_db () [] = Some (Returns (cli_fail ''run-cycle'' e), empty_db, (), [])"
proof -
  have n: "\<not> cleared unlocked_env" by (simp add: cleared_def unlocked_env_def verify_lock_def)
  obtain r d x l where run: "run_cycle_command unlocked_env empty_db () [] = Some (r, d, x, l)"
    using prepare_cycle_cleared [OF n, of empty_db] by (force simp: run_cycle_command_def)
  from unapproved_run_changes_nothing [OF n run] run show ?thesis by auto
qed

end
