(* ===== verification/Engine_Steps.thy ===== *)
theory Engine_Steps
  imports Cycle
begin

text \<open>
  What the steps of a cycle keep. \<open>conn_ok\<close> is the invariant of a connection: both views of the
  database satisfy the schema, and a committed order stays visible. A \<open>calm\<close> sequence of statements
  commits nothing and adds no order; a \<open>steady\<close> step keeps \<open>conn_ok\<close> and loses no committed order;
  a \<open>silent\<close> step is a steady one that submits nothing.
\<close>

definition order_ids :: "db \<Rightarrow> string set" where
  "order_ids d = o_client_order_id ` set (orders d)"

definition conn_ok :: "conn \<Rightarrow> bool" where
  "conn_ok c \<longleftrightarrow> schema_ok (committed c) \<and> schema_ok (working c)
     \<and> order_ids (committed c) \<subseteq> order_ids (working c)"

definition calm :: "conn \<Rightarrow> conn \<Rightarrow> bool" where
  "calm c c' \<longleftrightarrow> same_store c c' \<and> order_ids (working c') = order_ids (working c)
     \<and> (schema_ok (working c) \<longrightarrow> schema_ok (working c'))"

definition steady :: "conn \<Rightarrow> conn \<Rightarrow> bool" where
  "steady c c' \<longleftrightarrow> (conn_ok c \<longrightarrow> conn_ok c' \<and> order_ids (committed c) \<subseteq> order_ids (committed c'))"

definition silent :: "'x engine \<Rightarrow> 'x engine \<Rightarrow> bool" where
  "silent s s' \<longleftrightarrow> eng_log s' = eng_log s \<and> steady (eng_conn s) (eng_conn s')"

lemma calm_refl [simp, intro]: "calm c c"
  by (simp add: calm_def)

lemma calm_trans [trans]: "calm a b \<Longrightarrow> calm b c \<Longrightarrow> calm a c"
  by (auto simp: calm_def intro: same_store_trans)

lemma calm_steady: "calm c c' \<Longrightarrow> steady c c'"
  by (auto simp: calm_def steady_def conn_ok_def same_store_def)

lemma steady_refl [simp, intro]: "steady c c"
  by (simp add: steady_def)

lemma steady_trans [trans]: "steady a b \<Longrightarrow> steady b c \<Longrightarrow> steady a c"
  by (auto simp: steady_def)

lemma silent_refl [simp, intro]: "silent s s"
  by (simp add: silent_def)

lemma silent_trans [trans]: "silent a b \<Longrightarrow> silent b c \<Longrightarrow> silent a c"
  by (auto simp: silent_def intro: steady_trans)

lemma silent_world [simp]: "silent s (s\<lparr>eng_world := x\<rparr>)" "silent (s\<lparr>eng_world := x\<rparr>) s' = silent s s'"
  "silent s (s'\<lparr>eng_world := x\<rparr>) = silent s s'"
  by (simp_all add: silent_def)

lemma silent_conn: "steady (eng_conn s) c \<Longrightarrow> silent s (s\<lparr>eng_conn := c\<rparr>)"
  by (simp add: silent_def)

section \<open>Statements\<close>

lemma order_ids_frame [simp]:
  "order_ids (del_state k d) = order_ids d" "order_ids (put_snapshot sn d) = order_ids d"
  "order_ids (put_state kv d) = order_ids d" "order_ids (d\<lparr>cycles := cs\<rparr>) = order_ids d"
  by (simp_all add: order_ids_def del_state_def put_snapshot_def put_state_def)

lemma order_ids_set_status:
  "order_ids (d\<lparr>orders := change_row o_id i (set_status st msg b t) (orders d)\<rparr>) = order_ids d"
  by (simp add: order_ids_def) (simp only: change_row_images(2) [of o_client_order_id "set_status st msg b t", OF set_status_simps(4)])

lemma calm_run_stmt:
  assumes "run_stmt op c = (r, c')"
    and "\<And>d v. op (working c) = Ok (d, v) \<Longrightarrow> order_ids d = order_ids (working c)"
    and "\<And>d v. op (working c) = Ok (d, v) \<Longrightarrow> schema_ok (working c) \<Longrightarrow> schema_ok d"
  shows "calm c c'"
  using working_run_stmt [OF assms(1)] same_store_run_stmt [OF assms(1)] assms(2,3)
  by (auto simp: calm_def)

lemma calm_wrap:
  assumes "wrap_stmt w x (run_stmt op c) = (r, c')"
    and "\<And>d v. op (working c) = Ok (d, v) \<Longrightarrow> order_ids d = order_ids (working c)"
    and "\<And>d v. op (working c) = Ok (d, v) \<Longrightarrow> schema_ok (working c) \<Longrightarrow> schema_ok d"
  shows "calm c c'"
proof -
  obtain u where "run_stmt op c = (u, c')"
    using assms(1) by (auto simp: wrap_stmt_def split: prod.splits result.splits)
  then show ?thesis using assms(2,3) by (rule calm_run_stmt)
qed

lemma calm_upsert_position [frame]: "upsert_position c p = (r, c') \<Longrightarrow> calm c c'"
  unfolding upsert_position_def by (erule calm_wrap) (auto simp: order_ids_def schema_put_position)

lemma calm_delete_position [frame]: "calm c (delete_position c t)"
  by (simp add: delete_position_def calm_def same_store_def order_ids_def schema_del_position)

lemma calm_insert_trade [frame]: "insert_trade c t = (r, c') \<Longrightarrow> calm c c'"
  unfolding insert_trade_def
  by (erule calm_wrap) (auto simp: order_ids_def insert_trade_stmt_def split: if_splits intro: schema_insert_trade [of t])

lemma calm_insert_fill [frame]: "insert_fill c f = (r, c') \<Longrightarrow> calm c c'"
  unfolding insert_fill_def
proof (erule calm_wrap)
  show "order_ids d = order_ids (working c)" if "insert_fill_stmt f (working c) = Ok (d, v)" for d v
    using that by (auto simp: order_ids_def insert_fill_stmt_def split: if_splits)
qed (rule schema_insert_fill)

lemma calm_insert_decision [frame]: "insert_decision c d = (r, c') \<Longrightarrow> calm c c'"
  unfolding insert_decision_def
proof (erule calm_wrap)
  show "order_ids e = order_ids (working c)" if "insert_decision_stmt d (working c) = Ok (e, v)" for e v
    using that by (auto simp: order_ids_def insert_decision_stmt_def split: if_splits)
qed (rule schema_insert_decision)

lemma calm_insert_cycle [frame]: "insert_cycle c i t m = (r, c') \<Longrightarrow> calm c c'"
  unfolding insert_cycle_def
proof (erule calm_wrap)
  fix row d v
  show "order_ids d = order_ids (working c)" if "insert_cycle_stmt row (working c) = Ok (d, v)" for row d v
    using that by (auto simp: order_ids_def insert_cycle_stmt_def split: if_splits)
qed (rule schema_insert_cycle)

lemma calm_set_engine_state [frame]: "set_engine_state c k v = (r, c') \<Longrightarrow> calm c c'"
  unfolding set_engine_state_def by (erule calm_wrap) (auto simp: order_ids_def schema_put_state)

lemma calm_delete_engine_state [frame]: "delete_engine_state c k = (r, c') \<Longrightarrow> calm c c'"
  unfolding delete_engine_state_def by (erule calm_run_stmt) (auto simp: schema_del_state)

lemma calm_upsert_equity_snapshot [frame]:
  "upsert_equity_snapshot c dt m ca pv pk dd ta = (r, c') \<Longrightarrow> calm c c'"
  unfolding upsert_equity_snapshot_def Let_def
  by (erule calm_wrap) (auto simp: schema_put_snapshot)

lemma calm_finish_cycle [frame]:
  assumes "finish_cycle c i t u e = (r, c')" shows "calm c c'"
proof -
  let ?op = "\<lambda>d. Ok (d\<lparr>cycles := change_row cyc_id i (finish_row t u e) (cycles d)\<rparr>,
        length (filter (\<lambda>r. cyc_id r = i) (cycles d)))"
  obtain rr where run: "run_stmt ?op c = (rr, c')"
    using assms by (auto simp: finish_cycle_def split: prod.splits result.splits if_splits)
  have "cyc_id (finish_row t u e r) = cyc_id r" for r by (simp add: finish_row_def)
  from run show ?thesis
    by (rule calm_run_stmt) (auto simp: order_ids_def schema_ok_def change_row_images
        \<open>\<And>r. cyc_id (finish_row t u e r) = cyc_id r\<close>)
qed

lemma calm_update_order_status [frame]:
  assumes "update_order_status c i st msg b t = (r, c')" shows "calm c c'"
proof -
  obtain rr where run: "run_stmt (update_order_stmt i (set_status st msg b t)) c = (rr, c')"
    using assms by (auto simp: update_order_status_def split: prod.splits result.splits if_splits)
  then show ?thesis
  proof (rule calm_run_stmt)
    show "order_ids d = order_ids (working c)"
      if "update_order_stmt i (set_status st msg b t) (working c) = Ok (d, v)" for d v
      using that by (auto simp: update_order_stmt_def order_ids_set_status)
  qed (rule schema_update_order)
qed

lemma quiet_silent: "quiet_step s s' \<Longrightarrow> silent s s'"
  by (auto simp: quiet_step_def silent_def steady_def conn_ok_def same_store_def same_books_def order_ids_def)

section \<open>Transactions\<close>

lemma steady_transaction:
  assumes "transaction body c = (r, c')" "\<And>u c1. body c = (u, c1) \<Longrightarrow> calm c c1"
  shows "steady c c'"
proof (cases r)
  case (Ok v)
  then obtain c1 where b: "body c = (Ok v, c1)" and c': "c' = c1\<lparr>stmts := Suc (stmts c1), committed := working c1\<rparr>"
    using transaction_Ok [OF assms(1) [unfolded Ok]] by blast
  from assms(2) [OF b] show ?thesis by (auto simp: c' calm_def steady_def conn_ok_def)
next
  case (Err e)
  have "committed c' = committed c \<and> working c' = committed c \<and> faults c' = faults c"
    using transaction_Err [OF assms(1) [unfolded Err]] assms(2) by (auto simp: calm_def)
  then show ?thesis by (simp add: steady_def conn_ok_def)
qed

lemma steady_plain_commit [frame]: "plain_commit c = (r, c') \<Longrightarrow> steady c c'"
  by (auto simp: plain_commit_def steady_def conn_ok_def split: option.splits)

lemma calm_set_states: "set_states kvs c = (r, c') \<Longrightarrow> calm c c'"
proof (induction kvs arbitrary: c)
  case (Cons kv kvs)
  obtain r1 c1 where 1: "set_engine_state c (fst kv) (snd kv) = (r1, c1)" by fastforce
  then show ?case using Cons calm_set_engine_state [OF 1]
    by (cases kv; cases r1) (auto intro: calm_trans)
qed simp

lemma calm_delete_states: "delete_states ks c = (r, c') \<Longrightarrow> calm c c'"
proof (induction ks arbitrary: c)
  case (Cons k ks)
  obtain r1 c1 where 1: "delete_engine_state c k = (r1, c1)" by fastforce
  then show ?case using Cons calm_delete_engine_state [OF 1] by (cases r1) (auto intro: calm_trans)
qed simp

lemma silent_trigger [frame]:
  assumes "trigger breach broker clock s = (r, s')" shows "silent s s'"
proof -
  obtain cr x1 where cr: "cancel_all_open broker (eng_world s) = (cr, x1)" by fastforce
  obtain now x2 where now: "clock x1 = (now, x2)" by fastforce
  obtain tr c' where t: "transaction (set_states [(halted_key, halted_value), (halted_reason_key, br_reason breach),
      (halted_at_key, isoformat now)]) (eng_conn s) = (tr, c')" by fastforce
  have "s' = s\<lparr>eng_world := x2, eng_conn := c'\<rparr>"
    using assms t by (auto simp: trigger_def Let_def cr now split: result.splits)
  moreover have "steady (eng_conn s) c'" using t calm_set_states by (rule steady_transaction)
  ultimately show ?thesis by (simp add: silent_def)
qed

lemma steady_resume [frame]: "resume c = (r, c') \<Longrightarrow> steady c c'"
  by (auto simp: resume_def split: prod.splits result.splits intro: steady_transaction calm_delete_states)

section \<open>Polling\<close>

lemma calm_settle_fill [frame]: "settle_fill c d f side er = (r, c') \<Longrightarrow> calm c c'"
  by (auto simp: settle_fill_def Let_def split: result.splits prod.splits PositionUpdate.splits
      dest: calm_upsert_position calm_insert_trade intro: calm_trans [OF calm_delete_position])

lemma silent_record_new_fill:
  assumes "record_new_fill a bo ps s = (r, s')" shows "silent s s'"
  using assms
proof (cases rule: record_new_fill_cases)
  case (attempted u x1 now x2 p fill ri c3)
  obtain rs c4 where s: "settle_fill c3 (pa_decision a) fill (pa_side a) (pa_exit_reason a) = (rs, c4)" by fastforce
  have "calm (eng_conn s) c3" "calm c3 c4" using calm_insert_fill [OF attempted(7)] calm_settle_fill [OF s] .
  then have "steady (eng_conn s) c3" "steady (eng_conn s) c4" by (blast intro: calm_steady calm_trans)+
  then show ?thesis using attempted(8) by (cases ri; cases rs) (simp_all add: s silent_def)
qed simp

lemma silent_update_polled:
  assumes "update_polled_status a bo ps s = (r, s')" shows "silent s s'"
proof (cases "bo_status bo = ps_last_status ps")
  case False
  obtain ur c' where u: "update_order_status (eng_conn s) (pa_order_id a) (bo_status bo) None
      (Some (bo_broker_order_id bo)) None = (ur, c')" by fastforce
  have "s' = s\<lparr>eng_conn := c'\<rparr>" using assms False u by (auto simp: update_polled_status_def split: result.splits)
  then show ?thesis using calm_steady [OF calm_update_order_status [OF u]] by (simp add: silent_conn)
qed (use assms in \<open>simp add: update_polled_status_def\<close>)

lemma silent_poll_once:
  assumes "poll_once a ps s = (step, s')" shows "silent s s'"
  using assms
proof (cases rule: poll_once_cases)
  case (unrecorded bo x1 e)
  then show ?thesis using silent_record_new_fill [OF unrecorded(2)] by simp
next
  case (not_updated bo x1 ps2 s2 e)
  then show ?thesis using silent_record_new_fill [OF not_updated(2)] silent_update_polled [OF not_updated(3)]
    by (auto intro: silent_trans)
next
  case (finished bo x1 ps2 s2 ps3)
  then show ?thesis using silent_record_new_fill [OF finished(2)] silent_update_polled [OF finished(3)]
    by (auto intro: silent_trans)
next
  case (again bo x1 ps2 s2 ps3 s3)
  then show ?thesis using silent_record_new_fill [OF again(2)] silent_update_polled [OF again(3)]
    by (auto intro: silent_trans)
qed simp

lemma silent_poll_and_settle [frame]:
  assumes "poll_and_settle a s = Some (r, s')" shows "silent s s'"
proof (rule poll_loop_invariant [where I = "\<lambda>_ t. silent s t" and Q = "\<lambda>_ t. silent s t"])
  show "poll_loop a (initial_poll (list_fills (eng_conn s) (pa_order_id a))) s = Some (r, s')"
    using assms by (simp add: poll_and_settle_def)
qed (blast intro: silent_trans silent_poll_once silent_refl)+

end
