(* ===== verification/Cycle_Safety.thy ===== *)
theory Cycle_Safety
  imports Engine_Steps
begin

text \<open>
  What a cycle guarantees: the invariant \<open>engine_ok\<close> of the engine (every submission was recorded
  and committed first, and none was made twice), that a halted engine and a closed market submit
  nothing, that a breach leaves a durable halt, and that a cycle returns. The last section lets the
  engine live on: cycles, resumes, restarts and other steps in any order.
\<close>

section \<open>The invariant\<close>

text \<open>A submission with the database as it was committed when the broker was asked.\<close>

definition submission_recorded :: "OrderRequest \<times> db \<Rightarrow> bool" where
  "submission_recorded e \<longleftrightarrow> (case e of (q, d) \<Rightarrow> schema_ok d \<and> (\<exists>x \<in> set (orders d).
     o_client_order_id x = or_client_order_id q \<and> o_side x = or_side q \<and> o_qty x = or_qty q
     \<and> o_status x = OS_recorded \<and> has_key d_id (o_decision_id x) (decisions d)
     \<and> has_key a_id (o_approval_id x) (approvals d)))"

definition submitted_ids :: "'x engine \<Rightarrow> string list" where
  "submitted_ids s = map (\<lambda>(q, d). or_client_order_id q) (eng_log s)"

definition engine_ok :: "'x engine \<Rightarrow> bool" where
  "engine_ok s \<longleftrightarrow> conn_ok (eng_conn s) \<and> list_all submission_recorded (eng_log s)
     \<and> distinct (submitted_ids s) \<and> set (submitted_ids s) \<subseteq> order_ids (committed (eng_conn s))"

definition keeps_ok :: "'x engine \<Rightarrow> 'x engine \<Rightarrow> bool" where
  "keeps_ok s s' \<longleftrightarrow> (engine_ok s \<longrightarrow> engine_ok s')"

lemma keeps_ok_refl [simp, intro]: "keeps_ok s s"
  by (simp add: keeps_ok_def)

lemma keeps_ok_trans [trans]: "keeps_ok a b \<Longrightarrow> keeps_ok b c \<Longrightarrow> keeps_ok a c"
  by (simp add: keeps_ok_def)

lemma silent_keeps_ok: "silent s s' \<Longrightarrow> keeps_ok s s'"
  by (auto simp: silent_def steady_def keeps_ok_def engine_ok_def submitted_ids_def)

lemma keeps_ok_world [simp]:
  "keeps_ok (s\<lparr>eng_world := x\<rparr>) s' = keeps_ok s s'" "keeps_ok s (s'\<lparr>eng_world := x\<rparr>) = keeps_ok s s'"
  by (simp_all add: keeps_ok_def engine_ok_def submitted_ids_def)

section \<open>Execution\<close>

lemma schema_wrap:
  assumes "wrap_stmt w v (run_stmt op c) = (r, c')" "schema_ok (working c)"
    and "\<And>d u. op (working c) = Ok (d, u) \<Longrightarrow> schema_ok (working c) \<Longrightarrow> schema_ok d"
  shows "schema_ok (working c')"
proof -
  obtain u where "run_stmt op c = (u, c')"
    using assms(1) by (auto simp: wrap_stmt_def split: prod.splits result.splits)
  from working_run_stmt [OF this] show ?thesis using assms(2,3) by auto
qed

lemma schema_record_order:
  assumes "record_order req x c = (r, c')" "schema_ok (working c)" shows "schema_ok (working c')"
proof -
  obtain r1 c1 where 1: "record_decision (req_decision req) c = (r1, c1)" by fastforce
  obtain r2 c2 where 2: "insert_approval c1 (req_approval req) = (r2, c2)" by fastforce
  obtain r3 c3 where 3: "insert_order c2 x = (r3, c3)" by fastforce
  have s1: "schema_ok (working c1)"
    using 1 assms(2) insert_decision_effect
    by (auto simp: record_decision_def split: option.splits prod.splits result.splits)
  have s2: "schema_ok (working c2)"
    by (rule schema_wrap [OF 2 [unfolded insert_approval_def] s1 schema_insert_approval])
  have s3: "schema_ok (working c3)"
    by (rule schema_wrap [OF 3 [unfolded insert_order_def] s2 schema_insert_order])
  show ?thesis using assms(1) s1 s2 s3 by (auto simp: record_order_def 1 2 3 split: result.splits)
qed

lemma recorded_ok:
  assumes "transaction (record_order req (new_order req mode)) c = (Ok u, c1)" "conn_ok c"
  shows "conn_ok c1 \<and> order_ids (committed c1) = insert (req_client_order_id req) (order_ids (working c))
    \<and> req_client_order_id req \<notin> order_ids (working c)
    \<and> submission_recorded (broker_request req, committed c1)"
proof -
  obtain c0 where r: "record_order req (new_order req mode) c = (Ok u, c0)"
    and c1: "c1 = c0\<lparr>stmts := Suc (stmts c0), committed := working c0\<rparr>"
    using transaction_Ok [OF assms(1)] by blast
  note facts = record_order_Ok [OF r]
  have sch: "schema_ok (working c0)" using schema_record_order [OF r] assms(2) by (simp add: conn_ok_def)
  have ids: "order_ids (working c0) = insert (req_client_order_id req) (order_ids (working c))"
    "req_client_order_id req \<notin> order_ids (working c)"
    using facts by (auto simp: order_ids_def has_key_def)
  have "o_approval_id (new_order req mode) = a_id (req_approval req)" "o_decision_id (new_order req mode) = d_id (req_decision req)"
    by simp_all
  then have "submission_recorded (broker_request req, working c0)"
    using facts sch by (auto simp: submission_recorded_def broker_request_def has_key_def intro!: bexI [of _ "new_order req mode"])
  then show ?thesis using sch ids by (simp add: c1 conn_ok_def)
qed

lemma execute_keeps_ok [frame]:
  assumes "execute broker clock mode req s = (r, s')" shows "keeps_ok s s'"
  unfolding keeps_ok_def
proof
  assume ok: "engine_ok s"
  have submitted: "engine_ok (s2\<lparr>eng_conn := c3\<rparr>)"
    if t: "transaction (record_order req (new_order req mode)) (eng_conn s) = (Ok u, c1)"
      and b: "submit broker (broker_request req) (s\<lparr>eng_conn := c1\<rparr>) = (br, s2)" and c3: "calm c1 c3"
    for u c1 br s2 c3
  proof -
    have cok: "conn_ok (eng_conn s)" using ok by (simp add: engine_ok_def)
    note rec = recorded_ok [OF t cok]
    have "conn_ok c3" "committed c3 = committed c1"
      using calm_steady [OF c3] c3 rec by (simp_all add: steady_def calm_def same_store_def)
    moreover have "order_ids (committed (eng_conn s)) \<subseteq> order_ids (working (eng_conn s))"
      using cok by (simp add: conn_ok_def)
    moreover have "eng_log s2 = eng_log s @ [(broker_request req, committed c1)]" using submit_frame(2) [OF b] by simp
    moreover have "or_client_order_id (broker_request req) = req_client_order_id req" by (simp add: broker_request_def)
    moreover have "req_client_order_id req \<notin> set (submitted_ids s)"
      using ok rec \<open>order_ids (committed (eng_conn s)) \<subseteq> order_ids (working (eng_conn s))\<close>
      unfolding engine_ok_def by blast
    moreover have "set (submitted_ids s) \<subseteq> order_ids (committed c1)"
      using ok rec \<open>order_ids (committed (eng_conn s)) \<subseteq> order_ids (working (eng_conn s))\<close>
      unfolding engine_ok_def by blast
    ultimately show ?thesis using ok rec
      by (simp add: engine_ok_def) (simp add: submitted_ids_def)
  qed
  from assms show "engine_ok s'"
  proof (cases rule: execute_cases)
    case (not_recorded e c1)
    have "committed c1 = committed (eng_conn s)" "working c1 = committed (eng_conn s)"
      using transaction_Err [OF not_recorded(1) same_store_record_order] by simp_all
    then show ?thesis using ok not_recorded(3) by (simp add: engine_ok_def conn_ok_def submitted_ids_def)
  next
    case (refused u c1 m s2 ur c3)
    then show ?thesis using submitted [OF refused(1,2) calm_update_order_status [OF refused(3)]] by simp
  next
    case (accepted u c1 bo s2 ur c4 t x3)
    then show ?thesis using submitted [OF accepted(1,2) calm_update_order_status [OF accepted(4)]]
      by (simp add: engine_ok_def submitted_ids_def)
  qed
qed

lemma execute_decision_keeps_ok:
  assumes "execute_decision deps reasons mclock d s = Some (counts, s')" shows "keeps_ok s s'"
proof (cases "d_rule_check d \<noteq> RC_passed \<or> d_action d \<notin> {Action_buy, Action_sell}")
  case True
  then show ?thesis using assms by (simp add: execute_decision_def)
next
  case False
  obtain rr x1 where rr: "resolve_approval (cd_uuid4 deps) (cd_clock deps) d (cd_mode deps) (eng_conn s) mclock (eng_world s) = (rr, x1)"
    by fastforce
  note run = assms [unfolded execute_decision_def if_not_P [OF False] rr prod.case]
  show ?thesis
  proof (cases rr)
    case (Err e)
    then show ?thesis using run by auto
  next
    case (Ok req)
    obtain er s2 where er: "execute (cd_broker deps) (cd_clock deps) (cd_mode deps) req (s\<lparr>eng_world := x1\<rparr>) = (er, s2)"
      by fastforce
    have 2: "keeps_ok s s2" using execute_keeps_ok [OF er] by simp
    show ?thesis
    proof (cases er)
      case (Err e)
      then show ?thesis using run Ok er 2 by auto
    next
      case order: (Ok order)
      then obtain pr where "poll_and_settle (poll_args_of deps d reasons order) s2 = Some (pr, s')"
        using run Ok er by (auto split: option.splits result.splits prod.splits)
      from silent_keeps_ok [OF silent_poll_and_settle [OF this]] show ?thesis using 2 by (rule keeps_ok_trans [rotated])
    qed
  qed
qed

lemma execute_passed_keeps_ok:
  "execute_passed_decisions deps reasons mclock ds counts s = Some (counts', s') \<Longrightarrow> keeps_ok s s'"
proof (induction ds arbitrary: counts s)
  case (Cons d ds)
  obtain os fs s1 where d: "execute_decision deps reasons mclock d s = Some ((os, fs), s1)"
    using Cons.prems by (auto split: option.splits)
  then have "execute_passed_decisions deps reasons mclock ds (fst counts + os, snd counts + fs) s1 = Some (counts', s')"
    using Cons.prems by simp
  then show ?case using Cons.IH execute_decision_keeps_ok [OF d] by (blast intro: keeps_ok_trans)
qed simp

section \<open>Closing a cycle\<close>

text \<open>Closing submits nothing; when it returns an outcome, everything is committed.\<close>

lemma commit_and_return_facts:
  assumes "commit_and_return v s = (r, s')"
  shows "silent s s' \<and> working (eng_conn s') = working (eng_conn s)
    \<and> (\<forall>w. r = Returns w \<longrightarrow> w = v \<and> committed (eng_conn s') = working (eng_conn s'))"
proof -
  obtain u c where p: "plain_commit (eng_conn s) = (u, c)" by fastforce
  then have "working c = working (eng_conn s)" "u = Ok () \<longrightarrow> committed c = working c"
    by (auto simp: plain_commit_def split: option.splits)
  then show ?thesis using assms p steady_plain_commit [OF p]
    by (cases u) (auto simp: commit_and_return_def silent_def)
qed

lemma finish_facts:
  assumes "finish clock cycle_id outc err n os fs sk s = (r, s')"
  shows "silent s s' \<and> (is_halted (eng_conn s) \<longrightarrow> is_halted (eng_conn s'))
    \<and> (\<forall>o'. r = Returns (Ok o') \<longrightarrow> co_outcome o' = outc \<and> co_orders o' = os \<and> co_cycle_id o' = cycle_id
        \<and> co_error_summary o' = err \<and> committed (eng_conn s') = working (eng_conn s'))"
proof -
  obtain now x1 where now: "clock (eng_world s) = (now, x1)" by fastforce
  obtain fr c1 where f: "finish_cycle (eng_conn s) cycle_id now (cycle_status_value outc) err = (fr, c1)" by fastforce
  have calm1: "calm (eng_conn s) c1" using f by (rule calm_finish_cycle)
  have h1: "is_halted c1 = is_halted (eng_conn s)"
    using f by (auto simp: finish_cycle_def is_halted_def get_engine_state_def run_stmt_def Let_def state_of_def
        split: prod.splits result.splits option.splits if_splits)
  define c2 where "c2 = (if outc \<noteq> CS_error then snd (set_engine_state c1 last_cycle_id_key cycle_id) else c1)"
  obtain sr c' where set: "set_engine_state c1 last_cycle_id_key cycle_id = (sr, c')" by fastforce
  have calm2: "calm c1 c2" using calm_set_engine_state [OF set] by (simp add: c2_def set)
  have "get_engine_state c' halted_key = get_engine_state c1 halted_key"
    using set by (auto simp: set_engine_state_def wrap_stmt_def run_stmt_def Let_def get_engine_state_def
        state_store.get_put last_cycle_id_key_def halted_key_def split: option.splits)
  then have h2: "is_halted c2 = is_halted c1" by (simp add: c2_def set is_halted_def)
  show ?thesis
  proof (cases fr)
    case (Err e)
    then have "commit_and_return (Err e) (s\<lparr>eng_world := x1, eng_conn := c1\<rparr>) = (r, s')"
      using assms by (simp add: finish_def Let_def now f)
    note c = commit_and_return_facts [OF this]
    then have "is_halted (eng_conn s') = is_halted c1" by (intro is_halted_cong) simp
    moreover have "silent s s'" using c steady_trans [OF calm_steady [OF calm1]] by (simp add: silent_def)
    ultimately show ?thesis using c h1 by auto
  next
    case (Ok v)
    let ?o = "\<lparr>co_cycle_id = cycle_id, co_outcome = outc, co_decisions = n, co_orders = os, co_fills = fs,
      co_error_summary = err, co_candidates_skipped_reason = sk\<rparr>"
    have "commit_and_return (Ok ?o) (s\<lparr>eng_world := x1, eng_conn := c2\<rparr>) = (r, s')"
      using assms Ok by (simp add: finish_def Let_def now f c2_def)
    then obtain o' where o': "commit_and_return (Ok o') (s\<lparr>eng_world := x1, eng_conn := c2\<rparr>) = (r, s')"
      "co_outcome o' = outc" "co_orders o' = os" "co_cycle_id o' = cycle_id" "co_error_summary o' = err"
      using CycleOutcome.simps by metis
    note c = commit_and_return_facts [OF o'(1)]
    then have "is_halted (eng_conn s') = is_halted c2" by (intro is_halted_cong) simp
    moreover have "silent s s'"
      using c steady_trans [OF calm_steady [OF calm_trans [OF calm1 calm2]]] by (simp add: silent_def)
    ultimately show ?thesis using c h1 h2 o'(2-) by auto
  qed
qed

section \<open>The ways through a cycle\<close>

lemma execute_and_finish_cases:
  assumes "execute_and_finish deps cycle_id mclock ds reasons n outc err sk s = Some (r, s')"
  obtains os fs s1 where
    "if mc_is_open mclock then execute_passed_decisions deps reasons mclock ds (0, 0) s = Some ((os, fs), s1)
      else s1 = s \<and> os = 0 \<and> fs = 0"
    "finish (cd_clock deps) cycle_id outc err n os fs sk s1 = (r, s')"
  using assms by (auto simp: execute_and_finish_def split: option.splits if_splits)

lemma execute_and_finish_facts:
  assumes "execute_and_finish deps cycle_id mclock ds reasons n outc err sk s = Some (r, s')"
  shows "keeps_ok s s' \<and> (\<not> mc_is_open mclock \<longrightarrow> eng_log s' = eng_log s)
    \<and> (\<forall>o'. r = Returns (Ok o') \<longrightarrow> co_outcome o' = outc)"
  using assms
proof (cases rule: execute_and_finish_cases)
  case (1 os fs s1)
  have "keeps_ok s s1" using 1(1) execute_passed_keeps_ok by (auto split: if_splits)
  moreover note f = finish_facts [OF 1(2)]
  ultimately show ?thesis using 1(1) silent_keeps_ok [of s1 s'] by (auto simp: silent_def intro: keeps_ok_trans)
qed

lemma evaluate_risk_facts:
  assumes "evaluate_risk deps cycle_id h n s = (r, s')"
  shows "silent s s' \<and> (\<forall>o'. r = Some (Returns (Ok o')) \<longrightarrow> co_outcome o' = CS_halted
    \<longrightarrow> is_halted (eng_conn s') \<and> committed (eng_conn s') = working (eng_conn s'))"
proof -
  obtain ar x1 where ar: "broker_account (cd_broker deps) (eng_world s) = (ar, x1)" by fastforce
  have stopped: "silent s s' \<and> (\<forall>o'. r = Some (Returns (Ok o')) \<longrightarrow> co_outcome o' = outc
      \<and> committed (eng_conn s') = working (eng_conn s') \<and> (is_halted (eng_conn t) \<longrightarrow> is_halted (eng_conn s')))"
    if "(case finish (cd_clock deps) cycle_id outc (Some msg) n 0 0 None t of (r, s') \<Rightarrow> (Some r, s')) = (r, s')" "silent s t"
    for outc msg t
  proof -
    obtain r0 s0 where f: "finish (cd_clock deps) cycle_id outc (Some msg) n 0 0 None t = (r0, s0)" by fastforce
    then have "r = Some r0" "s' = s0" using that(1) by simp_all
    then show ?thesis using finish_facts [OF f] that(2) by (auto intro: silent_trans)
  qed
  show ?thesis
  proof (cases ar)
    case (Err e)
    then show ?thesis
      using assms stopped [of CS_market_unavailable e "s\<lparr>eng_world := x1\<rparr>"] by (simp add: evaluate_risk_def Let_def ar)
  next
    case (Ok account)
    obtain now x2 where now: "cd_clock deps x1 = (now, x2)" by fastforce
    define equity where "equity = money_add (ba_cash account) (ho_positions_value h)"
    define today where "today = trading_day (cd_ny_offset deps) now"
    let ?peak = "peak_of (prior_peak_equity (eng_conn s) (cd_capital deps) today) equity"
    obtain ur c3 where u: "upsert_equity_snapshot (eng_conn s) today (mode_value (cd_mode deps)) (ba_cash account)
        (ho_positions_value h) ?peak (snapshot_drawdown ?peak equity) now = (ur, c3)" by fastforce
    have s3: "silent s (s\<lparr>eng_world := x2, eng_conn := c3\<rparr>)"
      using calm_steady [OF calm_upsert_equity_snapshot [OF u]] by (simp add: silent_def)
    obtain rt rw where rt: "realized_totals (cd_ny_offset deps) (list_trades c3) now = (rt, rw)" by fastforce
    note run = assms [unfolded evaluate_risk_def Let_def ar Ok prod.case result.case now, simplified,
        folded equity_def today_def, unfolded u prod.case rt]
    show ?thesis
    proof (cases ur)
      case (Err e)
      then show ?thesis using run stopped [of CS_error e "s\<lparr>eng_world := x2, eng_conn := c3\<rparr>"] s3 by simp
    next
      case ur: (Ok v)
      show ?thesis
      proof (cases "evaluate (cd_limits deps) rt (ho_unrealized_pnl h) rw equity ?peak")
        case None
        then show ?thesis using run ur s3 by auto
      next
        case (Some breach)
        obtain tr s4 where t: "trigger breach (cd_broker deps) (cd_clock deps) (s\<lparr>eng_world := x2, eng_conn := c3\<rparr>) = (tr, s4)"
          by fastforce
        have s4: "silent s s4" using s3 silent_trigger [OF t] by (rule silent_trans)
        show ?thesis
        proof (cases tr)
          case (Err e)
          then show ?thesis using run ur Some t s4 stopped [of CS_error e s4] by simp
        next
          case k: (Ok k)
          have "get_engine_state (eng_conn s4) halted_key = Some halted_value"
            using trigger_Ok [OF t [unfolded k]] by (simp add: get_engine_state_def state_store.get_put)
          then have "is_halted (eng_conn s4)" by (simp add: is_halted_def)
          then show ?thesis using run ur Some t k s4 stopped [of CS_halted "br_reason breach" s4] by auto
        qed
      qed
    qed
  qed
qed

text \<open>
  What every part of a cycle guarantees of its result: \<open>shut\<close> says that the market is known to be
  closed.
\<close>

definition cycle_safe :: "bool \<Rightarrow> 'x engine \<Rightarrow> (CycleOutcome, CycleError) result py_call \<Rightarrow> 'x engine \<Rightarrow> bool" where
  "cycle_safe shut s r s' \<longleftrightarrow> keeps_ok s s' \<and> (shut \<longrightarrow> eng_log s' = eng_log s)
     \<and> (\<forall>o'. r = Returns (Ok o') \<longrightarrow> co_outcome o' = CS_halted \<longrightarrow> eng_log s' = eng_log s
          \<and> is_halted (eng_conn s') \<and> committed (eng_conn s') = working (eng_conn s'))"

lemma cycle_safe_before:
  assumes "silent s t" "cycle_safe shut t r s'" shows "cycle_safe shut s r s'"
  using assms silent_keeps_ok [OF assms(1)] by (auto simp: cycle_safe_def silent_def intro: keeps_ok_trans)

lemma cycle_safe_finish:
  assumes "finish clock cycle_id outc err n os fs sk s = (r, s')" "outc = CS_halted \<longrightarrow> is_halted (eng_conn s)"
  shows "cycle_safe shut s r s'"
  using finish_facts [OF assms(1)] assms(2) silent_keeps_ok [of s s'] by (auto simp: cycle_safe_def silent_def)

lemma cycle_safe_execute_and_finish:
  assumes "execute_and_finish deps cycle_id mclock ds reasons n outc err sk s = Some (r, s')" "outc \<noteq> CS_halted"
  shows "cycle_safe (\<not> mc_is_open mclock) s r s'"
  using execute_and_finish_facts [OF assms(1)] assms(2) by (auto simp: cycle_safe_def)

lemma cycle_safe_run_buys:
  assumes "run_buys deps cycle_id mclock ps h n s = Some (r, s')"
  shows "cycle_safe (\<not> mc_is_open mclock) s r s'"
proof (cases "max_concurrent_positions (rs_position (cd_rules deps)) \<le> int (length ps)")
  case True
  then show ?thesis using assms cycle_safe_execute_and_finish by (fastforce simp: run_buys_def Let_def)
next
  case False
  obtain cr s1 where c: "evaluate_candidates (candidates_args_of deps cycle_id mclock)
      (list_mentions (eng_conn s) serenity_source_id) (remdups (map p_ticker ps)) s = (cr, s1)" by fastforce
  have q: "silent s s1" by (rule quiet_silent [OF quiet_evaluate_candidates [OF c]])
  note run = assms [unfolded run_buys_def Let_def if_not_P [OF False] c prod.case]
  have "cycle_safe (\<not> mc_is_open mclock) s1 r s'"
  proof (cases cr)
    case (Raises e)
    then show ?thesis using run by (auto simp: cycle_safe_def)
  next
    case (Returns v)
    show ?thesis
    proof (cases v)
      case (Ok ds)
      then show ?thesis using run Returns by (auto intro: cycle_safe_execute_and_finish)
    next
      case (Err e)
      then show ?thesis using run Returns by (auto intro: cycle_safe_finish)
    qed
  qed
  then show ?thesis by (rule cycle_safe_before [OF q])
qed

lemma cycle_safe_run_open:
  assumes "run_open deps cycle_id mclock s = Some (r, s')"
  shows "cycle_safe (\<not> mc_is_open mclock) s r s'"
proof -
  let ?ps = "list_positions (eng_conn s)"
  obtain hr s1 where hr: "evaluate_holdings (holdings_args_of deps cycle_id) ?ps s = (hr, s1)" by fastforce
  have q: "silent s s1" by (rule quiet_silent [OF quiet_evaluate_holdings [OF hr]])
  note run = assms [unfolded run_open_def Let_def hr prod.case]
  have "cycle_safe (\<not> mc_is_open mclock) s1 r s'"
  proof (cases hr)
    case (Err e)
    then show ?thesis using run by (auto intro: cycle_safe_finish)
  next
    case (Ok h)
    show ?thesis
    proof (cases "ho_market_errors h = []")
      case False
      then show ?thesis using run Ok by (auto intro: cycle_safe_execute_and_finish)
    next
      case True
      obtain rr s2 where rr: "evaluate_risk deps cycle_id h (int (length (ho_decisions h))) s1 = (rr, s2)" by fastforce
      note f = evaluate_risk_facts [OF rr]
      show ?thesis
      proof (cases rr)
        case None
        then have "run_buys deps cycle_id mclock ?ps h (int (length (ho_decisions h))) s2 = Some (r, s')"
          using run Ok True rr by simp
        from cycle_safe_run_buys [OF this] show ?thesis using f by (blast intro: cycle_safe_before)
      next
        case (Some r0)
        then have "r = r0" "s' = s2" using run Ok True rr by simp_all
        then show ?thesis using f Some silent_keeps_ok [of s1 s2] by (auto simp: cycle_safe_def silent_def)
      qed
    qed
  qed
  then show ?thesis by (rule cycle_safe_before [OF q])
qed

lemma is_halted_quiet: "quiet_step s s' \<Longrightarrow> is_halted (eng_conn s') = is_halted (eng_conn s)"
  by (simp add: quiet_step_def same_books_def is_halted_def get_engine_state_def state_of_def)

lemma cycle_safe_run_halted:
  assumes "run_halted deps cycle_id s = (r, s')" "is_halted (eng_conn s)"
  shows "cycle_safe True s r s'"
proof -
  obtain hr s1 where hr: "evaluate_holdings (holdings_args_of deps cycle_id) (list_positions (eng_conn s)) s = (hr, s1)"
    by fastforce
  note q = quiet_evaluate_holdings [OF hr]
  have "cycle_safe True s1 r s'"
    using assms is_halted_quiet [OF q] by (intro cycle_safe_finish) (auto simp: run_halted_def hr)
  then show ?thesis by (rule cycle_safe_before [OF quiet_silent [OF q]])
qed

definition never_open :: "'x CycleDeps \<Rightarrow> bool" where
  "never_open deps \<longleftrightarrow> (\<forall>x m x'. market_clock (cd_market deps) x = (Ok m, x') \<longrightarrow> \<not> mc_is_open m)"

lemma is_halted_insert_cycle: "insert_cycle c i t m = (r, c') \<Longrightarrow> is_halted c' = is_halted c"
  by (auto simp: insert_cycle_def insert_cycle_stmt_def wrap_stmt_def run_stmt_def Let_def is_halted_def
      get_engine_state_def state_of_def split: option.splits if_splits)

lemma cycle_safe_mono: "cycle_safe a s r s' \<Longrightarrow> (b \<Longrightarrow> a) \<Longrightarrow> cycle_safe b s r s'"
  by (auto simp: cycle_safe_def)

lemma cycle_safe_run_locked:
  assumes "run_locked deps s = Some (r, s')"
  shows "cycle_safe (is_halted (eng_conn s) \<or> never_open deps) s r s'"
proof -
  obtain t x1 where t: "cd_clock deps (eng_world s) = (t, x1)" by fastforce
  obtain u x2 where u: "cd_uuid4 deps x1 = (u, x2)" by fastforce
  obtain ir c where i: "insert_cycle (eng_conn s) (''cycle_'' @ u) t (mode_value (cd_mode deps)) = (ir, c)" by fastforce
  note run = assms [unfolded run_locked_def Let_def t prod.case u i]
  have c: "silent s (s\<lparr>eng_world := x, eng_conn := c\<rparr>)" for x
    using calm_steady [OF calm_insert_cycle [OF i]] by (simp add: silent_def)
  note h = is_halted_insert_cycle [OF i]
  show ?thesis
  proof (cases ir)
    case (Err e)
    then have "s' = s\<lparr>eng_world := x2, eng_conn := c\<rparr>" "r = Returns (Err e)" using run by simp_all
    then show ?thesis using c [of x2] silent_keeps_ok [OF c [of x2]] by (simp add: cycle_safe_def silent_def)
  next
    case (Ok v)
    show ?thesis
    proof (cases "is_halted c")
      case True
      then have "run_halted deps (''cycle_'' @ u) (s\<lparr>eng_world := x2, eng_conn := c\<rparr>) = (r, s')" using run Ok by simp
      from cycle_safe_run_halted [OF this] True have "cycle_safe True (s\<lparr>eng_world := x2, eng_conn := c\<rparr>) r s'" by simp
      then show ?thesis using c by (blast intro: cycle_safe_before cycle_safe_mono)
    next
      case False
      obtain mr x3 where m: "market_clock (cd_market deps) x2 = (mr, x3)" by fastforce
      have "cycle_safe (is_halted (eng_conn s) \<or> never_open deps) (s\<lparr>eng_world := x3, eng_conn := c\<rparr>) r s'"
      proof (cases mr)
        case (Err e)
        then show ?thesis using run Ok False m by (auto intro: cycle_safe_finish)
      next
        case mc: (Ok mc)
        then have "run_open deps (''cycle_'' @ u) mc (s\<lparr>eng_world := x3, eng_conn := c\<rparr>) = Some (r, s')"
          using run Ok False m by simp
        from cycle_safe_run_open [OF this] show ?thesis
          using False h m mc by (auto simp: never_open_def intro: cycle_safe_mono)
      qed
      then show ?thesis using c by (blast intro: cycle_safe_before)
    qed
  qed
qed

lemma cycle_safe_world [simp]:
  "cycle_safe b (s\<lparr>eng_world := x\<rparr>) r s' = cycle_safe b s r s'" "cycle_safe b s r (s'\<lparr>eng_world := x\<rparr>) = cycle_safe b s r s'"
  by (simp_all add: cycle_safe_def)

lemma cycle_safe_run_cycle:
  assumes "run_cycle deps s = Some (r, s')"
  shows "cycle_safe (is_halted (eng_conn s) \<or> never_open deps) s r s'"
proof (cases "cd_lock deps")
  case None
  then show ?thesis using assms cycle_safe_run_locked by (auto simp: run_cycle_def)
next
  case (Some lock)
  obtain lr x1 where l: "acquire_lock lock (eng_world s) = (lr, x1)" by fastforce
  show ?thesis
  proof (cases "\<exists>u. lr = Returns (Ok u)")
    case True
    then obtain s1 where "run_locked deps (s\<lparr>eng_world := x1\<rparr>) = Some (r, s1)"
      "s' = s1\<lparr>eng_world := lock_release lock (eng_world s1)\<rparr>"
      using assms Some l by (auto simp: run_cycle_def split: option.splits)
    then show ?thesis using cycle_safe_run_locked [of deps "s\<lparr>eng_world := x1\<rparr>"] by simp
  next
    case False
    then have "s' = s\<lparr>eng_world := x1\<rparr>" "\<forall>o'. r \<noteq> Returns (Ok o')"
      using assms Some l by (auto simp: run_cycle_def split: py_call.splits result.splits)
    then show ?thesis by (simp add: cycle_safe_def)
  qed
qed

section \<open>A cycle returns\<close>

lemma execute_decision_returns:
  assumes "0 < cd_poll_interval_s deps"
  shows "\<exists>r. execute_decision deps reasons mclock d s = Some r"
proof -
  have "poll_and_settle (poll_args_of deps d reasons order) t \<noteq> None" for order t
    using poll_loop_returns [of "poll_args_of deps d reasons order"] assms
    by (auto simp: poll_and_settle_def poll_args_of_def)
  then show ?thesis
    by (auto simp: execute_decision_def simp del: not_None_eq split: prod.splits result.splits option.splits)
qed

lemma execute_passed_returns:
  assumes "0 < cd_poll_interval_s deps"
  shows "\<exists>r. execute_passed_decisions deps reasons mclock ds counts s = Some r"
proof (induction ds arbitrary: counts s)
  case (Cons d ds)
  obtain os fs s' where "execute_decision deps reasons mclock d s = Some ((os, fs), s')"
    using execute_decision_returns [OF assms] by (metis surj_pair)
  then show ?case using Cons by simp
qed simp

lemma execute_and_finish_returns:
  assumes "0 < cd_poll_interval_s deps"
  shows "\<exists>r. execute_and_finish deps cycle_id mclock ds reasons n outc err sk s = Some r"
proof -
  obtain os fs s' where "(if mc_is_open mclock then execute_passed_decisions deps reasons mclock ds (0, 0) s
      else Some ((0, 0), s)) = Some ((os, fs), s')"
    using execute_passed_returns [OF assms] by (metis surj_pair)
  then show ?thesis by (simp add: execute_and_finish_def)
qed

lemma run_open_returns:
  assumes "0 < cd_poll_interval_s deps"
  shows "\<exists>r. run_open deps cycle_id mclock s = Some r"
proof -
  note e = execute_and_finish_returns [OF assms]
  have "\<exists>r. run_buys deps cycle_id mclock ps h n t = Some r" for ps h n t
    using e by (auto simp: run_buys_def Let_def split: prod.splits py_call.splits result.splits)
  then show ?thesis
    using e by (auto simp: run_open_def Let_def split: prod.splits result.splits option.splits)
qed

lemma run_locked_returns:
  assumes "0 < cd_poll_interval_s deps"
  shows "\<exists>r. run_locked deps s = Some r"
  using run_open_returns [OF assms]
  by (auto simp: run_locked_def Let_def split: prod.splits result.splits)

lemma run_cycle_returns:
  assumes "0 < cd_poll_interval_s deps"
  shows "\<exists>r s'. run_cycle deps s = Some (r, s')"
proof -
  have l: "run_locked deps t \<noteq> None" for t using run_locked_returns [OF assms] by simp
  have "run_cycle deps s \<noteq> None"
    using l by (auto simp: run_cycle_def simp del: not_None_eq split: prod.splits py_call.splits result.splits option.splits)
  then show ?thesis by auto
qed

section \<open>What a cycle guarantees\<close>

text \<open>
  C6: a cycle keeps the invariant of the engine whatever the broker, the market, the LLM and the
  database do: every submission was recorded and committed before, and none was made twice.
\<close>

theorem cycle_keeps_engine_ok:
  assumes "run_cycle deps s = Some (r, s')" and "engine_ok s"
  shows "engine_ok s'"
  using cycle_safe_run_cycle [OF assms(1)] assms(2) by (simp add: cycle_safe_def keeps_ok_def)

text \<open>
  C4: nothing is submitted while the engine is halted, and nothing when the market never reports
  itself open.
\<close>

theorem halted_or_closed_submits_nothing:
  assumes "run_cycle deps s = Some (r, s')" and "is_halted (eng_conn s) \<or> never_open deps"
  shows "eng_log s' = eng_log s"
  using cycle_safe_run_cycle [OF assms(1)] assms(2) by (simp add: cycle_safe_def)

text \<open>
  A cycle that reports \<open>halted\<close> has submitted nothing, and the halt is committed: whoever
  opens the database next finds it.
\<close>

theorem halted_outcome_durable:
  assumes "run_cycle deps s = Some (Returns (Ok outc), s')" and "co_outcome outc = CS_halted"
  shows "eng_log s' = eng_log s \<and> is_halted (reopened (eng_conn s'))"
  using cycle_safe_run_cycle [OF assms(1)] assms(2)
  by (auto simp: cycle_safe_def reopened_def open_conn_def is_halted_def get_engine_state_def)

text \<open>
  C23: a cycle returns, from every state of the world and of the ledger, when it polls at a positive
  interval.
\<close>

theorem cycle_returns:
  assumes "0 < cd_poll_interval_s deps"
  shows "\<exists>r s'. run_cycle deps s = Some (r, s')"
  by (rule run_cycle_returns [OF assms])

section \<open>Concrete cycles\<close>

text \<open>A market that is always closed, and one whose prices cannot be had.\<close>

definition shut_market :: "'x MarketDataProvider" where
  "shut_market = \<lparr>daily_bars = (\<lambda>t n x. (Err ''no data'', x)), latest_price = (\<lambda>t x. (Err ''no data'', x)),
     market_clock = (\<lambda>x. (Ok \<lparr>mc_is_open = False, mc_next_open = 1, mc_next_close = 2\<rparr>, x))\<rparr>"

definition sample_deps :: "FakeBroker CycleDeps" where
  "sample_deps = \<lparr>cd_mode = Mode_paper, cd_rules = shipped_rules, cd_limits = derive_limits shipped_rules,
     cd_rule_set_sha256 = ''ab12'', cd_broker = fake_ops, cd_market = shut_market, cd_llm = None,
     cd_coerce = (\<lambda>j. Ok []), cd_clock = (\<lambda>x. (5, x)), cd_uuid4 = (\<lambda>x. (''7'', x)), cd_ny_offset = (\<lambda>t. 0),
     cd_capital = Money 250000, cd_poll_timeout_s = 60, cd_poll_interval_s = 2, cd_sleep = (\<lambda>n x. x),
     cd_lock = None\<rparr>"

text \<open>An engine that was halted before.\<close>

definition halted_engine :: "FakeBroker engine" where
  "halted_engine = sample_engine\<lparr>eng_conn := open_conn (put_state (halted_key, Some halted_value) sample_db) (\<lambda>_. None)\<rparr>"

lemma sample_engine_ok: "engine_ok sample_engine"
  by (auto simp: engine_ok_def conn_ok_def sample_engine_def open_conn_def submitted_ids_def order_ids_def
      sample_db_def empty_db_def schema_ok_def)

lemma sample_never_open: "never_open sample_deps"
  by (simp add: never_open_def sample_deps_def shut_market_def)

lemma halted_run:
  "\<exists>outc s'. run_cycle sample_deps halted_engine = Some (Returns (Ok outc), s') \<and> co_outcome outc = CS_halted"
  by (simp add: run_cycle_def run_locked_def run_halted_def halted_engine_def sample_deps_def sample_engine_def
      open_conn_def sample_db_def empty_db_def put_state_def put_row_def Let_def insert_cycle_def
      insert_cycle_stmt_def wrap_stmt_def run_stmt_def has_key_def is_halted_def get_engine_state_def state_of_def
      find_row_def evaluate_holdings_def holdings_args_of_def list_positions_def finish_def finish_cycle_def
      finish_row_def change_row_def set_engine_state_def commit_and_return_def plain_commit_def)

theorem cycle_keeps_engine_ok_witness:
  "\<exists>r s'. run_cycle sample_deps sample_engine = Some (r, s') \<and> engine_ok s'"
proof -
  obtain r s' where r: "run_cycle sample_deps sample_engine = Some (r, s')"
    using run_cycle_returns [of sample_deps sample_engine] by (auto simp: sample_deps_def)
  from cycle_keeps_engine_ok [OF this sample_engine_ok] r show ?thesis by blast
qed

theorem halted_or_closed_submits_nothing_witness:
  "\<exists>r s'. run_cycle sample_deps sample_engine = Some (r, s') \<and> eng_log s' = []"
proof -
  obtain r s' where r: "run_cycle sample_deps sample_engine = Some (r, s')"
    using run_cycle_returns [of sample_deps sample_engine] by (auto simp: sample_deps_def)
  from halted_or_closed_submits_nothing [OF this] sample_never_open r show ?thesis by (auto simp: sample_engine_def)
qed

theorem halted_outcome_durable_witness:
  "\<exists>r s'. run_cycle sample_deps halted_engine = Some (r, s') \<and> is_halted (reopened (eng_conn s'))"
proof -
  obtain outc s' where r: "run_cycle sample_deps halted_engine = Some (Returns (Ok outc), s')" "co_outcome outc = CS_halted"
    using halted_run by blast
  from halted_outcome_durable [OF this] r(1) show ?thesis by blast
qed

theorem cycle_returns_witness: "\<exists>r s'. run_cycle sample_deps sample_engine = Some (r, s')"
  by (rule cycle_returns) (simp add: sample_deps_def)

end
