(* ===== verification/Session.thy ===== *)
theory Session
  imports Cli Cycle_Safety
begin

text \<open>
  The life of an installation: the commands of cli.py, one after the other, on one ledger, each
  opening it anew with whatever faults it meets. A session is the committed ledger, the outside
  world and what was submitted so far; \<open>reachable\<close> holds of the sessions that some sequence of
  commands leads to from an empty ledger. Commands that overlap are not modelled.
\<close>

section \<open>Commands\<close>

record 'x session =
  ss_db :: db
  ss_world :: 'x
  ss_log :: "(OrderRequest \<times> db) list"

datatype ('x, 'y) command =
    Ingest "string \<Rightarrow> string" AdapterRegistry string data_dir db_file datetime
  | Rules_approve "'y yaml_reading" "string \<Rightarrow> string" rules_files db_file
  | Run_cycle "('x, 'y) cycle_env"
  | Approve "'x \<Rightarrow> string \<times> 'x" "'x Clock" "string \<Rightarrow> py_datetime option" string "string option" db_file
  | Resume db_file
  | Status bool db_file

text \<open>What a command prints and the session it leaves; \<open>None\<close> if it does not return.\<close>

fun perform :: "('x, 'y) command \<Rightarrow> 'x session \<Rightarrow> (cli_result py_call \<times> 'x session) option" where
  "perform (Ingest sha reg sid dir dbf now) s = (case ingest_command sha reg sid dir dbf now (ss_db s) of
     (r, d) \<Rightarrow> Some (r, s\<lparr>ss_db := d\<rparr>))"
| "perform (Rules_approve yr sha files dbf) s = (case rules_approve_command yr sha files dbf (ss_db s) of
     (r, d, lock) \<Rightarrow> Some (r, s\<lparr>ss_db := d\<rparr>))"
| "perform (Run_cycle env) s = (case run_cycle_command env (ss_db s) (ss_world s) (ss_log s) of
     None \<Rightarrow> None
   | Some (r, d, x, l) \<Rightarrow> Some (r, \<lparr>ss_db = d, ss_world = x, ss_log = l\<rparr>))"
| "perform (Approve uuid4 clock parse_iso i expires dbf) s =
    (case approve_command uuid4 clock parse_iso i expires dbf (ss_db s) (ss_world s) of
     (r, d, x) \<Rightarrow> Some (r, s\<lparr>ss_db := d, ss_world := x\<rparr>))"
| "perform (Resume dbf) s = (case resume_command dbf (ss_db s) of (r, d) \<Rightarrow> Some (r, s\<lparr>ss_db := d\<rparr>))"
| "perform (Status db_exists dbf) s = Some (status_command db_exists dbf (ss_db s), s)"

inductive performed :: "('x, 'y) command list \<Rightarrow> 'x session \<Rightarrow> 'x session \<Rightarrow> bool" where
  no_command: "performed [] s s"
| then_command: "performed cs s t \<Longrightarrow> perform c t = Some (r, u) \<Longrightarrow> performed (cs @ [c]) s u"

definition new_session :: "'x \<Rightarrow> 'x session" where
  "new_session x = \<lparr>ss_db = empty_db, ss_world = x, ss_log = []\<rparr>"

section \<open>Commands that leave the orders and the halt alone\<close>

definition aside_db :: "db \<Rightarrow> db \<Rightarrow> bool" where
  "aside_db d d' \<longleftrightarrow> orders d' = orders d \<and> engine_state d' = engine_state d \<and> (schema_ok d \<longrightarrow> schema_ok d')"

definition aside :: "conn \<Rightarrow> conn \<Rightarrow> bool" where
  "aside c c' \<longleftrightarrow> same_store c c' \<and> aside_db (working c) (working c')"

lemma aside_refl [simp, intro]: "aside_db d d" "aside c c"
  by (simp_all add: aside_db_def aside_def)

lemma aside_trans [trans]: "aside a b \<Longrightarrow> aside b c \<Longrightarrow> aside a c"
  by (auto simp: aside_db_def aside_def intro: same_store_trans)

lemma aside_run_stmt:
  assumes "run_stmt op c = (r, c')" and "\<And>d v. op (working c) = Ok (d, v) \<Longrightarrow> aside_db (working c) d"
  shows "aside c c'"
  using working_run_stmt [OF assms(1)] same_store_run_stmt [OF assms(1)] assms(2) by (auto simp: aside_def)

lemma aside_wrap:
  assumes "wrap_stmt w x (run_stmt op c) = (r, c')" and "\<And>d v. op (working c) = Ok (d, v) \<Longrightarrow> aside_db (working c) d"
  shows "aside c c'"
proof -
  obtain u where "run_stmt op c = (u, c')"
    using assms(1) by (auto simp: wrap_stmt_def split: prod.splits result.splits)
  then show ?thesis using assms(2) by (rule aside_run_stmt)
qed

lemma aside_insert_approval: "insert_approval c a = (r, c') \<Longrightarrow> aside c c'"
  unfolding insert_approval_def
  by (erule aside_wrap) (auto simp: aside_db_def dest: schema_insert_approval, auto simp: insert_approval_stmt_def split: if_splits)

lemma aside_insert_rule_set: "insert_rule_set c h b t m y = (r, c') \<Longrightarrow> aside c c'"
  unfolding insert_rule_set_def
  by (erule aside_wrap) (auto simp: aside_db_def dest: schema_insert_rule_set, auto simp: insert_rule_set_stmt_def split: if_splits)

lemma schema_put_source:
  assumes "schema_ok d" shows "schema_ok (put_source r d)"
proof -
  have "src_source_id ` set (sources d) \<subseteq> src_source_id ` set (put_row src_source_id r (sources d))"
    using arg_cong [OF keys_put [of src_source_id r "sources d"], of set] by (auto split: if_splits)
  then have sub: "m_source_id ` set (mentions d) \<subseteq> src_source_id ` set (put_row src_source_id r (sources d))"
    using assms unfolding schema_ok_def by (elim conjE) (rule subset_trans)
  show ?thesis using assms unfolding put_source_def schema_ok_def
    by (elim conjE, intro conjI) (simp_all add: sub distinct_put)
qed

lemma schema_insert_mention: "insert_mention_stmt m d = Ok (d', n) \<Longrightarrow> schema_ok d \<Longrightarrow> schema_ok d'"
  by (auto simp: insert_mention_stmt_def schema_ok_def has_key_def mention_key_def image_subset_iff split: if_splits)

lemma aside_upsert_source: "upsert_source c i n t h k = (r, c') \<Longrightarrow> aside c c'"
  unfolding upsert_source_def
  by (erule aside_wrap) (auto simp: aside_db_def schema_put_source, auto simp: put_source_def)

lemma aside_insert_mention: "run_stmt (insert_mention_stmt m) c = (r, c') \<Longrightarrow> aside c c'"
  by (erule aside_run_stmt) (auto simp: aside_db_def dest: schema_insert_mention, auto simp: insert_mention_stmt_def split: if_splits)

lemma aside_insert_mentions_loop: "insert_mentions_loop n ms c = (r, c') \<Longrightarrow> aside c c'"
proof (induction ms arbitrary: n c)
  case (Cons m ms)
  obtain q c1 where q: "run_stmt (insert_mention_stmt m) c = (q, c1)" by fastforce
  then show ?case using Cons aside_insert_mention [OF q] by (cases q) (auto intro: aside_trans)
qed simp

lemma aside_record_ingest: "record_ingest sid now h ms c = (r, c') \<Longrightarrow> aside c c'"
  by (auto simp: record_ingest_def insert_mentions_many_def split: prod.splits result.splits
      dest!: aside_upsert_source aside_insert_mentions_loop intro: aside_trans)

text \<open>What is committed afterwards, on a connection that had nothing pending.\<close>

lemma aside_commit:
  assumes "commit c1 = (r, c2)" "aside (open_conn d fs) c1" shows "aside_db d (committed c2)"
  using assms by (cases r) (auto simp: commit_Ok aside_def open_conn_def same_store_def dest: commit_Err)

lemma aside_transaction:
  assumes "transaction body (open_conn d fs) = (r, c2)" "\<And>u c1. body (open_conn d fs) = (u, c1) \<Longrightarrow> aside (open_conn d fs) c1"
  shows "aside_db d (committed c2)"
proof -
  obtain u c1 where b: "body (open_conn d fs) = (u, c1)" by fastforce
  note a = assms(2) [OF b]
  then have c1: "committed c1 = d" by (simp add: aside_def same_store_def open_conn_def)
  obtain q c3 where q: "commit c1 = (q, c3)" by fastforce
  show ?thesis
    using assms(1) b q c1 aside_commit [OF q a]
    by (auto simp: transaction_def split: result.splits)
qed

lemma aside_approve_command:
  assumes "approve_command uuid4 clock parse_iso i expires dbf d x = (r, d', x')" shows "aside_db d d'"
proof -
  have rec: "aside_db d (committed c1)"
    if h: "record_human_approval uuid4 clock (open_conn d fs) i mc y = (q, c1, z)" for fs mc y q c1 z
  proof -
    have o: "committed (open_conn d fs) = d" by (simp add: open_conn_def)
    have ins: "aside_db d (committed c4)"
      if "insert_approval (open_conn d fs) a = (u, c3)" "commit c3 = (v, c4)" for a u c3 v c4
      using aside_commit [OF that(2) aside_insert_approval [OF that(1)]] .
    show ?thesis
      using h by (auto simp: record_human_approval_def Let_def o split: option.splits if_splits prod.splits result.splits
          dest: ins)
  qed
  show ?thesis
    using assms by (auto simp: approve_command_def Let_def split: option.splits py_call.splits result.splits prod.splits
        dest!: open_db_Ok dest: rec)
qed

lemma aside_ingest_command:
  assumes "ingest_command sha reg sid dir dbf now d = (r, d')" shows "aside_db d d'"
proof -
  obtain q where q: "run_ingest sha reg sid dir dbf now d = (q, d')"
    using assms by (auto simp: ingest_command_def split: prod.splits py_call.splits result.splits)
  then show ?thesis
  proof (cases rule: run_ingest_cases)
    case (loaded adapter ms h u c1)
    have "committed (open_conn d fs) = d" for fs by (simp add: open_conn_def)
    then show ?thesis using loaded(4,6)
      by (auto simp: ingest_loaded_def split: if_splits option.splits prod.splits result.splits
          intro: aside_transaction aside_record_ingest)
  qed simp
qed

lemma aside_rules_approve_command:
  assumes "rules_approve_command yr sha files dbf d = (r, d', lock)" shows "aside_db d d'"
proof -
  have rec: "aside_db d d'" if h: "record_rule_set h rules yaml (open_conn d fs) = (q, d')" for h rules yaml fs q
  proof -
    have o: "committed (open_conn d fs) = d" by (simp add: open_conn_def)
    have ins: "aside_db d (committed c4)"
      if "insert_rule_set (open_conn d fs) a b t m y = (u, c3)" "commit c3 = (v, c4)" for a b t m y u c3 v c4
      using aside_commit [OF that(2) aside_insert_rule_set [OF that(1)]] .
    show ?thesis
      using h by (auto simp: record_rule_set_def o split: option.splits if_splits prod.splits result.splits dest: ins)
  qed
  show ?thesis
    using assms by (auto simp: rules_approve_command_def Let_def split: if_splits py_call.splits result.splits prod.splits
        dest!: open_db_Ok dest: rec)
qed

section \<open>The invariant of a session\<close>

definition session_ok :: "'x session \<Rightarrow> bool" where
  "session_ok s \<longleftrightarrow> schema_ok (ss_db s) \<and> list_all submission_recorded (ss_log s)
     \<and> distinct (map (\<lambda>(q, d). or_client_order_id q) (ss_log s))
     \<and> (\<lambda>(q, d). or_client_order_id q) ` set (ss_log s) \<subseteq> order_ids (ss_db s)"

lemma engine_ok_open: "engine_ok \<lparr>eng_conn = open_conn d fs, eng_world = x, eng_log = l\<rparr>
    \<longleftrightarrow> session_ok \<lparr>ss_db = d, ss_world = y, ss_log = l\<rparr>"
  by (simp add: engine_ok_def session_ok_def conn_ok_def open_conn_def submitted_ids_def)

lemma engine_ok_committed:
  "engine_ok s \<Longrightarrow> session_ok \<lparr>ss_db = committed (eng_conn s), ss_world = x, ss_log = eng_log s\<rparr>"
  by (simp add: engine_ok_def session_ok_def conn_ok_def submitted_ids_def)

lemma aside_session_ok:
  "aside_db (ss_db s) d \<Longrightarrow> session_ok s \<Longrightarrow> session_ok (s\<lparr>ss_db := d\<rparr>)"
  by (simp add: session_ok_def aside_db_def order_ids_def)

lemma session_ok_world [simp]: "session_ok (s\<lparr>ss_world := x\<rparr>) = session_ok s"
  by (simp add: session_ok_def)

text \<open>How a run of \<open>run-cycle\<close> ends: before the cycle, or with the cycle.\<close>

lemma run_cycle_command_cases:
  assumes "run_cycle_command env d x sent = Some (r, d', x', l')"
  obtains (unstarted) "d' = d" "l' = sent"
    | (ran) deps fs q s' where "run_cycle deps \<lparr>eng_conn = open_conn d fs, eng_world = x, eng_log = sent\<rparr> = Some (q, s')"
      "d' = committed (eng_conn s')" "x' = eng_world s'" "l' = eng_log s'"
proof (cases "prepare_cycle env d")
  case (Returns v)
  show thesis
  proof (cases v)
    case (Ok p)
    obtain deps c where p: "p = (deps, c)" by fastforce
    have "\<exists>fs. c = open_conn d fs"
      using Returns Ok p by (auto simp: prepare_cycle_def split: if_splits result.splits py_call.splits dest!: open_db_Ok)
    then show thesis using assms Returns Ok p
      by (auto simp: run_cycle_command_def split: option.splits intro: ran)
  qed (use assms Returns unstarted in \<open>auto simp: run_cycle_command_def\<close>)
qed (use assms unstarted in \<open>auto simp: run_cycle_command_def\<close>)

lemma perform_keeps_ok:
  assumes "perform c s = Some (r, t)" "session_ok s" shows "session_ok t"
proof (cases c)
  case (Ingest sha reg sid dir dbf now)
  then show ?thesis using assms by (auto split: prod.splits dest: aside_ingest_command intro: aside_session_ok)
next
  case (Rules_approve yr sha files dbf)
  then show ?thesis using assms by (auto split: prod.splits dest: aside_rules_approve_command intro: aside_session_ok)
next
  case (Approve uuid4 clock parse_iso i expires dbf)
  then show ?thesis
    using assms aside_session_ok [of s] by (auto split: prod.splits dest!: aside_approve_command)
next
  case (Resume dbf)
  have "session_ok (s\<lparr>ss_db := committed c1\<rparr>)" if "resume (open_conn (ss_db s) fs) = (q, c1)" for fs q c1
    using steady_resume [OF that] assms(2)
    by (auto simp: steady_def session_ok_def conn_ok_def open_conn_def)
  moreover have "committed (open_conn d fs) = d" for d fs by (simp add: open_conn_def)
  ultimately show ?thesis using assms Resume
    by (auto simp: resume_command_def split: prod.splits py_call.splits result.splits if_splits dest!: open_db_Ok)
next
  case (Status db_exists dbf)
  then show ?thesis using assms by simp
next
  case (Run_cycle env)
  then obtain d x l where run: "run_cycle_command env (ss_db s) (ss_world s) (ss_log s) = Some (r, d, x, l)"
    and t: "t = \<lparr>ss_db = d, ss_world = x, ss_log = l\<rparr>"
    using assms(1) by (auto split: option.splits)
  from run show ?thesis
  proof (cases rule: run_cycle_command_cases)
    case unstarted
    then show ?thesis using assms(2) t by (simp add: session_ok_def)
  next
    case (ran deps fs q s')
    have "engine_ok \<lparr>eng_conn = open_conn (ss_db s) fs, eng_world = ss_world s, eng_log = ss_log s\<rparr>"
      using assms(2) by (simp add: engine_ok_open [where y = "ss_world s"]) (simp add: session_ok_def)
    then have "engine_ok s'" using cycle_safe_run_cycle [OF ran(1)] by (simp add: cycle_safe_def keeps_ok_def)
    then show ?thesis using t ran by (simp add: engine_ok_committed)
  qed
qed

lemma performed_keeps_ok: "performed cs s t \<Longrightarrow> session_ok s \<Longrightarrow> session_ok t"
  by (induction rule: performed.induct) (auto dest: perform_keeps_ok)

section \<open>The halt outlives the process\<close>

definition db_halted :: "db \<Rightarrow> bool" where
  "db_halted d = is_halted (open_conn d (\<lambda>_. None))"

definition halted_through :: "conn \<Rightarrow> bool" where
  "halted_through c \<longleftrightarrow> db_halted (working c) \<and> db_halted (committed c)"

lemma is_halted_db: "is_halted c = db_halted (working c)"
  by (simp add: db_halted_def is_halted_def get_engine_state_def open_conn_def)

lemma db_halted_cong: "engine_state d' = engine_state d \<Longrightarrow> db_halted d' = db_halted d"
  by (simp add: db_halted_def is_halted_def get_engine_state_def open_conn_def state_of_def)

lemma halted_through_finish:
  assumes "finish clock i outc err n os fs sk s = (r, s')" "halted_through (eng_conn s)"
  shows "halted_through (eng_conn s')"
proof -
  have "db_halted (working (eng_conn s'))"
    using finish_facts [OF assms(1)] assms(2) by (simp add: is_halted_db halted_through_def)
  moreover have "committed (eng_conn s') = committed (eng_conn s) \<or> committed (eng_conn s') = working (eng_conn s')"
  proof -
    have stmt: "committed c' = committed c" if "finish_cycle c i t u e = (q, c')" for c t u e q c'
      using calm_finish_cycle [OF that] by (simp add: calm_def same_store_def)
    have set: "committed (snd (set_engine_state c k v)) = committed c" for c k v
      using calm_set_engine_state [of c k v] by (cases "set_engine_state c k v") (simp add: calm_def same_store_def)
    have com: "committed (eng_conn u') = committed (eng_conn u) \<or> committed (eng_conn u') = working (eng_conn u')"
      if "commit_and_return v u = (q, u')" for v u q u'
      using that by (auto simp: commit_and_return_def plain_commit_def split: prod.splits option.splits result.splits)
    show ?thesis
      using assms(1) by (auto simp: finish_def Let_def split: prod.splits result.splits if_splits dest!: stmt com simp: set)
  qed
  ultimately show ?thesis using assms(2) by (auto simp: halted_through_def)
qed

lemma halted_through_run_halted:
  assumes "run_halted deps i s = (r, s')" "halted_through (eng_conn s)" shows "halted_through (eng_conn s')"
proof -
  obtain hr s1 where h: "evaluate_holdings (holdings_args_of deps i) (list_positions (eng_conn s)) s = (hr, s1)" by fastforce
  have "halted_through (eng_conn s1)"
    using quiet_evaluate_holdings [OF h] assms(2)
    by (auto simp: quiet_step_def same_store_def same_books_def halted_through_def dest: db_halted_cong)
  then show ?thesis using assms(1) h by (auto simp: run_halted_def intro: halted_through_finish)
qed

lemma halted_through_run_locked:
  assumes "run_locked deps s = Some (r, s')" "halted_through (eng_conn s)" shows "halted_through (eng_conn s')"
proof -
  have ins: "halted_through c'" if "insert_cycle (eng_conn s) i t m = (q, c')" for i t m q c'
    using calm_insert_cycle [OF that] is_halted_insert_cycle [OF that] assms(2)
    by (simp add: calm_def same_store_def halted_through_def is_halted_db)
  have halted: "is_halted c'" if "insert_cycle (eng_conn s) i t m = (q, c')" for i t m q c'
    using ins [OF that] by (simp add: halted_through_def is_halted_db)
  show ?thesis
    using assms(1) by (auto simp: run_locked_def Let_def halted ins split: prod.splits result.splits
        intro: halted_through_run_halted)
qed

lemma halted_through_run_cycle:
  assumes "run_cycle deps s = Some (r, s')" "halted_through (eng_conn s)" shows "halted_through (eng_conn s')"
  using assms by (auto simp: run_cycle_def split: option.splits prod.splits py_call.splits result.splits
      dest!: halted_through_run_locked)

fun is_resume :: "('x, 'y) command \<Rightarrow> bool" where
  "is_resume (Resume dbf) = True"
| "is_resume c = False"

lemma perform_halted:
  assumes "perform c s = Some (r, t)" "db_halted (ss_db s)" "\<not> is_resume c"
  shows "db_halted (ss_db t) \<and> ss_log t = ss_log s"
proof (cases c)
  case (Run_cycle env)
  then obtain d x l where run: "run_cycle_command env (ss_db s) (ss_world s) (ss_log s) = Some (r, d, x, l)"
    and t: "t = \<lparr>ss_db = d, ss_world = x, ss_log = l\<rparr>"
    using assms(1) by (auto split: option.splits)
  from run show ?thesis
  proof (cases rule: run_cycle_command_cases)
    case unstarted
    then show ?thesis using assms(2) t by simp
  next
    case (ran deps fs q s')
    have "halted_through (open_conn (ss_db s) fs)" using assms(2) by (simp add: halted_through_def open_conn_def)
    then have h: "halted_through (eng_conn s')" using halted_through_run_cycle [OF ran(1)] by simp
    have "is_halted (open_conn (ss_db s) fs)" using assms(2) by (simp add: is_halted_db open_conn_def)
    then have "eng_log s' = ss_log s" using cycle_safe_run_cycle [OF ran(1)] by (simp add: cycle_safe_def)
    then show ?thesis using h t ran by (simp add: halted_through_def)
  qed
next
  case (Ingest sha reg sid dir dbf now)
  then show ?thesis using assms
    by (auto split: prod.splits dest!: aside_ingest_command simp: aside_db_def dest: db_halted_cong)
next
  case (Rules_approve yr sha files dbf)
  then show ?thesis using assms
    by (auto split: prod.splits dest!: aside_rules_approve_command simp: aside_db_def dest: db_halted_cong)
next
  case (Approve uuid4 clock parse_iso i expires dbf)
  then show ?thesis using assms
    by (auto split: prod.splits dest!: aside_approve_command simp: aside_db_def dest: db_halted_cong)
qed (use assms in auto)

lemma performed_halted:
  "performed cs s t \<Longrightarrow> db_halted (ss_db s) \<Longrightarrow> list_all (\<lambda>c. \<not> is_resume c) cs
    \<Longrightarrow> db_halted (ss_db t) \<and> ss_log t = ss_log s"
  by (induction rule: performed.induct) (auto dest!: perform_halted)

section \<open>What holds of every installation\<close>

text \<open>
  C1: whatever commands are run on a new ledger, in whatever order and with whatever faults, brokers,
  prices and answers: the ledger keeps its schema, every order submitted was recorded and committed
  with its decision and approval first, no order was submitted twice, and each is still in the ledger.
\<close>

theorem session_never_resubmits:
  assumes "performed cs (new_session x) s"
  shows "schema_ok (ss_db s) \<and> list_all submission_recorded (ss_log s)
    \<and> distinct (map (\<lambda>(q, d). or_client_order_id q) (ss_log s))
    \<and> (\<forall>(q, d) \<in> set (ss_log s). \<exists>ord \<in> set (orders (ss_db s)). o_client_order_id ord = or_client_order_id q)"
proof -
  have "session_ok (new_session x)" by (simp add: session_ok_def new_session_def)
  then have ok: "session_ok s" using performed_keeps_ok [OF assms] by simp
  have "\<exists>ord \<in> set (orders (ss_db s)). o_client_order_id ord = or_client_order_id q"
    if "(q, d) \<in> set (ss_log s)" for q d
  proof -
    have "or_client_order_id q \<in> order_ids (ss_db s)"
      using ok that unfolding session_ok_def by (metis (mono_tags, lifting) case_prod_conv image_eqI subset_eq)
    then show ?thesis by (auto simp: order_ids_def)
  qed
  then show ?thesis using ok by (auto simp: session_ok_def)
qed

text \<open>
  C3: a halt outlives the process: once it is committed, no sequence of commands submits an order or
  lifts the halt until \<open>resume\<close> is given.
\<close>

theorem halt_lasts_until_resume:
  assumes "performed cs s t" and "db_halted (ss_db s)" and "list_all (\<lambda>c. \<not> is_resume c) cs"
  shows "db_halted (ss_db t) \<and> ss_log t = ss_log s"
  by (rule performed_halted [OF assms])

section \<open>Concrete sessions\<close>

definition archive_command :: "(FakeBroker, json) command" where
  "archive_command = Ingest id archive_registry ''serenity'' archive_dir plain_file 5"

definition halted_session :: "FakeBroker session" where
  "halted_session = \<lparr>ss_db = put_state (halted_key, Some halted_value) empty_db, ss_world = (fake_broker 5), ss_log = []\<rparr>"

lemma performed_one: "perform c s = Some (r, t) \<Longrightarrow> performed [c] s t"
  using then_command [OF no_command] by simp

lemma perform_archive: "\<exists>r t. perform archive_command s = Some (r, t)"
  by (simp add: archive_command_def split: prod.split)

lemma performed_archive: "\<exists>t. performed [archive_command, Resume plain_file] s t"
proof -
  obtain r t where a: "perform archive_command s = Some (r, t)" using perform_archive by blast
  have "\<exists>r' u. perform (Resume plain_file :: (FakeBroker, json) command) t = Some (r', u)"
    by (simp split: prod.split)
  then obtain r' u where "perform (Resume plain_file :: (FakeBroker, json) command) t = Some (r', u)" by blast
  from then_command [OF performed_one [OF a] this] show ?thesis by auto
qed

lemma halted_session_halted: "db_halted (ss_db halted_session)"
  by (simp add: halted_session_def db_halted_def is_halted_def get_engine_state_def state_store.get_put open_conn_def)

theorem session_never_resubmits_witness:
  "\<exists>t. performed [archive_command, Resume plain_file] (new_session (fake_broker 5)) t \<and> schema_ok (ss_db t)"
proof -
  obtain t where t: "performed [archive_command, Resume plain_file] (new_session (fake_broker 5)) t"
    using performed_archive by blast
  from session_never_resubmits [OF this] t show ?thesis by blast
qed

theorem halt_lasts_until_resume_witness:
  "\<exists>t. performed [archive_command] halted_session t \<and> db_halted (ss_db t) \<and> ss_log t = []"
proof -
  obtain r t where "perform archive_command halted_session = Some (r, t)" using perform_archive by blast
  then have t: "performed [archive_command] halted_session t" by (rule performed_one)
  have "list_all (\<lambda>c. \<not> is_resume c) [archive_command]" by (simp add: archive_command_def)
  from halt_lasts_until_resume [OF t halted_session_halted this] t show ?thesis by (auto simp: halted_session_def)
qed

end
