(* ===== verification/Iso_Order.thy ===== *)
theory Iso_Order
  imports Iso_Time
begin

text \<open>
  The stored timestamps of ledger/repository.py compare as texts the way they compare as instants:
  what its \<open>_dt_to_text\<close> promises, and what every ORDER BY and every comparison of a stored timestamp
  in SQL relies on.
\<close>

section \<open>Texts of fixed width\<close>

lemma lex_append:
  "length x = length y \<Longrightarrow> x @ u < y @ v \<longleftrightarrow> x < y \<or> x = y \<and> u < (v :: string)"
  by (induction x y rule: list_induct2) auto

lemma digit_char_less: "d < e \<Longrightarrow> e < 10 \<Longrightarrow> digit_char d < digit_char e"
  by (simp add: less_char_def of_char_digit_char)

lemma length_zfill: "n < 10 ^ w \<Longrightarrow> 0 < w \<Longrightarrow> length (zfill w n) = w"
  using length_show_nat [of n w] by (simp add: zfill_def)

lemma zfill_Suc:
  assumes "n < 10 ^ Suc w" "0 < w" shows "zfill (Suc w) n = zfill w (n div 10) @ [digit_char (n mod 10)]"
proof (cases "n < 10")
  case True
  have "w = Suc (w - 1)" using assms(2) by simp
  then have "replicate w (digit_char 0) = replicate (w - 1) (digit_char 0) @ [digit_char 0]"
    by (metis replicate_Suc replicate_append_same)
  then show ?thesis using True by (simp add: zfill_def show_nat.simps)
next
  case False
  then show ?thesis by (simp add: zfill_def show_nat.simps [of n])
qed

lemma zfill_less: "m < n \<Longrightarrow> n < 10 ^ w \<Longrightarrow> 0 < w \<Longrightarrow> zfill w m < zfill w n"
proof (induction w arbitrary: m n)
  case (Suc w)
  show ?case
  proof (cases "w = 0")
    case True
    then show ?thesis using Suc.prems digit_char_less [of m n] by (simp add: zfill_def show_nat.simps)
  next
    case False
    have q: "m div 10 < 10 ^ w" "n div 10 < 10 ^ w"
      using Suc.prems by (simp_all add: less_mult_imp_div_less mult.commute)
    have "m div 10 < n div 10 \<or> m div 10 = n div 10 \<and> m mod 10 < n mod 10"
      using Suc.prems(1) div_mult_mod_eq [of m 10] div_mult_mod_eq [of n 10] by linarith
    then have "zfill w (m div 10) @ [digit_char (m mod 10)] < zfill w (n div 10) @ [digit_char (n mod 10)]"
      using Suc.IH [of "m div 10" "n div 10"] q False digit_char_less [of "m mod 10" "n mod 10"]
      by (auto simp: lex_append length_zfill)
    then show ?thesis using Suc.prems zfill_Suc [of m w] zfill_Suc [of n w] False by simp
  qed
qed simp

text \<open>A number of fixed width followed by more text.\<close>

lemma zfill_lex:
  assumes "0 \<le> a" "0 \<le> b" "a < 10 ^ w" "b < 10 ^ w" "0 < w" "a < b \<or> a = b \<and> u < v"
  shows "zfill w (nat a) @ u < zfill w (nat b) @ v"
proof -
  have "nat a < 10 ^ w" "nat b < 10 ^ w" using assms(1-4) by (simp_all add: nat_less_iff)
  then show ?thesis using assms zfill_less [of "nat a" "nat b" w] by (auto simp: lex_append length_zfill)
qed

section \<open>Days\<close>

lemma div_step:
  fixes y k :: int
  assumes "0 < k" shows "y div k = (y - 1) div k + (if y mod k = 0 then 1 else 0)"
proof -
  define q r where "q = (y - 1) div k" and "r = (y - 1) mod k"
  have y: "y = q * k + r + 1" using div_mult_mod_eq [of "y - 1" k] by (simp add: q_def r_def)
  have r: "0 \<le> r" "r < k" using assms by (simp_all add: r_def)
  show ?thesis
  proof (cases "r + 1 = k")
    case True
    then have "y = (q + 1) * k" using y by (simp add: distrib_right)
    then show ?thesis using assms unfolding q_def [symmetric] by simp
  next
    case False
    then have d: "y div k = q" using y r by (intro int_div_pos_eq [where r = "r + 1"]) simp_all
    then have "y mod k = r + 1" using y div_mult_mod_eq [of y k] by simp
    then show ?thesis using d r by (simp add: q_def)
  qed
qed

lemma leap_arith:
  fixes x4 :: int
  assumes "x4 = w4 + (if p then 1 else 0)" "x100 = w100 + (if q then 1 else 0)" "x400 = w400 + (if r then 1 else 0)"
    "q \<longrightarrow> p" "r \<longrightarrow> q"
  shows "y * 365 + x4 - x100 + x400 = (y - 1) * 365 + w4 - w100 + w400 + 365 + (if p \<and> (\<not> q \<or> r) then 1 else 0)"
  using assms by (cases p; cases q; cases r) simp_all

lemma days_before_year_Suc: "days_before_year (y + 1) = days_before_year y + 365 + (if is_leap y then 1 else 0)"
proof -
  have m4: "y mod 100 = 0 \<longrightarrow> y mod 4 = 0" by presburger
  have m400: "y mod 400 = 0 \<longrightarrow> y mod 100 = 0" by presburger
  have n: "days_before_year (y + 1) = y * 365 + y div 4 - y div 100 + y div 400" by (simp add: days_before_year_def)
  have o: "days_before_year y = (y - 1) * 365 + (y - 1) div 4 - (y - 1) div 100 + (y - 1) div 400"
    by (simp add: days_before_year_def Let_def)
  show ?thesis unfolding n o is_leap_def by (intro leap_arith div_step m4 m400) simp_all
qed

lemma days_before_year_mono: "y \<le> y' \<Longrightarrow> days_before_year y \<le> days_before_year y'"
  by (induction y' rule: int_ge_induct) (auto simp: days_before_year_Suc)

lemma days_before_month_step:
  assumes "1 \<le> m" "m < 12" shows "days_before_month l m \<le> days_before_month l (m + 1)"
proof -
  have "m = 1 \<or> m = 2 \<or> m = 3 \<or> m = 4 \<or> m = 5 \<or> m = 6 \<or> m = 7 \<or> m = 8 \<or> m = 9 \<or> m = 10 \<or> m = 11"
    using assms by presburger
  then show ?thesis by (elim disjE) (simp_all add: days_before_month_def)
qed

lemma days_before_month_mono:
  assumes "m \<le> m'" "1 \<le> m" "m' \<le> 12" shows "days_before_month l m \<le> days_before_month l m'"
  using assms
proof (induction m' rule: int_ge_induct)
  case (step i)
  then show ?case using days_before_month_step [of i l] by simp
qed simp

lemma month_day_upper:
  assumes "0 \<le> r" "r < 365 + (if leap then 1 else 0)" "month_day leap r = (m, d)" "m < 12"
  shows "days_before_month leap m + d \<le> days_before_month leap (m + 1)"
proof -
  define q where "q = (r + 50) div 32"
  have "32 * q \<le> r + 50" "r + 50 < 32 * q + 32" unfolding q_def by presburger+
  moreover have "r \<le> 365" using assms(2) by (simp split: if_splits)
  ultimately have "1 \<le> q" "q \<le> 12" using assms(1) by linarith+
  then have "q = 1 \<or> q = 2 \<or> q = 3 \<or> q = 4 \<or> q = 5 \<or> q = 6 \<or> q = 7 \<or> q = 8 \<or> q = 9 \<or> q = 10 \<or> q = 11 \<or> q = 12"
    by presburger
  then show ?thesis
    using \<open>32 * q \<le> r + 50\<close> \<open>r + 50 < 32 * q + 32\<close> assms
    by (elim disjE) (auto simp: month_day_def Let_def q_def [symmetric] days_before_month_def split: if_splits)
qed

text \<open>The date of an ordinal lies in its year and in its month.\<close>

lemma ord2ymd_month:
  assumes "ord2ymd n = (y, m, d)" "m < 12"
  shows "days_before_month (is_leap y) m + d \<le> days_before_month (is_leap y) (m + 1)"
proof -
  obtain a b c e r where bounds: "0 \<le> b" "b \<le> 4" "0 \<le> c" "c \<le> 24" "0 \<le> e" "e \<le> 4" "0 \<le> r" "r < 365"
    and ymd: "ord2ymd n = (if e = 4 \<or> b = 4 then (a * 400 + b * 100 + c * 4 + e, 12, 31)
      else (a * 400 + 1 + b * 100 + c * 4 + e, month_day (e = 3 \<and> (c \<noteq> 24 \<or> b = 3)) r))"
    by (rule ord_parts [of n]) blast
  have n: "\<not> (e = 4 \<or> b = 4)" using ymd assms by auto
  then have "month_day (is_leap y) r = (m, d)"
    using ymd assms(1) bounds leap_of_parts [of b c e a] by auto
  then show ?thesis using bounds assms(2) by (intro month_day_upper) auto
qed

lemma ord2ymd_less:
  assumes "1 \<le> n" "n < n'" "n' \<le> 3652059" "ord2ymd n = (y, m, d)" "ord2ymd n' = (y', m', d')"
  shows "y < y' \<or> y = y' \<and> (m < m' \<or> m = m' \<and> d < d')"
proof (rule ccontr)
  assume neg: "\<not> ?thesis"
  have r: "1 \<le> m" "m \<le> 12" "1 \<le> d" "d \<le> 31" "1 \<le> m'" "m' \<le> 12" "1 \<le> d'" "d' \<le> 31"
    using ord2ymd_range [OF _ _ assms(4)] ord2ymd_range [OF _ _ assms(5)] assms by simp_all
  have n: "n = days_before_year y + days_before_month (is_leap y) m + d"
    and n': "n' = days_before_year y' + days_before_month (is_leap y') m' + d'"
    using ymd2ord_ord2ymd [OF assms(4)] ymd2ord_ord2ymd [OF assms(5)] by (simp_all add: ymd2ord_def)
  have nonneg: "0 \<le> days_before_month (is_leap y) m"
    using days_before_month_mono [of 1 m "is_leap y"] r by (simp add: days_before_month_def)
  have upper: "days_before_month (is_leap y') m' + d' \<le> 365 + (if is_leap y' then 1 else 0)"
  proof (cases "m' < 12")
    case True
    have "days_before_month (is_leap y') (m' + 1) \<le> days_before_month (is_leap y') 12"
      using True r by (intro days_before_month_mono) simp_all
    then show ?thesis using ord2ymd_month [OF assms(5) True] by (simp add: days_before_month_def)
  next
    case False
    then have "m' = 12" using r by simp
    then show ?thesis using r by (simp add: days_before_month_def)
  qed
  consider "y' < y" | "y' = y" "m' < m" | "y' = y" "m' = m" "d' \<le> d" using neg by linarith
  then show False
  proof cases
    case 1
    then have "n' \<le> days_before_year y"
      using upper n' days_before_year_Suc [of y'] days_before_year_mono [of "y' + 1" y] by simp
    then show False using n nonneg r assms(2) by simp
  next
    case 2
    then have "days_before_month (is_leap y) m' + d' \<le> days_before_month (is_leap y) m"
      using ord2ymd_month [OF assms(5)] days_before_month_mono [of "m' + 1" m "is_leap y"] r by simp
    then show False using 2 n n' r assms(2) by simp
  next
    case 3
    then show False using n n' assms(2) by simp
  qed
qed

lemma iso_date_less:
  assumes "valid_day a" "valid_day b" "a < b" shows "iso_date a @ u < iso_date b @ v"
proof -
  obtain y m d where a: "ord2ymd (a + epoch_ordinal) = (y, m, d)" by (cases "ord2ymd (a + epoch_ordinal)") auto
  obtain y' m' d' where b: "ord2ymd (b + epoch_ordinal) = (y', m', d')" by (cases "ord2ymd (b + epoch_ordinal)") auto
  have r: "0 \<le> y" "y < 10000" "1 \<le> m" "m \<le> 12" "1 \<le> d" "d \<le> 31" "0 \<le> y'" "y' < 10000" "1 \<le> m'" "m' \<le> 12" "1 \<le> d'" "d' \<le> 31"
    using ord2ymd_range [OF _ _ a] ord2ymd_range [OF _ _ b] assms by (simp_all add: valid_day_def)
  have "y < y' \<or> y = y' \<and> (m < m' \<or> m = m' \<and> d < d')"
    using assms by (intro ord2ymd_less [OF _ _ _ a b]) (simp_all add: valid_day_def)
  then show ?thesis using r by (auto simp: iso_date_def a b intro!: zfill_lex)
qed

lemma length_iso_date: "valid_day d \<Longrightarrow> length (iso_date d) = 10"
proof -
  assume v: "valid_day d"
  obtain y m dd where ymd: "ord2ymd (d + epoch_ordinal) = (y, m, dd)" by (cases "ord2ymd (d + epoch_ordinal)") auto
  have "0 \<le> y \<and> y < 10000 \<and> 1 \<le> m \<and> m \<le> 12 \<and> 1 \<le> dd \<and> dd \<le> 31"
    using v by (intro ord2ymd_range [OF _ _ ymd]) (simp_all add: valid_day_def)
  then show "length (iso_date d) = 10" by (simp add: iso_date_def ymd length_zfill nat_less_iff)
qed

section \<open>Timestamps\<close>

lemma fraction_less:
  assumes "0 \<le> a" "a < b" "b < 1000000"
  shows "(if a = 0 then '''' else ''.'' @ zfill 6 (nat a)) @ ''+00:00'' < (if b = 0 then '''' else ''.'' @ zfill 6 (nat b)) @ ''+00:00''"
proof (cases "a = 0")
  case True
  have "CHR ''+'' < CHR ''.''" by (simp add: less_char_def)
  then show ?thesis using True assms by simp
next
  case False
  then show ?thesis using assms zfill_lex [of a b 6 "''+00:00''" "''+00:00''"] by simp
qed

lemma isoformat_less:
  assumes "valid_instant a" "valid_instant b" "a < b" shows "isoformat a < isoformat b"
proof -
  have v: "valid_day (utc_date a)" "valid_day (utc_date b)" using assms by (simp_all add: valid_instant_def)
  have "utc_date a \<le> utc_date b" using assms(3) by (simp add: utc_date_def zdiv_mono1)
  then consider "utc_date a < utc_date b" | "utc_date a = utc_date b" by linarith
  then show ?thesis
  proof cases
    case 1
    then show ?thesis using iso_date_less [OF v] by (simp add: isoformat_def Let_def)
  next
    case 2
    let ?p = "a mod microseconds_per_day" and ?q = "b mod microseconds_per_day"
    have less: "?p < ?q"
      using assms(3) 2 div_mult_mod_eq [of a microseconds_per_day] div_mult_mod_eq [of b microseconds_per_day]
      unfolding utc_date_def by linarith
    have rp: "0 \<le> ?p" "?p < 86400000000" and rq: "0 \<le> ?q" "?q < 86400000000"
      by simp_all
    obtain h mi s us where p: "?p div 3600000000 = h" "?p div 60000000 mod 60 = mi" "?p div 1000000 mod 60 = s"
      "?p mod 1000000 = us" "?p = h * 3600000000 + mi * 60000000 + s * 1000000 + us"
      "0 \<le> h" "h < 24" "0 \<le> mi" "mi < 60" "0 \<le> s" "s < 60" "0 \<le> us" "us < 1000000"
      by (rule time_parts [OF rp])
    obtain h' mi' s' us' where q: "?q div 3600000000 = h'" "?q div 60000000 mod 60 = mi'" "?q div 1000000 mod 60 = s'"
      "?q mod 1000000 = us'" "?q = h' * 3600000000 + mi' * 60000000 + s' * 1000000 + us'"
      "0 \<le> h'" "h' < 24" "0 \<le> mi'" "mi' < 60" "0 \<le> s'" "s' < 60" "0 \<le> us'" "us' < 1000000"
      by (rule time_parts [OF rq])
    have "h < h' \<or> h = h' \<and> (mi < mi' \<or> mi = mi' \<and> (s < s' \<or> s = s' \<and> us < us'))"
      using less p(5-) q(5-) by linarith
    then have "zfill 2 (nat h) @ '':'' @ zfill 2 (nat mi) @ '':'' @ zfill 2 (nat s)
        @ (if us = 0 then '''' else ''.'' @ zfill 6 (nat us)) @ ''+00:00''
      < zfill 2 (nat h') @ '':'' @ zfill 2 (nat mi') @ '':'' @ zfill 2 (nat s')
        @ (if us' = 0 then '''' else ''.'' @ zfill 6 (nat us')) @ ''+00:00''"
      using p(6-) q(6-) fraction_less [of us us'] by (auto intro!: zfill_lex simp del: append_assoc)
    then show ?thesis
      unfolding isoformat_def Let_def p(1-4) q(1-4) 2 by (simp add: lex_append)
  qed
qed

end
