(* ===== verification/Ledger_Rows.thy ===== *)
theory Ledger_Rows
  imports Source_Repository Json_Text Iso_Order
begin

text \<open>
  The rows of ledger/repository.py, ledger/portfolio_repository.py and ledger/source_repository.py
  as SQLite stores them: the columns of a table as a record of texts and integers, the parameters an
  INSERT binds to them, and the reading of a row with every check it makes. The other theories keep
  the rows as the records of the domain; the round trip here is what allows that, and the order of
  the stored timestamps is what allows ORDER BY to be an order of instants.
\<close>

section \<open>Reading a column\<close>

text \<open>
  What reading a row gives: the record, a \<open>LedgerCorruptionError\<close>, or another exception that escapes.
  \<open>Foreign\<close> is a text that is no error but that the program never writes (a list of other things than
  texts, another form of a timestamp): what Python makes of it is not modelled.
\<close>

datatype 'a row_read = Read 'a | Corruption string | Escapes string | Foreign

definition read_then :: "'a row_read \<Rightarrow> ('a \<Rightarrow> 'b row_read) \<Rightarrow> 'b row_read" where
  "read_then r f = (case r of Read v \<Rightarrow> f v | Corruption e \<Rightarrow> Corruption e | Escapes e \<Rightarrow> Escapes e | Foreign \<Rightarrow> Foreign)"

definition dt_to_text :: "datetime \<Rightarrow> string" where
  "dt_to_text t = isoformat t"

definition dt_from_text :: "string \<Rightarrow> datetime row_read" where
  "dt_from_text s = (case fromisoformat s of None \<Rightarrow> Foreign | Some t \<Rightarrow> Read t)"

text \<open>\<open>_dt_from_text(row[...]) if row[...] else None\<close>.\<close>

definition dt_or_none :: "string option \<Rightarrow> datetime option row_read" where
  "dt_or_none s = (case s of None \<Rightarrow> Read None
     | Some t \<Rightarrow> if t = '''' then Read None else read_then (dt_from_text t) (\<lambda>v. Read (Some v)))"

definition day_from_text :: "string \<Rightarrow> day row_read" where
  "day_from_text s = (case date_fromisoformat s of None \<Rightarrow> Foreign | Some d \<Rightarrow> Read d)"

definition money_to_text :: "Money option \<Rightarrow> string option" where
  "money_to_text m = map_option (\<lambda>v. to_canonical (money_amount v)) m"

definition price_to_text :: "Price option \<Rightarrow> string option" where
  "price_to_text p = map_option (\<lambda>v. to_canonical (price_amount v)) p"

definition decimal_to_text :: "decimal option \<Rightarrow> string option" where
  "decimal_to_text d = map_option to_canonical d"

definition stored_decimal_or_raise :: "string \<Rightarrow> decimal row_read" where
  "stored_decimal_or_raise s = (case from_canonical s of
     Err e \<Rightarrow> Corruption (''stored decimal '' @ quoted s @ '' is not canonical'')
   | Ok d \<Rightarrow> Read d)"

definition read_money :: "string \<Rightarrow> Money row_read" where
  "read_money s = read_then (stored_decimal_or_raise s) (\<lambda>d. Read (mk_Money d))"

definition read_price :: "string \<Rightarrow> Price row_read" where
  "read_price s = read_then (stored_decimal_or_raise s) (\<lambda>d. Read (mk_Price d))"

definition optionally :: "('a \<Rightarrow> 'b row_read) \<Rightarrow> 'a option \<Rightarrow> 'b option row_read" where
  "optionally f s = (case s of None \<Rightarrow> Read None | Some t \<Rightarrow> read_then (f t) (\<lambda>v. Read (Some v)))"

definition money_or_none :: "string option \<Rightarrow> Money option row_read" where
  "money_or_none s = optionally read_money s"

definition price_or_none :: "string option \<Rightarrow> Price option row_read" where
  "price_or_none s = optionally read_price s"

definition decimal_or_none :: "string option \<Rightarrow> decimal option row_read" where
  "decimal_or_none s = optionally stored_decimal_or_raise s"

definition quantity_or_raise :: "string \<Rightarrow> Quantity row_read" where
  "quantity_or_raise s = (case quantity_parse s of
     Raises e \<Rightarrow> Escapes e
   | Returns (Err e) \<Rightarrow> Corruption (''stored quantity '' @ quoted s @ '' is not a whole share count'')
   | Returns (Ok q) \<Rightarrow> Read q)"

text \<open>\<open>tuple(json.loads(...))\<close> of a list of texts; malformed JSON raises a ValueError of its own class.\<close>

definition read_ids :: "string \<Rightarrow> string list row_read" where
  "read_ids s = (case json_loads s of
     Err IntTooLong \<Rightarrow> Escapes ''ValueError''
   | Err e \<Rightarrow> Escapes ''JSONDecodeError''
   | Ok v \<Rightarrow> (case v of
       JArray vs \<Rightarrow> if list_all (\<lambda>x. case x of JString t \<Rightarrow> True | _ \<Rightarrow> False) vs
         then Read (map (\<lambda>x. case x of JString t \<Rightarrow> t | _ \<Rightarrow> '''') vs) else Foreign
     | _ \<Rightarrow> Foreign))"

text \<open>An enumeration called with a value: the member of that value, or ValueError.\<close>

definition read_enum :: "('a \<Rightarrow> string) \<Rightarrow> 'a list \<Rightarrow> string \<Rightarrow> 'a row_read" where
  "read_enum val members s = (case find (\<lambda>m. val m = s) members of None \<Rightarrow> Escapes ''ValueError'' | Some m \<Rightarrow> Read m)"

definition all_action :: "Action list" where
  "all_action = [Action_buy, Action_sell, Action_hold, Action_skip]"

definition all_origin :: "Origin list" where
  "all_origin = [Origin_llm, Origin_rule_exit]"

definition all_rule_check :: "RuleCheck list" where
  "all_rule_check = [RC_passed, RC_rejected]"

definition all_side :: "Side list" where
  "all_side = [Side_buy, Side_sell]"

definition all_order_status :: "OrderStatus list" where
  "all_order_status = [OS_recorded, OS_submitted, OS_partially_filled, OS_filled, OS_canceled, OS_rejected, OS_failed]"

definition all_exit_reason :: "ExitReason list" where
  "all_exit_reason = [ER_stop_loss, ER_partial_take_profit, ER_trailing_stop, ER_max_holding_days, ER_llm]"

definition approver_value :: "Approver \<Rightarrow> string" where
  "approver_value a = (case a of Approver_system \<Rightarrow> ''system'' | Approver_kyo \<Rightarrow> ''kyo'')"

definition all_approver :: "Approver list" where
  "all_approver = [Approver_system, Approver_kyo]"

section \<open>What is written is read back\<close>

lemma read_then_Read [simp]: "read_then (Read v) f = f v"
  by (simp add: read_then_def)

lemma dt_roundtrip [simp]: "valid_instant t \<Longrightarrow> dt_from_text (dt_to_text t) = Read t"
  by (simp add: dt_from_text_def dt_to_text_def fromisoformat_isoformat)

lemma day_roundtrip [simp]: "valid_day d \<Longrightarrow> day_from_text (iso_date d) = Read d"
  by (simp add: day_from_text_def date_fromisoformat_iso_date)

lemma dt_to_text_nonempty: "dt_to_text t \<noteq> ''''"
  by (simp add: dt_to_text_def isoformat_def Let_def)

lemma dt_option_roundtrip [simp]:
  "(case t of None \<Rightarrow> True | Some v \<Rightarrow> valid_instant v) \<Longrightarrow> dt_or_none (map_option dt_to_text t) = Read t"
  by (cases t) (simp_all add: dt_or_none_def dt_to_text_nonempty)

lemma from_to_canonical: "from_canonical (to_canonical d) = Ok (dplain d)"
proof -
  have "py_lower (dformat_f d) = dformat_f d"
    using dformat_f_plain [of d] plain_char_facts(2) by (simp add: py_lower_def map_idI)
  moreover have "\<not> plain_char (CHR ''e'')" by (simp add: plain_char_def is_digit_def)
  then have "CHR ''e'' \<notin> set (dformat_f d)" using dformat_f_plain [of d] by metis
  ultimately have "CHR ''e'' \<notin> set (py_lower (dformat_f d))" by simp
  then show ?thesis by (simp add: from_canonical_def to_canonical_def py_decimal_dformat)
qed

lemma decimal_roundtrip: "stored_decimal_or_raise (to_canonical d) = Read (dplain d)"
  by (simp add: stored_decimal_or_raise_def from_to_canonical)

lemma decimal_exact [simp]: "dexp d \<le> 0 \<Longrightarrow> stored_decimal_or_raise (to_canonical d) = Read d"
  by (cases d) (auto simp: decimal_roundtrip dplain_def)

lemma decimal_option_roundtrip [simp]:
  "(case d of None \<Rightarrow> True | Some v \<Rightarrow> dexp v \<le> 0) \<Longrightarrow> decimal_or_none (decimal_to_text d) = Read d"
  by (cases d) (simp_all add: decimal_or_none_def optionally_def decimal_to_text_def)

lemma money_roundtrip [simp]: "read_money (to_canonical (money_amount m)) = Read m"
  by (simp add: read_money_def money.dexp_amount money.mk_amount)

lemma price_roundtrip [simp]: "read_price (to_canonical (price_amount p)) = Read p"
  by (simp add: read_price_def price.dexp_amount price.mk_amount)

lemma money_option_roundtrip [simp]: "money_or_none (money_to_text m) = Read m"
  by (cases m) (simp_all add: money_or_none_def optionally_def money_to_text_def)

lemma price_option_roundtrip [simp]: "price_or_none (price_to_text p) = Read p"
  by (cases p) (simp_all add: price_or_none_def optionally_def price_to_text_def)

lemma quantity_roundtrip [simp]:
  assumes "0 \<le> shares q" shows "quantity_or_raise (to_canonical (dec_of_int (shares q))) = Read q"
proof -
  have "py_decimal (to_canonical (dec_of_int (shares q))) = Some (Finite (dplain (dec_of_int (shares q))))"
    by (simp add: to_canonical_def py_decimal_dformat)
  then have "quantity_parse (to_canonical (dec_of_int (shares q))) = Returns (Ok q)"
    using assms by (simp add: quantity_parse_exact dval_dplain)
  then show ?thesis by (simp add: quantity_or_raise_def)
qed

lemma ids_roundtrip [simp]: "list_all is_ascii xs \<Longrightarrow> read_ids (json_dumps_strings xs) = Read xs"
  by (simp add: read_ids_def json_loads_dumps list_all_iff comp_def)

lemma action_roundtrip [simp]: "read_enum action_value all_action (action_value a) = Read a"
  by (cases a) (simp_all add: read_enum_def all_action_def action_value_def)

lemma origin_roundtrip [simp]: "read_enum origin_value all_origin (origin_value b) = Read b"
  by (cases b) (simp_all add: read_enum_def all_origin_def origin_value_def)

lemma rule_check_roundtrip [simp]: "read_enum rule_check_value all_rule_check (rule_check_value c) = Read c"
  by (cases c) (simp_all add: read_enum_def all_rule_check_def rule_check_value_def)

lemma side_roundtrip [simp]: "read_enum side_value all_side (side_value d) = Read d"
  by (cases d) (simp_all add: read_enum_def all_side_def side_value_def)

lemma order_status_roundtrip [simp]: "read_enum order_status_value all_order_status (order_status_value e) = Read e"
  by (cases e) (simp_all add: read_enum_def all_order_status_def order_status_value_def)

lemma exit_reason_roundtrip [simp]: "read_enum exit_reason_value all_exit_reason (exit_reason_value f) = Read f"
  by (cases f) (simp_all add: read_enum_def all_exit_reason_def exit_reason_value_def)

lemma approver_roundtrip [simp]: "read_enum approver_value all_approver (approver_value g) = Read g"
  by (cases g) (simp_all add: read_enum_def all_approver_def approver_value_def)

section \<open>The tables\<close>

text \<open>
  Per table: its columns, what an INSERT binds, the reading of a row, and the records for which
  nothing is lost: timestamps and days within the datetime module's range, identifiers in ASCII,
  decimals without a positive exponent and whole shares of no negative number.
\<close>

record decision_columns =
  dcol_id :: string
  dcol_cycle_id :: string
  dcol_decided_at :: string
  dcol_mode :: string
  dcol_ticker :: string
  dcol_action :: string
  dcol_origin :: string
  dcol_confidence :: "string option"
  dcol_rationale :: string
  dcol_evidence_mention_ids :: string
  dcol_llm_model :: "string option"
  dcol_prompt_sha256 :: "string option"
  dcol_response_sha256 :: "string option"
  dcol_rule_set_sha256 :: string
  dcol_rule_check :: string
  dcol_rule_check_reason :: string
  dcol_proposed_notional :: "string option"
  dcol_reference_price :: "string option"

definition decision_row :: "Decision \<Rightarrow> decision_columns" where
  "decision_row d = \<lparr>dcol_id = d_id d,
     dcol_cycle_id = d_cycle_id d,
     dcol_decided_at = dt_to_text (d_decided_at d),
     dcol_mode = d_mode d,
     dcol_ticker = d_ticker d,
     dcol_action = action_value (d_action d),
     dcol_origin = origin_value (d_origin d),
     dcol_confidence = decimal_to_text (d_confidence d),
     dcol_rationale = d_rationale d,
     dcol_evidence_mention_ids = json_dumps_strings (d_evidence_mention_ids d),
     dcol_llm_model = d_llm_model d,
     dcol_prompt_sha256 = d_prompt_sha256 d,
     dcol_response_sha256 = d_response_sha256 d,
     dcol_rule_set_sha256 = d_rule_set_sha256 d,
     dcol_rule_check = rule_check_value (d_rule_check d),
     dcol_rule_check_reason = d_rule_check_reason d,
     dcol_proposed_notional = money_to_text (d_proposed_notional d),
     dcol_reference_price = price_to_text (d_reference_price d)\<rparr>"

definition row_to_decision :: "decision_columns \<Rightarrow> Decision row_read" where
  "row_to_decision r =
    read_then (dt_from_text (dcol_decided_at r)) (\<lambda>decided_at.
    read_then (read_enum action_value all_action (dcol_action r)) (\<lambda>action.
    read_then (read_enum origin_value all_origin (dcol_origin r)) (\<lambda>origin.
    read_then (decimal_or_none (dcol_confidence r)) (\<lambda>confidence.
    read_then (read_ids (dcol_evidence_mention_ids r)) (\<lambda>evidence_mention_ids.
    read_then (read_enum rule_check_value all_rule_check (dcol_rule_check r)) (\<lambda>rule_check.
    read_then (money_or_none (dcol_proposed_notional r)) (\<lambda>proposed_notional.
    read_then (price_or_none (dcol_reference_price r)) (\<lambda>reference_price.
    Read \<lparr>d_id = dcol_id r,
      d_cycle_id = dcol_cycle_id r,
      d_decided_at = decided_at,
      d_mode = dcol_mode r,
      d_ticker = dcol_ticker r,
      d_action = action,
      d_origin = origin,
      d_confidence = confidence,
      d_rationale = dcol_rationale r,
      d_evidence_mention_ids = evidence_mention_ids,
      d_llm_model = dcol_llm_model r,
      d_prompt_sha256 = dcol_prompt_sha256 r,
      d_response_sha256 = dcol_response_sha256 r,
      d_rule_set_sha256 = dcol_rule_set_sha256 r,
      d_rule_check = rule_check,
      d_rule_check_reason = dcol_rule_check_reason r,
      d_proposed_notional = proposed_notional,
      d_reference_price = reference_price\<rparr>))))))))"

definition storable_decision :: "Decision \<Rightarrow> bool" where
  "storable_decision d \<longleftrightarrow> valid_instant (d_decided_at d)
     \<and> (case d_confidence d of None \<Rightarrow> True | Some c \<Rightarrow> dexp c \<le> 0)
     \<and> list_all is_ascii (d_evidence_mention_ids d)"

lemma row_to_decision_row [simp]: "storable_decision d \<Longrightarrow> row_to_decision (decision_row d) = Read d"
  by (cases d) (simp add: row_to_decision_def decision_row_def storable_decision_def)

record approval_columns =
  acol_id :: string
  acol_decision_id :: string
  acol_approver :: string
  acol_approved_at :: string
  acol_expires_at :: string

definition approval_row :: "Approval \<Rightarrow> approval_columns" where
  "approval_row a = \<lparr>acol_id = a_id a,
     acol_decision_id = a_decision_id a,
     acol_approver = approver_value (a_approver a),
     acol_approved_at = dt_to_text (a_approved_at a),
     acol_expires_at = dt_to_text (a_expires_at a)\<rparr>"

definition row_to_approval :: "approval_columns \<Rightarrow> Approval row_read" where
  "row_to_approval r =
    read_then (read_enum approver_value all_approver (acol_approver r)) (\<lambda>approver.
    read_then (dt_from_text (acol_approved_at r)) (\<lambda>approved_at.
    read_then (dt_from_text (acol_expires_at r)) (\<lambda>expires_at.
    Read \<lparr>a_id = acol_id r,
      a_decision_id = acol_decision_id r,
      a_approver = approver,
      a_approved_at = approved_at,
      a_expires_at = expires_at\<rparr>)))"

definition storable_approval :: "Approval \<Rightarrow> bool" where
  "storable_approval a \<longleftrightarrow> valid_instant (a_approved_at a)
     \<and> valid_instant (a_expires_at a)"

lemma row_to_approval_row [simp]: "storable_approval a \<Longrightarrow> row_to_approval (approval_row a) = Read a"
  by (cases a) (simp add: row_to_approval_def approval_row_def storable_approval_def)

record order_columns =
  ocol_id :: string
  ocol_decision_id :: string
  ocol_approval_id :: string
  ocol_client_order_id :: string
  ocol_broker_order_id :: "string option"
  ocol_mode :: string
  ocol_side :: string
  ocol_qty :: string
  ocol_order_type :: string
  ocol_status :: string
  ocol_submitted_at :: "string option"
  ocol_last_error :: "string option"

definition order_row :: "Order \<Rightarrow> order_columns" where
  "order_row x = \<lparr>ocol_id = o_id x,
     ocol_decision_id = o_decision_id x,
     ocol_approval_id = o_approval_id x,
     ocol_client_order_id = o_client_order_id x,
     ocol_broker_order_id = o_broker_order_id x,
     ocol_mode = o_mode x,
     ocol_side = side_value (o_side x),
     ocol_qty = to_canonical (dec_of_int (shares (o_qty x))),
     ocol_order_type = o_order_type x,
     ocol_status = order_status_value (o_status x),
     ocol_submitted_at = map_option dt_to_text (o_submitted_at x),
     ocol_last_error = o_last_error x\<rparr>"

definition row_to_order :: "order_columns \<Rightarrow> Order row_read" where
  "row_to_order r =
    read_then (read_enum side_value all_side (ocol_side r)) (\<lambda>side.
    read_then (quantity_or_raise (ocol_qty r)) (\<lambda>qty.
    read_then (read_enum order_status_value all_order_status (ocol_status r)) (\<lambda>status.
    read_then (dt_or_none (ocol_submitted_at r)) (\<lambda>submitted_at.
    Read \<lparr>o_id = ocol_id r,
      o_decision_id = ocol_decision_id r,
      o_approval_id = ocol_approval_id r,
      o_client_order_id = ocol_client_order_id r,
      o_broker_order_id = ocol_broker_order_id r,
      o_mode = ocol_mode r,
      o_side = side,
      o_qty = qty,
      o_order_type = ocol_order_type r,
      o_status = status,
      o_submitted_at = submitted_at,
      o_last_error = ocol_last_error r\<rparr>))))"

definition storable_order :: "Order \<Rightarrow> bool" where
  "storable_order x \<longleftrightarrow> 0 \<le> shares (o_qty x)
     \<and> (case o_submitted_at x of None \<Rightarrow> True | Some t \<Rightarrow> valid_instant t)"

lemma row_to_order_row [simp]: "storable_order x \<Longrightarrow> row_to_order (order_row x) = Read x"
  by (cases x) (simp add: row_to_order_def order_row_def storable_order_def)

record fill_columns =
  fcol_id :: string
  fcol_order_id :: string
  fcol_filled_at :: string
  fcol_qty :: string
  fcol_price :: string
  fcol_fee :: string

definition fill_row :: "Fill \<Rightarrow> fill_columns" where
  "fill_row f = \<lparr>fcol_id = f_id f,
     fcol_order_id = f_order_id f,
     fcol_filled_at = dt_to_text (f_filled_at f),
     fcol_qty = to_canonical (dec_of_int (shares (f_qty f))),
     fcol_price = to_canonical (price_amount (f_price f)),
     fcol_fee = to_canonical (money_amount (f_fee f))\<rparr>"

definition row_to_fill :: "fill_columns \<Rightarrow> Fill row_read" where
  "row_to_fill r =
    read_then (dt_from_text (fcol_filled_at r)) (\<lambda>filled_at.
    read_then (quantity_or_raise (fcol_qty r)) (\<lambda>qty.
    read_then (read_price (fcol_price r)) (\<lambda>price.
    read_then (read_money (fcol_fee r)) (\<lambda>fee.
    Read \<lparr>f_id = fcol_id r,
      f_order_id = fcol_order_id r,
      f_filled_at = filled_at,
      f_qty = qty,
      f_price = price,
      f_fee = fee\<rparr>))))"

definition storable_fill :: "Fill \<Rightarrow> bool" where
  "storable_fill f \<longleftrightarrow> valid_instant (f_filled_at f)
     \<and> 0 \<le> shares (f_qty f)"

lemma row_to_fill_row [simp]: "storable_fill f \<Longrightarrow> row_to_fill (fill_row f) = Read f"
  by (cases f) (simp add: row_to_fill_def fill_row_def storable_fill_def)

record position_columns =
  pcol_ticker :: string
  pcol_qty :: string
  pcol_avg_cost :: string
  pcol_opened_at :: string
  pcol_high_watermark :: string
  pcol_partial_tp_done :: int

definition position_row :: "Position \<Rightarrow> position_columns" where
  "position_row p = \<lparr>pcol_ticker = p_ticker p,
     pcol_qty = to_canonical (dec_of_int (shares (p_qty p))),
     pcol_avg_cost = to_canonical (price_amount (p_avg_cost p)),
     pcol_opened_at = dt_to_text (p_opened_at p),
     pcol_high_watermark = to_canonical (price_amount (p_high_watermark p)),
     pcol_partial_tp_done = (if p_partial_tp_done p then 1 else 0)\<rparr>"

definition row_to_position :: "position_columns \<Rightarrow> Position row_read" where
  "row_to_position r =
    read_then (quantity_or_raise (pcol_qty r)) (\<lambda>qty.
    read_then (read_price (pcol_avg_cost r)) (\<lambda>avg_cost.
    read_then (dt_from_text (pcol_opened_at r)) (\<lambda>opened_at.
    read_then (read_price (pcol_high_watermark r)) (\<lambda>high_watermark.
    Read \<lparr>p_ticker = pcol_ticker r,
      p_qty = qty,
      p_avg_cost = avg_cost,
      p_opened_at = opened_at,
      p_high_watermark = high_watermark,
      p_partial_tp_done = (pcol_partial_tp_done r \<noteq> 0)\<rparr>))))"

definition storable_position :: "Position \<Rightarrow> bool" where
  "storable_position p \<longleftrightarrow> 0 \<le> shares (p_qty p)
     \<and> valid_instant (p_opened_at p)"

lemma row_to_position_row [simp]: "storable_position p \<Longrightarrow> row_to_position (position_row p) = Read p"
  by (cases p) (simp add: row_to_position_def position_row_def storable_position_def)

record trade_columns =
  tcol_id :: string
  tcol_ticker :: string
  tcol_opened_at :: string
  tcol_closed_at :: string
  tcol_entry_decision_id :: string
  tcol_exit_decision_ids :: string
  tcol_exit_reason :: string
  tcol_realized_pnl :: string
  tcol_fees :: string
  tcol_holding_days :: int

definition trade_row :: "Trade \<Rightarrow> trade_columns" where
  "trade_row t = \<lparr>tcol_id = t_id t,
     tcol_ticker = t_ticker t,
     tcol_opened_at = dt_to_text (t_opened_at t),
     tcol_closed_at = dt_to_text (t_closed_at t),
     tcol_entry_decision_id = t_entry_decision_id t,
     tcol_exit_decision_ids = json_dumps_strings (t_exit_decision_ids t),
     tcol_exit_reason = exit_reason_value (t_exit_reason t),
     tcol_realized_pnl = to_canonical (money_amount (t_realized_pnl t)),
     tcol_fees = to_canonical (money_amount (t_fees t)),
     tcol_holding_days = t_holding_days t\<rparr>"

definition row_to_trade :: "trade_columns \<Rightarrow> Trade row_read" where
  "row_to_trade r =
    read_then (dt_from_text (tcol_opened_at r)) (\<lambda>opened_at.
    read_then (dt_from_text (tcol_closed_at r)) (\<lambda>closed_at.
    read_then (read_ids (tcol_exit_decision_ids r)) (\<lambda>exit_decision_ids.
    read_then (read_enum exit_reason_value all_exit_reason (tcol_exit_reason r)) (\<lambda>exit_reason.
    read_then (read_money (tcol_realized_pnl r)) (\<lambda>realized_pnl.
    read_then (read_money (tcol_fees r)) (\<lambda>fees.
    Read \<lparr>t_id = tcol_id r,
      t_ticker = tcol_ticker r,
      t_opened_at = opened_at,
      t_closed_at = closed_at,
      t_entry_decision_id = tcol_entry_decision_id r,
      t_exit_decision_ids = exit_decision_ids,
      t_exit_reason = exit_reason,
      t_realized_pnl = realized_pnl,
      t_fees = fees,
      t_holding_days = tcol_holding_days r\<rparr>))))))"

definition storable_trade :: "Trade \<Rightarrow> bool" where
  "storable_trade t \<longleftrightarrow> valid_instant (t_opened_at t)
     \<and> valid_instant (t_closed_at t)
     \<and> list_all is_ascii (t_exit_decision_ids t)"

lemma row_to_trade_row [simp]: "storable_trade t \<Longrightarrow> row_to_trade (trade_row t) = Read t"
  by (cases t) (simp add: row_to_trade_def trade_row_def storable_trade_def)

record equity_snapshot_columns =
  scol_snapshot_date :: string
  scol_mode :: string
  scol_cash :: string
  scol_positions_value :: string
  scol_equity :: string
  scol_peak_equity :: string
  scol_drawdown_pct :: string
  scol_taken_at :: string

definition equity_snapshot_row :: "EquitySnapshot \<Rightarrow> equity_snapshot_columns" where
  "equity_snapshot_row s = \<lparr>scol_snapshot_date = iso_date (s_snapshot_date s),
     scol_mode = s_mode s,
     scol_cash = to_canonical (money_amount (s_cash s)),
     scol_positions_value = to_canonical (money_amount (s_positions_value s)),
     scol_equity = to_canonical (money_amount (s_equity s)),
     scol_peak_equity = to_canonical (money_amount (s_peak_equity s)),
     scol_drawdown_pct = to_canonical (s_drawdown_pct s),
     scol_taken_at = dt_to_text (s_taken_at s)\<rparr>"

definition row_to_equity_snapshot :: "equity_snapshot_columns \<Rightarrow> EquitySnapshot row_read" where
  "row_to_equity_snapshot r =
    read_then (day_from_text (scol_snapshot_date r)) (\<lambda>snapshot_date.
    read_then (read_money (scol_cash r)) (\<lambda>cash.
    read_then (read_money (scol_positions_value r)) (\<lambda>positions_value.
    read_then (read_money (scol_equity r)) (\<lambda>equity.
    read_then (read_money (scol_peak_equity r)) (\<lambda>peak_equity.
    read_then (stored_decimal_or_raise (scol_drawdown_pct r)) (\<lambda>drawdown_pct.
    read_then (dt_from_text (scol_taken_at r)) (\<lambda>taken_at.
    Read \<lparr>s_snapshot_date = snapshot_date,
      s_mode = scol_mode r,
      s_cash = cash,
      s_positions_value = positions_value,
      s_equity = equity,
      s_peak_equity = peak_equity,
      s_drawdown_pct = drawdown_pct,
      s_taken_at = taken_at\<rparr>)))))))"

definition storable_equity_snapshot :: "EquitySnapshot \<Rightarrow> bool" where
  "storable_equity_snapshot s \<longleftrightarrow> valid_day (s_snapshot_date s)
     \<and> dexp (s_drawdown_pct s) \<le> 0
     \<and> valid_instant (s_taken_at s)"

lemma row_to_equity_snapshot_row [simp]: "storable_equity_snapshot s \<Longrightarrow> row_to_equity_snapshot (equity_snapshot_row s) = Read s"
  by (cases s) (simp add: row_to_equity_snapshot_def equity_snapshot_row_def storable_equity_snapshot_def)

record mention_columns =
  mcol_id :: string
  mcol_source_id :: string
  mcol_external_id :: string
  mcol_ticker :: string
  mcol_posted_at :: string
  mcol_text_excerpt :: string
  mcol_url :: "string option"
  mcol_raw_sha256 :: string

definition mention_row :: "Mention \<Rightarrow> mention_columns" where
  "mention_row m = \<lparr>mcol_id = m_id m,
     mcol_source_id = m_source_id m,
     mcol_external_id = m_external_id m,
     mcol_ticker = m_ticker m,
     mcol_posted_at = dt_to_text (m_posted_at m),
     mcol_text_excerpt = m_text_excerpt m,
     mcol_url = m_url m,
     mcol_raw_sha256 = m_raw_sha256 m\<rparr>"

definition row_to_mention :: "mention_columns \<Rightarrow> Mention row_read" where
  "row_to_mention r =
    read_then (dt_from_text (mcol_posted_at r)) (\<lambda>posted_at.
    Read \<lparr>m_id = mcol_id r,
      m_source_id = mcol_source_id r,
      m_external_id = mcol_external_id r,
      m_ticker = mcol_ticker r,
      m_posted_at = posted_at,
      m_text_excerpt = mcol_text_excerpt r,
      m_url = mcol_url r,
      m_raw_sha256 = mcol_raw_sha256 r\<rparr>)"

definition storable_mention :: "Mention \<Rightarrow> bool" where
  "storable_mention m \<longleftrightarrow> valid_instant (m_posted_at m)"

lemma row_to_mention_row [simp]: "storable_mention m \<Longrightarrow> row_to_mention (mention_row m) = Read m"
  by (cases m) (simp add: row_to_mention_def mention_row_def storable_mention_def)

section \<open>The typed ledger is the stored one\<close>

text \<open>A ledger all of whose records survive being written.\<close>

definition storable :: "db \<Rightarrow> bool" where
  "storable d \<longleftrightarrow> list_all storable_mention (mentions d) \<and> list_all storable_decision (decisions d)
     \<and> list_all storable_approval (approvals d) \<and> list_all storable_order (orders d)
     \<and> list_all storable_fill (fills d) \<and> list_all storable_position (positions d)
     \<and> list_all storable_trade (trades d) \<and> list_all storable_equity_snapshot (equity_snapshots d)"


definition stored_fill :: Fill where
  "stored_fill = \<lparr>f_id = ''fill_1'', f_order_id = ''order_1'', f_filled_at = 0, f_qty = Quantity 3, f_price = Price 1000000,
     f_fee = Money 0\<rparr>"


text \<open>\<open>ORDER BY\<close> the stored text is the order of the instants the other theories use.\<close>

lemma sort_key_same_order:
  assumes "\<And>a b. a \<in> set xs \<Longrightarrow> b \<in> set xs \<Longrightarrow> f a \<le> f b \<longleftrightarrow> g a \<le> g b"
  shows "sort_key f xs = sort_key g xs"
proof -
  have ins: "insort_key f x ys = insort_key g x ys" if "\<forall>y \<in> set ys. f x \<le> f y \<longleftrightarrow> g x \<le> g y" for x ys
    using that by (induction ys) auto
  show ?thesis using assms
  proof (induction xs)
    case (Cons x xs)
    then have "sort_key f xs = sort_key g xs" by simp
    then show ?case using Cons.prems by (simp add: ins)
  qed simp
qed

lemma dt_text_le: "valid_instant a \<Longrightarrow> valid_instant b \<Longrightarrow> dt_to_text a \<le> dt_to_text b \<longleftrightarrow> a \<le> b"
  using isoformat_less [of a b] isoformat_less [of b a]
  by (cases a b rule: linorder_cases) (auto simp: dt_to_text_def not_le [symmetric])



theorem order_by_stored_text:
  assumes "storable d"
  shows "sort_key (\<lambda>f. fcol_filled_at (fill_row f)) (fills d) = sort_key f_filled_at (fills d)"
    and "sort_key (\<lambda>t. tcol_closed_at (trade_row t)) (trades d) = sort_key t_closed_at (trades d)"
  using assms
  by (auto intro!: sort_key_same_order dt_text_le
      simp: storable_def list_all_iff storable_fill_def storable_trade_def fill_row_def trade_row_def)

end
