(* ===== verification/Float_Check.thy ===== *)
theory Float_Check
  imports Money
begin

text \<open>
  scripts/check_no_float_money.py: the check that money-sensitive code names no \<open>float\<close>. A syntax
  tree keeps the nodes the check looks at, with their children in the order of the ast module's fields;
  every other node is its children. Parsing a source text is a parameter, and so are the files that
  exist. The context of a name, a node without children, is left out.
\<close>

section \<open>Syntax trees\<close>

datatype py_ast =
    Name string
  | AnnAssign nat py_ast py_ast "py_ast list"
  | Argument nat string "py_ast option"
  | FunctionDef nat string "py_ast list" "py_ast option" "py_ast list"
  | Call nat py_ast "py_ast list"
  | Other "py_ast list"

fun iter_child_nodes :: "py_ast \<Rightarrow> py_ast list" where
  "iter_child_nodes (Name i) = []"
| "iter_child_nodes (AnnAssign l target annotation rest) = target # annotation # rest"
| "iter_child_nodes (Argument l name annotation) = (case annotation of None \<Rightarrow> [] | Some a \<Rightarrow> [a])"
| "iter_child_nodes (FunctionDef l name before returns after) =
     before @ (case returns of None \<Rightarrow> [] | Some r \<Rightarrow> [r]) @ after"
| "iter_child_nodes (Call l func args) = func # args"
| "iter_child_nodes (Other cs) = cs"

lemma sum_sizes: "(\<Sum>x\<leftarrow>xs. Suc (2 * size x)) \<le> 2 * size_list size xs"
  by (induction xs) auto

lemma children_smaller: "(\<Sum>c\<leftarrow>iter_child_nodes n. Suc (2 * size c)) < Suc (2 * size n)"
proof (cases n)
  case (AnnAssign l t a r)
  then show ?thesis using sum_sizes [of r] by simp
next
  case (Argument l s a)
  then show ?thesis by (cases a) simp_all
next
  case (FunctionDef l s b r a)
  then show ?thesis using sum_sizes [of b] sum_sizes [of a] by (cases r) simp_all
next
  case (Call l f as)
  then show ?thesis using sum_sizes [of as] by simp
next
  case (Other cs)
  then show ?thesis using sum_sizes [of cs] by simp
qed simp

text \<open>\<open>ast.walk\<close>: the nodes in breadth-first order, from a queue.\<close>

function walk_queue :: "py_ast list \<Rightarrow> py_ast list" where
  "walk_queue [] = []"
| "walk_queue (n # todo) = n # walk_queue (todo @ iter_child_nodes n)"
  by pat_completeness auto
termination
  by (relation "measure (\<lambda>ns. \<Sum>n\<leftarrow>ns. Suc (2 * size n))") (use children_smaller in simp_all)

definition walk :: "py_ast \<Rightarrow> py_ast list" where
  "walk n = walk_queue [n]"

section \<open>The check\<close>

type_synonym path = "string list"

record Violation =
  vi_path :: path
  vi_line :: nat
  vi_message :: string

definition path_text :: "path \<Rightarrow> string" where
  "path_text p = join ''/'' p"

definition violation_text :: "Violation \<Rightarrow> string" where
  "violation_text v = path_text (vi_path v) @ '':'' @ show_nat (vi_line v) @ '': '' @ vi_message v"

definition annotation_contains_float :: "py_ast option \<Rightarrow> bool" where
  "annotation_contains_float annotation = (case annotation of
     None \<Rightarrow> False
   | Some n \<Rightarrow> list_ex (\<lambda>sub. case sub of Name i \<Rightarrow> i = ''float'' | _ \<Rightarrow> False) (walk n))"

fun node_violations :: "path \<Rightarrow> py_ast \<Rightarrow> Violation list" where
  "node_violations p (AnnAssign l target annotation rest) =
    (if annotation_contains_float (Some annotation)
     then [\<lparr>vi_path = p, vi_line = l, vi_message = ''float used in variable annotation''\<rparr>] else [])"
| "node_violations p (Argument l name annotation) =
    (if annotation_contains_float annotation
     then [\<lparr>vi_path = p, vi_line = l, vi_message = ''float used in annotation of '' @ quoted name\<rparr>] else [])"
| "node_violations p (FunctionDef l name before returns after) =
    (if annotation_contains_float returns
     then [\<lparr>vi_path = p, vi_line = l, vi_message = ''float used as return annotation of '' @ quoted name\<rparr>] else [])"
| "node_violations p (Call l func args) = (case func of
     Name i \<Rightarrow> if i = ''float'' then [\<lparr>vi_path = p, vi_line = l, vi_message = ''call to builtin float()''\<rparr>] else []
   | _ \<Rightarrow> [])"
| "node_violations p n = []"

definition check_tree :: "py_ast \<Rightarrow> path \<Rightarrow> Violation list" where
  "check_tree tree p = concat (map (node_violations p) (walk tree))"

text \<open>
  A file as it is read: its text, or an exception; parsing it gives a tree or raises SyntaxError.
\<close>

definition check_file :: "(string \<Rightarrow> py_ast py_call) \<Rightarrow> path \<Rightarrow> string py_call \<Rightarrow> Violation list py_call" where
  "check_file parse p content = (case content of
     Raises e \<Rightarrow> Raises e
   | Returns source \<Rightarrow> (case parse source of Raises e \<Rightarrow> Raises e | Returns tree \<Rightarrow> Returns (check_tree tree p)))"

fun check_files :: "(string \<Rightarrow> py_ast py_call) \<Rightarrow> (path \<times> string py_call) list \<Rightarrow> Violation list py_call" where
  "check_files parse [] = Returns []"
| "check_files parse ((p, content) # fs) = (case check_file parse p content of
     Raises e \<Rightarrow> Raises e
   | Returns vs \<Rightarrow> (case check_files parse fs of Raises e \<Rightarrow> Raises e | Returns ws \<Rightarrow> Returns (vs @ ws)))"

text \<open>\<open>python_files\<close> gives the files of \<open>rglob("*.py")\<close> with their contents; \<open>None\<close> is a directory that is not there.\<close>

fun check_paths :: "(string \<Rightarrow> py_ast py_call) \<Rightarrow> (path \<Rightarrow> (path \<times> string py_call) list option) \<Rightarrow> path list
    \<Rightarrow> Violation list py_call" where
  "check_paths parse python_files [] = Returns []"
| "check_paths parse python_files (dir # dirs) = (case python_files dir of
     None \<Rightarrow> check_paths parse python_files dirs
   | Some fs \<Rightarrow> (case check_files parse (sort_key fst fs) of
       Raises e \<Rightarrow> Raises e
     | Returns vs \<Rightarrow> (case check_paths parse python_files dirs of Raises e \<Rightarrow> Raises e | Returns ws \<Rightarrow> Returns (vs @ ws))))"

definition default_target_dirs :: "path list" where
  "default_target_dirs = [[''src'', ''trader'', ''domain''], [''src'', ''trader'', ''broker''],
     [''src'', ''trader'', ''ledger''], [''src'', ''trader'', ''rules'']]"

text \<open>The exit code with the lines printed.\<close>

definition check_main :: "(string \<Rightarrow> py_ast py_call) \<Rightarrow> (path \<Rightarrow> (path \<times> string py_call) list option) \<Rightarrow> path list option
    \<Rightarrow> (int \<times> string list) py_call" where
  "check_main parse python_files argv =
    (case check_paths parse python_files (case argv of None \<Rightarrow> default_target_dirs | Some dirs \<Rightarrow> dirs) of
       Raises e \<Rightarrow> Raises e
     | Returns vs \<Rightarrow> Returns (if vs = [] then 0 else 1, map violation_text vs))"

section \<open>What the check finds\<close>

text \<open>A node of a tree: the tree itself or a node of one of its children.\<close>

inductive node_of :: "py_ast \<Rightarrow> py_ast \<Rightarrow> bool" where
  here: "node_of n n"
| below: "c \<in> set (iter_child_nodes n) \<Longrightarrow> node_of m c \<Longrightarrow> node_of m n"

lemma node_of_iff: "node_of m n \<longleftrightarrow> m = n \<or> (\<exists>c \<in> set (iter_child_nodes n). node_of m c)"
  by (subst node_of.simps) auto

lemma set_walk_queue: "set (walk_queue ns) = {m. \<exists>n \<in> set ns. node_of m n}"
proof (induction ns rule: walk_queue.induct)
  case (2 n todo)
  have "node_of m n \<longleftrightarrow> m = n \<or> (\<exists>c \<in> set (iter_child_nodes n). node_of m c)" for m by (rule node_of_iff)
  then show ?case using 2 by auto
qed simp

lemma set_walk: "set (walk n) = {m. node_of m n}"
  by (simp add: walk_def set_walk_queue del: walk_queue.simps)

definition names_float :: "py_ast \<Rightarrow> bool" where
  "names_float n \<longleftrightarrow> node_of (Name ''float'') n"

lemma annotation_contains_float_iff:
  "annotation_contains_float a \<longleftrightarrow> (\<exists>n. a = Some n \<and> names_float n)"
proof -
  have f: "(case sub of Name i \<Rightarrow> i = ''float'' | _ \<Rightarrow> False) \<longleftrightarrow> sub = Name ''float''" for sub by (cases sub) auto
  show ?thesis by (cases a) (auto simp: annotation_contains_float_def names_float_def list_ex_iff set_walk f)
qed

text \<open>The uses of \<open>float\<close> the check is there to forbid.\<close>

inductive float_use :: "py_ast \<Rightarrow> bool" where
  variable: "names_float a \<Longrightarrow> float_use (AnnAssign l t a r)"
| argument: "names_float a \<Longrightarrow> float_use (Argument l s (Some a))"
| return: "names_float a \<Longrightarrow> float_use (FunctionDef l s b (Some a) c)"
| conversion: "float_use (Call l (Name ''float'') as)"

inductive_simps float_use_simps [simp]:
  "float_use (Name i)" "float_use (AnnAssign l t a r)" "float_use (Argument l s a)"
  "float_use (FunctionDef l s b r c)" "float_use (Call l f as)" "float_use (Other cs)"

lemma node_violations_iff: "node_violations p n \<noteq> [] \<longleftrightarrow> float_use n"
  by (cases n) (auto simp: annotation_contains_float_iff split: py_ast.splits)

text \<open>
  A file passes exactly when no node of its tree, at whatever depth, annotates with \<open>float\<close> or calls
  it; and a violation names the file it was found in.
\<close>

theorem check_tree_complete:
  "(check_tree tree p = [] \<longleftrightarrow> \<not> (\<exists>n. node_of n tree \<and> float_use n)) \<and> vi_path ` set (check_tree tree p) \<subseteq> {p}"
proof -
  have "vi_path v = p" if "v \<in> set (node_violations p n)" for v n
    using that by (cases n) (auto split: if_splits py_ast.splits)
  then show ?thesis
    unfolding check_tree_def using node_violations_iff [of p] by (auto simp: set_walk)
qed

text \<open>The exit code is 0 exactly when nothing is printed; directories that are not there are skipped.\<close>

theorem check_main_exit_code:
  assumes "check_main parse python_files argv = Returns (code, ls)"
  shows "(code = 0 \<longleftrightarrow> ls = []) \<and> (code = 0 \<or> code = 1)"
  using assms by (auto simp: check_main_def split: py_call.splits if_splits)

end
