(* ===== verification/Spec2Isabelle.thy ===== *)
theory Spec2Isabelle
  imports Retry Exit_Checks Rules_Lock Mode_Config Session Ledger_Rows Float_Check
begin

text \<open>
  A verification development of the trading tool under \<open>src/src/trader\<close>: a command line program that
  takes in a source's mentions of tickers, asks a language model for proposals, checks them against an
  approved rule file, and trades whole shares with a broker, keeping its books in SQLite.

  \<^bold>\<open>The parts and how they interact.\<close> \<open>cli.py\<close> holds the commands. \<open>ingest\<close> loads a data directory
  through the adapter of its source and records it. \<open>rules approve\<close> locks the rule file by its hash.
  \<open>run-cycle\<close> verifies the lock, opens the ledger, builds the Alpaca adapters and runs one cycle
  (\<open>engine/cycle.py\<close>): mark and check the holdings, measure equity and losses and pull the kill switch
  on a breach, select candidates from the mentions, ask the model, check its proposals, turn passed
  decisions into approved requests, record and then submit each one, and poll its fills into positions
  and trades. \<open>approve\<close> records a human approval, \<open>resume\<close> lifts a halt, \<open>status\<close> and \<open>report\<close>
  read. The ledger is the only state that outlives a command.

  \<^bold>\<open>How the code is modelled.\<close> A dataclass is a \<open>record\<close>, an enumeration a \<open>datatype\<close>, a
  \<open>Result\<close> is \<open>result\<close>, and a call that may let an exception escape returns a \<open>py_call\<close>. State is
  passed explicitly: \<open>conn\<close> is a connection (committed rows, its own uncommitted rows, and which of its
  statements SQLite will fail), the outside world is a value of a type variable that every reading of a
  clock, broker, market, model or random id may change, and \<open>engine\<close> joins the two with a log of
  every submission and the ledger as it was committed at that moment. \<open>Decimal\<close> is computed as written
  in the default context of 28 digits with rounding half to even. \<open>Money\<close> and \<open>Price\<close> are integer
  cents and ten-thousandths. Texts are lists of bytes of their UTF-8 encoding.

  \<^bold>\<open>Theories, bottom up.\<close>
  \<^item> \<open>Prelude\<close>: lists, digits, the collections \<open>frame\<close> and \<open>outcome\<close>. \<open>Result_Type\<close>: domain/result.py.
  \<^item> \<open>Decimal_Model\<close>, \<open>Decimal_Laws\<close>, \<open>Decimal_Text\<close>: the decimal module; its rational value, the
    rounding of every operation, and reading back what \<open>format\<close> writes.
  \<^item> \<open>Money\<close>: domain/money.py, over the locale \<open>quantized\<close> that Money and Price interpret. \<open>Clock\<close>,
    \<open>Retry\<close>, \<open>Domain_Models\<close>: the files of domain/ of those names.
  \<^item> \<open>Rules_Schema\<close>, \<open>Loss_Limits\<close>, \<open>Entry_Checks\<close>, \<open>Exit_Checks\<close>, \<open>Rules_Lock\<close>: rules/.
    \<open>Mode_Config\<close>: config/.
  \<^item> \<open>Ledger_Db\<close>, \<open>Migrations\<close>: ledger/db.py with the schema of its migration. \<open>Repository\<close>,
    \<open>Portfolio_Repository\<close>, \<open>Source_Repository\<close>: the statements, over the locale \<open>keyed_store\<close>.
    \<open>Ledger_Rows\<close>: the rows as SQLite stores them. \<open>Iso_Time\<close>, \<open>Iso_Order\<close>: timestamps as texts.
    \<open>Trade_Closer\<close>: ledger/trade_closer.py.
  \<^item> \<open>Broker\<close>: broker/broker.py, with the locale \<open>broker_laws\<close> of what a broker promises;
    \<open>Fake_Broker\<close> and \<open>Alpaca_Broker\<close> interpret or refine it. \<open>Market\<close>, \<open>Alpaca_Data\<close>: market/.
  \<^item> \<open>Approval_Engine\<close>, \<open>Order_Executor\<close>, \<open>Fills\<close>, \<open>Holdings\<close>, \<open>Kill_Switch\<close>, \<open>Candidates\<close>,
    \<open>Cycle\<close>: engine/.
  \<^item> \<open>Py_Text\<close>, \<open>Json_Text\<close>: Python's strings and JSON. \<open>Evidence_Builder\<close>: sources/evidence.py.
    \<open>Prompt_Builder\<close>, \<open>Llm_Client\<close>, \<open>Llm_Output\<close>, \<open>Analyst\<close>: analysis/, with the locale
    \<open>llm_laws\<close>. \<open>Serenity\<close>: sources/serenity/ and sources/adapter.py. \<open>Report\<close>: report/.
  \<^item> \<open>Ingest\<close>, \<open>Cli\<close>: the commands. \<open>Engine_Steps\<close>, \<open>Cycle_Safety\<close>: what a cycle keeps and guarantees.
    \<open>Session\<close>: sequences of commands. \<open>Float_Check\<close>: scripts/check_no_float_money.py.

  \<^bold>\<open>What the lemmas show.\<close>
  \<^item> Sessions (\<open>Session\<close>): in every ledger that some sequence of commands leads to, whatever fails,
    each submitted order was recorded and committed first, none was submitted twice, and a halt lasts
    until \<open>resume\<close>. Without an approved rule file \<open>run-cycle\<close> touches nothing (\<open>Cli\<close>). The invariant \<open>engine_ok\<close> is carried through the cycle by \<open>calm\<close>, \<open>steady\<close> and
    \<open>silent\<close> steps (\<open>Engine_Steps\<close>), through the other commands by \<open>aside_db\<close>.
  \<^item> Orders: record before submit, no duplicates, what a failed recording undoes; approvals only for
    passed decisions; the order of a plan is the planned number of shares; the adapter sends once.
  \<^item> Books: fills conserve shares and stay within the order, replaying them rebuilds a position, a sale
    never exceeds the holding, a trade carries the exact profit and fees.
  \<^item> Rules: entry and exit checks are complete, the batch keeps the position limit, loss limits that are
    silent are kept, the lock trusts only the hashed file, live mode needs every confirmation.
  \<^item> Data: rows and JSON lists are read back, stored timestamps order as instants, answers of the model
    and of the broker and the archive are adopted only when valid, ingest is all or nothing, reports
    count every trade and decision.

  \<^bold>\<open>Bounds and fuel.\<close> The JSON reader recurses with a fuel of twice the length of the text and one more;
  \<open>json_loads_fuel\<close> shows that it never runs out. The polling loop is a \<open>partial_function\<close>; it and the
  whole cycle are proved to return when the poll interval is positive. \<open>ast.walk\<close> terminates by the size
  of its queue. Every other recursion is structural or has a measure.

  \<^bold>\<open>Parameters.\<close> SDK clients of Alpaca and Anthropic, pydantic's reading of a typed field, YAML, SHA-256,
  ast.parse, the time zone database, file contents and lock files are arguments of the definitions; what
  the proofs need of them is a premise of the theorem (\<open>alpaca_refines_broker\<close>), met by a concrete
  instance in its witness.

  \<^bold>\<open>Not modelled.\<close> \<open>InvalidOperation\<close> of \<open>quantize\<close> beyond 28 digits and the exponent limits of the
  decimal context; an exception that escapes a broker or market operation, which reaches the engine as
  an error here and ends the process in the code; failing reads and failing unguarded deletes of the ledger; commands that overlap
  (\<open>run-cycle\<close> is serialised by its lock file, the others are short transactions) and a process killed
  in the middle of a command; log messages; Typer's reading of arguments; texts in the ledger that the
  program never writes; the constants, aliases and exception classes of a file that no definition needs;
  \<open>scripts/diag_candidates.py\<close>, a printout of steps modelled here.
\<close>

end
